(* ===== verification/Boat_Prelude.thy ===== *)
theory Boat_Prelude
  imports Complex_Main "HOL-Library.Word"
begin

text \<open>
  Shared vocabulary of the development: the faults a C++ handler can run into, checked reads
  and writes of arrays, the conversion of a floating value to \<open>int\<close>, arithmetic of ring
  indices, little-endian bit strings, and the generic machine that runs a node's handlers
  over a sequence of events.
\<close>

unbundle bit_operations_syntax

text \<open>The initial states of the nodes, for the proofs that they satisfy the invariants.\<close>

named_theorems node_init \<open>initial states of the nodes\<close>

type_synonym byte = "8 word"
type_synonym bytes = "byte list"

section \<open>Faults and checked operations\<close>

text \<open>
  The ways a call can leave its normal path: a failed CHECK or LOG(FATAL), a size error thrown
  by the message queue, an access outside an array, a conversion the C++ standard leaves
  undefined, a null pointer, the use of an object that was never assigned, a shift by
  more than the width of its operand, and a floating-point division by zero, whose result (an
  infinity or not a number) is not among the real numbers that stand for floating values.
\<close>

datatype fault = Fatal | SizeError | OutOfBounds | BadCast | NullPointer | Uninitialised | BadShift | NonFinite

type_synonym 'a res = "fault + 'a"

definition bindr :: "'a res \<Rightarrow> ('a \<Rightarrow> 'b res) \<Rightarrow> 'b res" where
  "bindr r f = (case r of Inl e \<Rightarrow> Inl e | Inr a \<Rightarrow> f a)"

lemma bindr_simps [simp]:
  "bindr (Inl e) f = Inl e"
  "bindr (Inr a) f = f a"
  by (simp_all add: bindr_def)

lemma bindr_eq_Inr: "bindr r f = Inr b \<longleftrightarrow> (\<exists>a. r = Inr a \<and> f a = Inr b)"
  by (cases r) auto

definition nth_checked :: "'a list \<Rightarrow> nat \<Rightarrow> 'a res" where
  "nth_checked xs i = (if i < length xs then Inr (xs ! i) else Inl OutOfBounds)"

definition update_checked :: "'a list \<Rightarrow> nat \<Rightarrow> 'a \<Rightarrow> 'a list res" where
  "update_checked xs i v = (if i < length xs then Inr (xs[i := v]) else Inl OutOfBounds)"

lemma nth_checked_simps [simp]:
  "i < length xs \<Longrightarrow> nth_checked xs i = Inr (xs ! i)"
  "length xs \<le> i \<Longrightarrow> nth_checked xs i = Inl OutOfBounds"
  by (simp_all add: nth_checked_def)

lemma update_checked_simps [simp]:
  "i < length xs \<Longrightarrow> update_checked xs i v = Inr (xs[i := v])"
  "length xs \<le> i \<Longrightarrow> update_checked xs i v = Inl OutOfBounds"
  by (simp_all add: update_checked_def)

text \<open>The conversion of a floating value to an integer drops the fraction.\<close>

definition trunc :: "real \<Rightarrow> int" where
  "trunc x = (if 0 \<le> x then \<lfloor>x\<rfloor> else \<lceil>x\<rceil>)"

lemma trunc_of_int [simp]: "trunc (of_int n) = n"
  by (simp add: trunc_def)

lemma trunc_nonneg:
  assumes "0 \<le> x"
  shows "of_int (trunc x) \<le> x" "x < of_int (trunc x) + 1" "0 \<le> trunc x"
  using assms by (simp_all add: trunc_def)

lemma trunc_neg:
  assumes "x < 0"
  shows "x \<le> of_int (trunc x)" "of_int (trunc x) < x + 1" "trunc x \<le> 0"
  using assms by (simp_all add: trunc_def) linarith+

lemma abs_trunc_le: "real_of_int \<bar>trunc x\<bar> \<le> \<bar>x\<bar>"
  using trunc_nonneg [of x] trunc_neg [of x] by (cases "0 \<le> x") auto

text \<open>
  Conversions to the integer types, which are undefined when the truncated value does not fit.
\<close>

definition to_int :: "int \<Rightarrow> int \<Rightarrow> real \<Rightarrow> int res" where
  "to_int lo hi x = (if lo \<le> trunc x \<and> trunc x \<le> hi then Inr (trunc x) else Inl BadCast)"

definition to_int32 :: "real \<Rightarrow> int res" where
  "to_int32 = to_int (- (2 ^ 31)) (2 ^ 31 - 1)"

definition to_uint32 :: "real \<Rightarrow> int res" where
  "to_uint32 = to_int 0 (2 ^ 32 - 1)"

definition to_int64 :: "real \<Rightarrow> int res" where
  "to_int64 = to_int (- (2 ^ 63)) (2 ^ 63 - 1)"

definition to_uint64 :: "real \<Rightarrow> int res" where
  "to_uint64 = to_int 0 (2 ^ 64 - 1)"

lemma to_int_of_int [simp]: "to_int lo hi (of_int n) = (if lo \<le> n \<and> n \<le> hi then Inr n else Inl BadCast)"
  by (simp add: to_int_def)

lemma to_int32_small: "\<bar>x\<bar> < 2 ^ 31 \<Longrightarrow> to_int32 x = Inr (trunc x)"
proof -
  assume "\<bar>x\<bar> < 2 ^ 31"
  then have "real_of_int \<bar>trunc x\<bar> < real_of_int (2 ^ 31)"
    using abs_trunc_le [of x] by simp
  then have "\<bar>trunc x\<bar> < 2 ^ 31" by (simp only: of_int_less_iff)
  then show ?thesis by (auto simp: to_int32_def to_int_def abs_less_iff)
qed

section \<open>Bits of byte strings\<close>

text \<open>The bits of a sequence of bytes, the lowest bit of each byte first.\<close>

definition stream_bit :: "bytes \<Rightarrow> nat \<Rightarrow> bool" where
  "stream_bit data k \<longleftrightarrow> bit (data ! (k div 8)) (k mod 8)"

lemma bit_beyond [simp]:
  "8 \<le> n \<Longrightarrow> \<not> bit (w8 :: byte) n"
  "1 \<le> n \<Longrightarrow> \<not> bit (w1 :: 1 word) n"
  "2 \<le> n \<Longrightarrow> \<not> bit (w2 :: 2 word) n"
  "3 \<le> n \<Longrightarrow> \<not> bit (w3 :: 3 word) n"
  using bit_imp_le_length [of w8 n] bit_imp_le_length [of w1 n] bit_imp_le_length [of w2 n]
    bit_imp_le_length [of w3 n] by auto

lemma masks_32:
  "(0xFF :: 32 word) = mask 8" "(0x01 :: 32 word) = mask 1"
  "(0x1FF00 :: 32 word) = push_bit 8 (mask 9)" "(0x1FFFF :: 32 word) = mask 17"
  by (simp_all add: mask_eq_exp_minus_1 push_bit_eq_mult)

section \<open>Little-endian numbers\<close>

fun le_value :: "bytes \<Rightarrow> int" where
  "le_value [] = 0"
| "le_value (b # bs) = uint b + 256 * le_value bs"

fun le_bytes :: "nat \<Rightarrow> int \<Rightarrow> bytes" where
  "le_bytes 0 v = []"
| "le_bytes (Suc n) v = word_of_int (v mod 256) # le_bytes n (v div 256)"

lemma length_le_bytes [simp]: "length (le_bytes n v) = n"
  by (induction n v rule: le_bytes.induct) auto

lemma le_value_le_bytes [simp]: "le_value (le_bytes n v) = v mod 256 ^ n"
proof (induction n v rule: le_bytes.induct)
  case (2 n v)
  have "uint (word_of_int (v mod 256) :: byte) = v mod 256"
    by (simp add: uint_word_of_int)
  with 2 show ?case by (simp add: mod_mult2_eq' zmod_zmult2_eq)
qed simp

section \<open>Ring indices\<close>

text \<open>
  The slot of the \<open>j\<close>-th message of a ring of \<open>N\<close> slots that is filled from the top slot
  downwards, the order in which \<^verbatim>\<open>mq_hdr_t::insert_at_begin\<close> takes its slots.
\<close>

definition ring_idx :: "nat \<Rightarrow> nat \<Rightarrow> nat" where
  "ring_idx N j = (N - j mod N) mod N"

lemma ring_idx_0 [simp]: "ring_idx N 0 = 0"
  by (simp add: ring_idx_def)

lemma ring_idx_less [simp]: "0 < N \<Longrightarrow> ring_idx N j < N"
  by (simp add: ring_idx_def)

lemma ring_idx_cases:
  "0 < N \<Longrightarrow> ring_idx N j = (if j mod N = 0 then 0 else N - j mod N)"
  by (auto simp: ring_idx_def)

lemma ring_idx_Suc:
  assumes "0 < N"
  shows "ring_idx N (Suc j) = (if ring_idx N j = 0 then N - 1 else ring_idx N j - 1)"
proof -
  have "j mod N < N" using assms by simp
  then show ?thesis
    by (auto simp: ring_idx_cases [OF assms] mod_Suc)
qed

lemma ring_idx_eq_iff:
  assumes "0 < N"
  shows "ring_idx N i = ring_idx N j \<longleftrightarrow> i mod N = j mod N"
proof -
  have key: "((if a = 0 then 0 else N - a) = (if b = 0 then 0 else N - b)) = (a = b)"
    if "a < N" "b < N" for a b
    using that by auto
  show ?thesis
    by (simp only: ring_idx_cases [OF assms] key mod_less_divisor [OF assms])
qed

lemma mod_eq_near:
  fixes N :: nat
  assumes "i mod N = j mod N" "i \<le> j" "j < i + N"
  shows "i = j"
proof -
  from assms(1,2) have "N dvd j - i" by (metis mod_eq_dvd_iff_nat)
  moreover have "j - i < N" using assms by linarith
  ultimately have "j - i = 0" by (meson dvd_imp_le not_less neq0_conv)
  with assms(2) show ?thesis by simp
qed

section \<open>Nodes as machines\<close>

text \<open>
  Handlers of a node, and its periodic iteration, run one at a time on the node's state: a
  run is a sequence of events, each of which may fault.
\<close>

fun run_events :: "('e \<Rightarrow> 's \<Rightarrow> 's res) \<Rightarrow> 'e list \<Rightarrow> 's \<Rightarrow> 's res" where
  "run_events step [] s = Inr s"
| "run_events step (e # es) s = bindr (step e s) (run_events step es)"

lemma run_events_append:
  "run_events step (es @ fs) s = bindr (run_events step es s) (run_events step fs)"
proof (induction es arbitrary: s)
  case (Cons e es)
  then show ?case by (cases "step e s") auto
qed simp

locale node_machine =
  fixes step :: "'e \<Rightarrow> 's \<Rightarrow> 's res"
    and inv :: "'s \<Rightarrow> bool"
    and ok :: "'e \<Rightarrow> bool"
  assumes step_inv: "inv s \<Longrightarrow> ok e \<Longrightarrow> \<exists>s'. step e s = Inr s' \<and> inv s'"
begin

lemma run_inv:
  assumes "inv s" "list_all ok es"
  shows "\<exists>s'. run_events step es s = Inr s' \<and> inv s'"
  using assms
proof (induction es arbitrary: s)
  case (Cons e es)
  obtain s1 where "step e s = Inr s1" "inv s1"
    using step_inv [of s e] Cons.prems by auto
  with Cons show ?case by auto
qed simp

end

text \<open>
  Where the state decides whether an event is acceptable: \<open>stays\<close> says that it is at every step of a run, and a machine
  that faults in just the other case runs exactly as long.
\<close>

fun stays :: "('e \<Rightarrow> 's \<Rightarrow> 's res) \<Rightarrow> ('e \<Rightarrow> 's \<Rightarrow> bool) \<Rightarrow> 'e list \<Rightarrow> 's \<Rightarrow> bool" where
  "stays step good [] s = True"
| "stays step good (e # es) s = (good e s \<and> (case step e s of Inl f \<Rightarrow> True | Inr s' \<Rightarrow> stays step good es s'))"

locale guarded_machine =
  fixes step :: "'e \<Rightarrow> 's \<Rightarrow> 's res"
    and inv :: "'s \<Rightarrow> bool"
    and ok :: "'e \<Rightarrow> bool"
    and good :: "'e \<Rightarrow> 's \<Rightarrow> bool"
  assumes good_step: "inv s \<Longrightarrow> ok e \<Longrightarrow> good e s \<Longrightarrow> \<exists>s'. step e s = Inr s' \<and> inv s'"
begin

lemma run_good:
  assumes "inv s" "list_all ok es" "stays step good es s"
  shows "\<exists>s'. run_events step es s = Inr s' \<and> inv s'"
  using assms
proof (induction es arbitrary: s)
  case (Cons e es)
  obtain s1 where "step e s = Inr s1" "inv s1"
    using good_step [of s e] Cons.prems by auto
  with Cons show ?case by auto
qed simp

end

locale faulting_machine = guarded_machine +
  fixes f :: fault
  assumes bad_step: "inv s \<Longrightarrow> ok e \<Longrightarrow> \<not> good e s \<Longrightarrow> step e s = Inl f"
begin

lemma run_bad:
  assumes "inv s" "list_all ok es" "\<not> stays step good es s"
  shows "run_events step es s = Inl f"
  using assms
proof (induction es arbitrary: s)
  case (Cons e es)
  show ?case
  proof (cases "good e s")
    case True
    then obtain s1 where "step e s = Inr s1" "inv s1" using good_step [of s e] Cons.prems by auto
    with Cons True show ?thesis by auto
  qed (use Cons.prems bad_step [of s e] in auto)
qed simp

end

end
