(* ===== verification/Message_Queue.thy ===== *)
theory Message_Queue
  imports Boat_Prelude
begin

text \<open>
  The shared-memory message queue of \<^verbatim>\<open>ipc/message_queue.hpp\<close>, the boat's modified Boost
  queue: a ring of preallocated messages that the senders fill downwards, overwriting the
  oldest message when it is full, and from which every receiver reads at a cursor of its own
  (\<^verbatim>\<open>m_cur_msg\<close>) without removing anything.  The theory models the control block, the memory
  layout, sending, and the three blocking modes of receiving, and relates them to an abstract
  log of numbered messages.
\<close>

section \<open>The control block\<close>

text \<open>
  A preallocated message.  \<^verbatim>\<open>initialize_memory\<close> points slot \<open>i\<close> of the index at the \<open>i\<close>-th
  message and no operation permutes the index afterwards, so the index is the list of the
  messages themselves.
\<close>

record msg_hdr =
  m_len :: nat
  m_data :: bytes

record mq_hdr =
  mp_index :: "msg_hdr list"
  m_max_num_msg :: nat
  m_max_msg_size :: nat
  m_cur_num_msg :: nat
  m_cur_first_msg :: nat

text \<open>The constructor; the shared memory it is placed in is fresh, hence zero.\<close>

definition mq_hdr_new :: "nat \<Rightarrow> nat \<Rightarrow> mq_hdr" where
  "mq_hdr_new max_num_msg max_msg_size =
     \<lparr>mp_index = replicate max_num_msg \<lparr>m_len = 0, m_data = replicate max_msg_size 0\<rparr>,
      m_max_num_msg = max_num_msg, m_max_msg_size = max_msg_size,
      m_cur_num_msg = 0, m_cur_first_msg = 0\<rparr>"

definition is_full :: "mq_hdr \<Rightarrow> bool" where
  "is_full h \<longleftrightarrow> m_cur_num_msg h = m_max_num_msg h"

definition is_empty :: "mq_hdr \<Rightarrow> bool" where
  "is_empty h \<longleftrightarrow> m_cur_num_msg h = 0"

definition free_top_msg :: "mq_hdr \<Rightarrow> mq_hdr" where
  "free_top_msg h = h\<lparr>m_cur_num_msg := m_cur_num_msg h - 1\<rparr>"

definition end_pos :: "mq_hdr \<Rightarrow> nat" where
  "end_pos h =
     (let space_until_bufend = m_max_num_msg h - m_cur_first_msg h
      in if space_until_bufend > m_cur_num_msg h
         then m_cur_first_msg h + m_cur_num_msg h
         else m_cur_num_msg h - space_until_bufend)"

definition end_index :: "mq_hdr \<Rightarrow> nat" where
  "end_index h = (if end_pos h \<noteq> 0 then end_pos h - 1 else m_max_num_msg h - 1)"

definition top_msg :: "mq_hdr \<Rightarrow> msg_hdr res" where
  "top_msg h =
     (let pos = end_pos h
      in nth_checked (mp_index h) (if pos \<noteq> 0 then pos - 1 else m_max_num_msg h - 1))"

definition bottom_msg :: "mq_hdr \<Rightarrow> msg_hdr res" where
  "bottom_msg h = nth_checked (mp_index h) (m_cur_first_msg h)"

text \<open>The new control block and the slot the caller fills.\<close>

definition insert_at_begin :: "mq_hdr \<Rightarrow> mq_hdr \<times> nat" where
  "insert_at_begin h =
     (let first = (if m_cur_first_msg h \<noteq> 0 then m_cur_first_msg h else m_max_num_msg h);
          first' = first - 1
      in (h\<lparr>m_cur_first_msg := first', m_cur_num_msg := m_cur_num_msg h + 1\<rparr>, first'))"

definition queue_free_msg :: "mq_hdr \<Rightarrow> mq_hdr \<times> nat" where
  "queue_free_msg h = insert_at_begin h"

section \<open>Memory layout\<close>

text \<open>
  Sizes and alignments the compiler chooses; \<open>get_rounded_size\<close> is Boost's, a parameter of
  the definitions, of which the layout needs that it never rounds down.
\<close>

record mq_layout =
  sizeof_mq_hdr :: nat
  sizeof_msg_hdr :: nat
  sizeof_msg_hdr_ptr :: nat
  msg_hdr_align :: nat
  index_align :: nat
  user_offset :: nat

definition rounds_up :: "(nat \<Rightarrow> nat \<Rightarrow> nat) \<Rightarrow> bool" where
  "rounds_up get_rounded_size \<longleftrightarrow> (\<forall>x a. x \<le> get_rounded_size x a)"

definition get_mem_size :: "mq_layout \<Rightarrow> (nat \<Rightarrow> nat \<Rightarrow> nat) \<Rightarrow> nat \<Rightarrow> nat \<Rightarrow> nat" where
  "get_mem_size L get_rounded_size max_msg_size max_num_msg =
     (let r_hdr_size = get_rounded_size (sizeof_mq_hdr L) (index_align L);
          r_index_size = get_rounded_size (max_num_msg * sizeof_msg_hdr_ptr L) (msg_hdr_align L);
          r_max_msg_size = get_rounded_size max_msg_size (msg_hdr_align L) + sizeof_msg_hdr L
      in r_hdr_size + r_index_size + max_num_msg * r_max_msg_size + user_offset L)"

text \<open>The offsets, from the control block, that \<^verbatim>\<open>initialize_memory\<close> stores in the index.\<close>

fun init_index :: "nat \<Rightarrow> nat \<Rightarrow> nat \<Rightarrow> nat list" where
  "init_index 0 msg_hdr_off r_max_msg_size = []"
| "init_index (Suc n) msg_hdr_off r_max_msg_size =
     msg_hdr_off # init_index n (msg_hdr_off + r_max_msg_size) r_max_msg_size"

definition initialize_memory :: "mq_layout \<Rightarrow> (nat \<Rightarrow> nat \<Rightarrow> nat) \<Rightarrow> nat \<Rightarrow> nat \<Rightarrow> nat list" where
  "initialize_memory L get_rounded_size max_num_msg max_msg_size =
     (let r_hdr_size = get_rounded_size (sizeof_mq_hdr L) (index_align L);
          r_index_size = get_rounded_size (max_num_msg * sizeof_msg_hdr_ptr L) (msg_hdr_align L);
          r_max_msg_size = get_rounded_size max_msg_size (msg_hdr_align L) + sizeof_msg_hdr L
      in init_index max_num_msg (r_hdr_size + r_index_size) r_max_msg_size)"

section \<open>Sending and receiving\<close>

definition memcpy :: "bytes \<Rightarrow> bytes \<Rightarrow> bytes" where
  "memcpy dst src = src @ drop (length src) dst"

definition do_send :: "mq_hdr \<Rightarrow> bytes \<Rightarrow> mq_hdr res" where
  "do_send h buffer =
     (if length buffer > m_max_msg_size h then Inl SizeError
      else let h1 = (if is_full h then free_top_msg h else h);
               (h2, i) = queue_free_msg h1
           in bindr (nth_checked (mp_index h2) i) (\<lambda>m.
                Inr (h2\<lparr>mp_index := (mp_index h2)
                  [i := m\<lparr>m_len := length buffer, m_data := memcpy (m_data m) buffer\<rparr>]\<rparr>)))"

datatype block_t = Blocking | Timed | Non_blocking

text \<open>
  What happens to a receiver that waits on the condition: it is woken, or its timeout
  expires; either way it looks at the control block as it is at that moment.
\<close>

datatype wake = Notified mq_hdr | Timed_out

text \<open>
  How a receive ends: with false, with a message, or not yet.  Each carries the cursor.
\<close>

datatype recv = Recv_false nat | Recv_true bytes nat | Recv_waiting nat

text \<open>The cursor moves to the next newer message, or to the oldest one if it fell off the ring.\<close>

definition advance_cursor :: "mq_hdr \<Rightarrow> nat \<Rightarrow> nat" where
  "advance_cursor h m_cur_msg =
     (let c = (if m_cur_msg \<noteq> 0 then m_cur_msg - 1 else m_max_num_msg h - 1)
      in if end_index h \<ge> m_cur_first_msg h
         then (if c > end_index h \<or> c < m_cur_first_msg h then end_index h else c)
         else (if c > end_index h \<and> c < m_cur_first_msg h then end_index h else c))"

definition read_at_cursor :: "mq_hdr \<Rightarrow> nat \<Rightarrow> recv res" where
  "read_at_cursor h m_cur_msg =
     (let c = advance_cursor h m_cur_msg
      in bindr (nth_checked (mp_index h) c) (\<lambda>m. Inr (Recv_true (take (m_len m) (m_data m)) c)))"

text \<open>The two wait loops; a plain wait never times out.\<close>

fun wait_for_message :: "block_t \<Rightarrow> nat \<Rightarrow> wake list \<Rightarrow> recv res" where
  "wait_for_message block c [] = Inr (Recv_waiting c)"
| "wait_for_message block c (Timed_out # ws) =
     (if block = Timed then Inr (Recv_false c) else wait_for_message block c ws)"
| "wait_for_message block c (Notified h # ws) =
     (let c' = m_cur_first_msg h + 1
      in if is_empty h then wait_for_message block c' ws else read_at_cursor h c')"

definition do_receive :: "block_t \<Rightarrow> mq_hdr \<Rightarrow> nat \<Rightarrow> nat \<Rightarrow> wake list \<Rightarrow> recv res" where
  "do_receive block h m_cur_msg buffer_size ws =
     (if buffer_size < m_max_msg_size h then Inl SizeError
      else if is_empty h \<or> m_cur_msg = m_cur_first_msg h
           then (case block of
                   Non_blocking \<Rightarrow> Inr (Recv_false m_cur_msg)
                 | _ \<Rightarrow> wait_for_message block m_cur_msg ws)
           else read_at_cursor h m_cur_msg)"

definition try_receive :: "mq_hdr \<Rightarrow> nat \<Rightarrow> nat \<Rightarrow> recv res" where
  "try_receive h m_cur_msg buffer_size = do_receive Non_blocking h m_cur_msg buffer_size []"

text \<open>\<^verbatim>\<open>None\<close> is the time point \<^verbatim>\<open>pos_infin\<close>.\<close>

definition timed_receive :: "mq_hdr \<Rightarrow> nat \<Rightarrow> nat \<Rightarrow> nat option \<Rightarrow> wake list \<Rightarrow> recv res" where
  "timed_receive h m_cur_msg buffer_size abs_time ws =
     (case abs_time of
        None \<Rightarrow> do_receive Blocking h m_cur_msg buffer_size ws
      | Some t \<Rightarrow> do_receive Timed h m_cur_msg buffer_size ws)"

section \<open>The queue as a log of numbered messages\<close>

text \<open>
  The invariant of the control block, the message a slot holds, and the log the queue stands
  for: \<open>log_rel h sent\<close> says that \<open>sent\<close> are the messages sent since the queue was created,
  oldest first, of which the ring holds the last \<^verbatim>\<open>m_max_num_msg\<close>.
\<close>

definition wf_mq :: "mq_hdr \<Rightarrow> bool" where
  "wf_mq h \<longleftrightarrow> 0 < m_max_num_msg h \<and> length (mp_index h) = m_max_num_msg h \<and>
     m_cur_num_msg h \<le> m_max_num_msg h \<and> m_cur_first_msg h < m_max_num_msg h \<and>
     (\<forall>m\<in>set (mp_index h). m_len m \<le> m_max_msg_size h \<and> length (m_data m) = m_max_msg_size h)"

definition contents :: "mq_hdr \<Rightarrow> nat \<Rightarrow> bytes" where
  "contents h i = take (m_len (mp_index h ! i)) (m_data (mp_index h ! i))"

definition log_rel :: "mq_hdr \<Rightarrow> bytes list \<Rightarrow> bool" where
  "log_rel h sent \<longleftrightarrow> wf_mq h \<and>
     m_cur_num_msg h = min (length sent) (m_max_num_msg h) \<and>
     m_cur_first_msg h = ring_idx (m_max_num_msg h) (length sent) \<and>
     (\<forall>j<length sent. length sent \<le> j + m_max_num_msg h \<longrightarrow>
        contents h (ring_idx (m_max_num_msg h) (Suc j)) = sent ! j)"

text \<open>The message a cursor that has seen \<open>k\<close> messages is moved to, counted from 0.\<close>

definition next_msg :: "nat \<Rightarrow> nat \<Rightarrow> nat \<Rightarrow> nat" where
  "next_msg N n k = n - 1 - (n - k - 1) mod N"

definition mq_poll :: "mq_hdr \<Rightarrow> nat \<Rightarrow> recv res" where
  "mq_poll h c = try_receive h c (m_max_msg_size h)"

definition mq_log :: "nat \<Rightarrow> nat \<Rightarrow> mq_hdr \<Rightarrow> bytes list \<Rightarrow> bool" where
  "mq_log N sz h sent \<longleftrightarrow> log_rel h sent \<and> m_max_num_msg h = N \<and> m_max_msg_size h = sz"

section \<open>Opening a queue\<close>

text \<open>
  The functor that Boost runs on a segment of shared memory when it is created or opened, the size it asks for,
  and the sizes a queue reports; an object without a segment reports zero.
\<close>

definition init_func :: "nat \<Rightarrow> nat \<Rightarrow> bool \<Rightarrow> mq_hdr \<Rightarrow> mq_hdr" where
  "init_func maxmsg maxmsgsize created segment = (if created then mq_hdr_new maxmsg maxmsgsize else segment)"

definition init_min_size :: "mq_layout \<Rightarrow> (nat \<Rightarrow> nat \<Rightarrow> nat) \<Rightarrow> nat \<Rightarrow> nat \<Rightarrow> nat" where
  "init_min_size L get_rounded_size maxmsg maxmsgsize = get_mem_size L get_rounded_size maxmsgsize maxmsg - user_offset L"

definition get_max_msg :: "mq_hdr option \<Rightarrow> nat" where
  "get_max_msg p_hdr = (case p_hdr of None \<Rightarrow> 0 | Some h \<Rightarrow> m_max_num_msg h)"

definition get_max_msg_size :: "mq_hdr option \<Rightarrow> nat" where
  "get_max_msg_size p_hdr = (case p_hdr of None \<Rightarrow> 0 | Some h \<Rightarrow> m_max_msg_size h)"

definition get_num_msg :: "mq_hdr option \<Rightarrow> nat" where
  "get_num_msg p_hdr = (case p_hdr of None \<Rightarrow> 0 | Some h \<Rightarrow> m_cur_num_msg h)"

section \<open>Runs of a queue with one receiver\<close>

text \<open>
  A sequence of sends and polls of one receiver, the messages it delivers, and the condition
  that the receiver is never \<open>N\<close> messages behind.
\<close>

datatype q_op = Q_send bytes | Q_poll

fun run_queue :: "('q \<Rightarrow> bytes \<Rightarrow> 'q res) \<Rightarrow> ('q \<Rightarrow> nat \<Rightarrow> recv res) \<Rightarrow>
    'q \<Rightarrow> nat \<Rightarrow> q_op list \<Rightarrow> (bytes list \<times> 'q \<times> nat) res" where
  "run_queue send poll q c [] = Inr ([], q, c)"
| "run_queue send poll q c (Q_send b # ops) =
     bindr (send q b) (\<lambda>q'. run_queue send poll q' c ops)"
| "run_queue send poll q c (Q_poll # ops) =
     bindr (poll q c) (\<lambda>r. case r of
         Recv_true b c' \<Rightarrow> bindr (run_queue send poll q c' ops) (\<lambda>(bs, q', c''). Inr (b # bs, q', c''))
       | Recv_false c' \<Rightarrow> run_queue send poll q c' ops
       | Recv_waiting c' \<Rightarrow> run_queue send poll q c' ops)"

fun sends :: "q_op list \<Rightarrow> bytes list" where
  "sends [] = []"
| "sends (Q_send b # ops) = b # sends ops"
| "sends (Q_poll # ops) = sends ops"

fun keeps_up :: "nat \<Rightarrow> nat \<Rightarrow> q_op list \<Rightarrow> bool" where
  "keeps_up N lag [] = True"
| "keeps_up N lag (Q_send b # ops) = (Suc lag < N \<and> keeps_up N (Suc lag) ops)"
| "keeps_up N lag (Q_poll # ops) = keeps_up N (lag - 1) ops"

fun final_lag :: "nat \<Rightarrow> q_op list \<Rightarrow> nat" where
  "final_lag lag [] = lag"
| "final_lag lag (Q_send b # ops) = final_lag (Suc lag) ops"
| "final_lag lag (Q_poll # ops) = final_lag (lag - 1) ops"

text \<open>
  The same with \<^verbatim>\<open>timed_receive\<close>, which the boat's queues use.  A call that finds nothing new waits;
  \<open>T_receive bs\<close> is a call during which the messages \<open>bs\<close> are sent.  If the receiver waits, it looks at the queue again when they all have been sent, and
  times out when there are none; if it does not, they are sent after it has returned.  A wake-up without a message is left out here.
\<close>

datatype 'b t_op = T_send 'b | T_receive "'b list"

fun send_all :: "mq_hdr \<Rightarrow> bytes list \<Rightarrow> mq_hdr res" where
  "send_all h [] = Inr h"
| "send_all h (b # bs) = bindr (do_send h b) (\<lambda>h'. send_all h' bs)"

fun run_timed :: "nat \<Rightarrow> nat \<Rightarrow> mq_hdr \<Rightarrow> nat \<Rightarrow> bytes t_op list \<Rightarrow> (bytes list \<times> mq_hdr \<times> nat) res" where
  "run_timed buffer_size abs_time h c [] = Inr ([], h, c)"
| "run_timed buffer_size abs_time h c (T_send b # ops) = bindr (do_send h b) (\<lambda>h'. run_timed buffer_size abs_time h' c ops)"
| "run_timed buffer_size abs_time h c (T_receive bs # ops) =
     bindr (send_all h bs) (\<lambda>h'.
     bindr (timed_receive h c buffer_size (Some abs_time) (if bs = [] then [Timed_out] else [Notified h'])) (\<lambda>r.
       case r of
         Recv_true b c' \<Rightarrow> bindr (run_timed buffer_size abs_time h' c' ops) (\<lambda>(out, h'', c''). Inr (b # out, h'', c''))
       | Recv_false c' \<Rightarrow> run_timed buffer_size abs_time h' c' ops
       | Recv_waiting c' \<Rightarrow> run_timed buffer_size abs_time h' c' ops))"

fun t_sent :: "'b t_op list \<Rightarrow> 'b list" where
  "t_sent [] = []"
| "t_sent (T_send b # ops) = b # t_sent ops"
| "t_sent (T_receive bs # ops) = bs @ t_sent ops"

text \<open>
  The specification is a queue of the messages the receiver has not had yet: it gets the first of them, and when it had to wait the last
  of those that came meanwhile.  \<open>unread\<close> is what is left at the end.
\<close>

fun fifo :: "'b list \<Rightarrow> 'b t_op list \<Rightarrow> 'b list" where
  "fifo pend [] = []"
| "fifo pend (T_send b # ops) = fifo (pend @ [b]) ops"
| "fifo [] (T_receive bs # ops) = (if bs = [] then fifo [] ops else last bs # fifo [] ops)"
| "fifo (p # pend) (T_receive bs # ops) = p # fifo (pend @ bs) ops"

fun unread :: "'b list \<Rightarrow> 'b t_op list \<Rightarrow> 'b list" where
  "unread pend [] = pend"
| "unread pend (T_send b # ops) = unread (pend @ [b]) ops"
| "unread [] (T_receive bs # ops) = unread [] ops"
| "unread (p # pend) (T_receive bs # ops) = unread (pend @ bs) ops"

text \<open>The receiver is never \<open>N\<close> messages behind, and when it waits it looks before a second message has come.\<close>

fun in_ring :: "nat \<Rightarrow> nat \<Rightarrow> 'b t_op list \<Rightarrow> bool" where
  "in_ring N n [] = (n < N)"
| "in_ring N n (T_send b # ops) = (Suc n < N \<and> in_ring N (Suc n) ops)"
| "in_ring N 0 (T_receive bs # ops) = in_ring N 0 ops"
| "in_ring N (Suc n) (T_receive bs # ops) = (n + length bs < N \<and> in_ring N (n + length bs) ops)"

fun looks_at_once :: "nat \<Rightarrow> 'b t_op list \<Rightarrow> bool" where
  "looks_at_once n [] = True"
| "looks_at_once n (T_send b # ops) = looks_at_once (Suc n) ops"
| "looks_at_once 0 (T_receive bs # ops) = (length bs \<le> 1 \<and> looks_at_once 0 ops)"
| "looks_at_once (Suc n) (T_receive bs # ops) = looks_at_once (n + length bs) ops"

section \<open>Sending\<close>

lemma log_rel_wf: "log_rel h sent \<Longrightarrow> wf_mq h"
  by (simp add: log_rel_def)

lemma wf_mq_new: "0 < N \<Longrightarrow> wf_mq (mq_hdr_new N sz)"
  by (simp add: wf_mq_def mq_hdr_new_def)

lemma log_rel_new: "0 < N \<Longrightarrow> log_rel (mq_hdr_new N sz) []"
  using wf_mq_new [of N sz] by (simp add: log_rel_def) (simp add: mq_hdr_new_def)

text \<open>
  A segment that was just created holds an empty queue of the size asked for; opening one that exists keeps its size,
  whatever the arguments, and its messages.  The number of messages it reports is bounded by its size.
\<close>

lemma opened_queue:
  assumes "created \<Longrightarrow> sent = []" "created \<Longrightarrow> 0 < N" "\<not> created \<Longrightarrow> log_rel h sent"
  shows "log_rel (init_func N sz created h) sent"
    and "get_max_msg (Some (init_func N sz created h)) = (if created then N else get_max_msg (Some h))"
    and "get_max_msg_size (Some (init_func N sz created h)) = (if created then sz else get_max_msg_size (Some h))"
    and "get_num_msg (Some (init_func N sz created h)) = min (length sent) (get_max_msg (Some (init_func N sz created h)))"
  using assms log_rel_new [of N sz]
  by (cases created; simp add: init_func_def get_max_msg_def get_max_msg_size_def get_num_msg_def mq_hdr_new_def log_rel_def)+

lemma insert_first:
  assumes "0 < N" "first = ring_idx N n"
  shows "(if first \<noteq> 0 then first else N) - 1 = ring_idx N (Suc n)"
  using assms by (simp add: ring_idx_Suc)

text \<open>The control block after a send that is not refused.\<close>

lemma do_send_ok:
  assumes "wf_mq h" "length buf \<le> m_max_msg_size h"
  defines "i \<equiv> (if m_cur_first_msg h \<noteq> 0 then m_cur_first_msg h else m_max_num_msg h) - 1"
  shows "do_send h buf = Inr (h\<lparr>m_cur_first_msg := i,
     m_cur_num_msg := (if is_full h then m_cur_num_msg h else m_cur_num_msg h + 1),
     mp_index := (mp_index h)[i := (mp_index h ! i)\<lparr>m_len := length buf,
       m_data := memcpy (m_data (mp_index h ! i)) buf\<rparr>]\<rparr>)"
proof -
  have "i < length (mp_index h)"
    using assms(1) by (auto simp: i_def wf_mq_def)
  moreover have "is_full h \<Longrightarrow> m_cur_num_msg h - 1 + 1 = m_cur_num_msg h"
    using assms(1) by (simp add: wf_mq_def is_full_def)
  ultimately show ?thesis
    using assms(2)
    by (auto simp: i_def do_send_def free_top_msg_def queue_free_msg_def insert_at_begin_def
        Let_def)
qed

lemma contents_send:
  assumes "i < length (mp_index h)" "k < length (mp_index h)"
  shows "contents (h\<lparr>m_cur_first_msg := f, m_cur_num_msg := n,
      mp_index := (mp_index h)[i := (mp_index h ! i)\<lparr>m_len := length buf, m_data := memcpy d buf\<rparr>]\<rparr>) k
    = (if k = i then buf else contents h k)"
  using assms by (auto simp: contents_def memcpy_def nth_list_update)

lemma wf_mq_send:
  assumes "wf_mq h" "length buf \<le> m_max_msg_size h" "do_send h buf = Inr h'"
  shows "wf_mq h'"
proof -
  let ?i = "(if m_cur_first_msg h \<noteq> 0 then m_cur_first_msg h else m_max_num_msg h) - 1"
  have i: "?i < length (mp_index h)" using assms(1) by (auto simp: wf_mq_def)
  then have "mp_index h ! ?i \<in> set (mp_index h)" by simp
  with assms i show ?thesis
    by (auto simp: do_send_ok wf_mq_def is_full_def memcpy_def dest!: set_update_subset_insert [THEN subsetD])
qed

lemma ring_idx_send_neq:
  assumes "0 < N" "j < n" "Suc n \<le> j + N"
  shows "ring_idx N (Suc j) \<noteq> ring_idx N (Suc n)"
  using assms mod_eq_near [of "Suc j" N "Suc n"] by (auto simp: ring_idx_eq_iff)

lemma do_send_log:
  assumes rel: "log_rel h sent" and len: "length buf \<le> m_max_msg_size h"
  shows "\<exists>h'. do_send h buf = Inr h' \<and> log_rel h' (sent @ [buf]) \<and>
    m_max_num_msg h' = m_max_num_msg h \<and> m_max_msg_size h' = m_max_msg_size h"
proof -
  let ?N = "m_max_num_msg h" and ?n = "length sent"
  define i where "i = ring_idx ?N (Suc ?n)"
  have wf: "wf_mq h" using rel by (rule log_rel_wf)
  then have N: "0 < ?N" and L: "length (mp_index h) = ?N" by (auto simp: wf_mq_def)
  have i_eq: "(if m_cur_first_msg h \<noteq> 0 then m_cur_first_msg h else ?N) - 1 = i"
    using insert_first [OF N] rel by (simp add: i_def log_rel_def)
  define h' where "h' = h\<lparr>m_cur_first_msg := i,
     m_cur_num_msg := (if is_full h then m_cur_num_msg h else m_cur_num_msg h + 1),
     mp_index := (mp_index h)[i := (mp_index h ! i)\<lparr>m_len := length buf,
       m_data := memcpy (m_data (mp_index h ! i)) buf\<rparr>]\<rparr>"
  have send: "do_send h buf = Inr h'"
    using do_send_ok [OF wf len] by (simp only: i_eq h'_def)
  have max': "m_max_num_msg h' = ?N" "m_max_msg_size h' = m_max_msg_size h"
    by (simp_all add: h'_def)
  have idx: "contents h' k = (if k = i then buf else contents h k)" if "k < ?N" for k
    unfolding h'_def using that N L by (subst contents_send) (simp_all add: i_def)
  have "contents h' (ring_idx ?N (Suc j)) = (sent @ [buf]) ! j"
    if "j < Suc ?n" "Suc ?n \<le> j + ?N" for j
  proof (cases "j = ?n")
    case True
    then show ?thesis using N idx by (simp add: i_def)
  next
    case False
    with that have "j < ?n" by simp
    with that ring_idx_send_neq [OF N this] idx rel N show ?thesis
      by (simp add: i_def log_rel_def nth_append)
  qed
  moreover have "m_cur_num_msg h' = min (Suc ?n) ?N"
    using rel by (auto simp: h'_def log_rel_def is_full_def)
  moreover have "m_cur_first_msg h' = i" by (simp add: h'_def)
  ultimately have "log_rel h' (sent @ [buf])"
    using wf_mq_send [OF wf len send] max' by (simp add: log_rel_def i_def)
  with send max' show ?thesis by blast
qed

section \<open>Receiving\<close>

lemma end_index_log:
  assumes "log_rel h sent"
  shows "end_index h = (if m_cur_first_msg h = 0 then m_max_num_msg h - 1
     else if length sent < m_max_num_msg h then m_max_num_msg h - 1 else m_cur_first_msg h - 1)"
proof -
  let ?N = "m_max_num_msg h" and ?n = "length sent"
  have N: "0 < ?N" "m_cur_first_msg h < ?N"
    using log_rel_wf [OF assms] by (auto simp: wf_mq_def)
  consider "?n = 0" | "0 < ?n" "?n < ?N" | "?N \<le> ?n" by linarith
  then show ?thesis
  proof cases
    case 2
    then have "m_cur_first_msg h = ?N - ?n" "m_cur_num_msg h = ?n"
      using assms N by (auto simp: log_rel_def ring_idx_cases)
    with 2 show ?thesis by (simp add: end_index_def end_pos_def)
  next
    case 3
    then have "m_cur_num_msg h = ?N" using assms by (auto simp: log_rel_def)
    with 3 N show ?thesis by (auto simp: end_index_def end_pos_def Let_def)
  next
    case 1
    then have "m_cur_first_msg h = 0" "m_cur_num_msg h = 0"
      using assms by (auto simp: log_rel_def)
    with N show ?thesis by (simp add: end_index_def end_pos_def)
  qed
qed

lemma next_msg_props:
  assumes "0 < N" "k < n"
  shows "next_msg N n k < n" "n \<le> next_msg N n k + N" "k \<le> next_msg N n k"
    "ring_idx N (Suc (next_msg N n k)) = ring_idx N (Suc k)"
proof -
  define r where "r = (n - k - 1) mod N"
  have r: "r < N" "r \<le> n - k - 1" using assms by (auto simp: r_def)
  have nm: "next_msg N n k = n - 1 - r" by (simp add: next_msg_def r_def)
  show "next_msg N n k < n" "n \<le> next_msg N n k + N" "k \<le> next_msg N n k"
    using assms r unfolding nm by linarith+
  have "n - k - 1 = N * ((n - k - 1) div N) + r" by (simp add: r_def)
  then have "Suc (next_msg N n k) = Suc k + N * ((n - k - 1) div N)"
    using assms r unfolding nm by linarith
  then show "ring_idx N (Suc (next_msg N n k)) = ring_idx N (Suc k)"
    by (simp only: ring_idx_eq_iff [OF assms(1)] mod_mult_self2)
qed

lemma next_msg_in_order: "k < n \<Longrightarrow> n - k \<le> N \<Longrightarrow> next_msg N n k = k"
  by (simp add: next_msg_def)

lemma advance_cursor_log:
  assumes rel: "log_rel h sent" and k: "k < length sent"
  shows "advance_cursor h (ring_idx (m_max_num_msg h) k) = ring_idx (m_max_num_msg h) (Suc k)"
proof -
  let ?N = "m_max_num_msg h" and ?n = "length sent"
  have N: "0 < ?N" using log_rel_wf [OF rel] by (auto simp: wf_mq_def)
  let ?c = "ring_idx ?N (Suc k)"
  have c: "\<not> ?N - 1 < ?c" using ring_idx_less [OF N, of "Suc k"] by linarith
  have step: "(if ring_idx ?N k \<noteq> 0 then ring_idx ?N k - 1 else ?N - 1) = ?c"
    using ring_idx_Suc [OF N, of k] by simp
  have "m_cur_first_msg h \<le> ?c" if "?n < ?N"
    using that k rel N by (auto simp: log_rel_def ring_idx_cases)
  with c N show ?thesis
    unfolding advance_cursor_def step Let_def end_index_log [OF rel]
    by (cases "m_cur_first_msg h = 0"; cases "?n < ?N") (auto dest: Suc_lessI)
qed

lemma read_at_cursor_log:
  assumes rel: "log_rel h sent" and k: "k < length sent"
  defines "N \<equiv> m_max_num_msg h"
  defines "j \<equiv> next_msg N (length sent) k"
  shows "read_at_cursor h (ring_idx N k) = Inr (Recv_true (sent ! j) (ring_idx N (Suc j)))"
proof -
  have N: "0 < N" "length (mp_index h) = N"
    using log_rel_wf [OF rel] by (auto simp: wf_mq_def N_def)
  note p = next_msg_props [OF N(1) k, folded j_def]
  have c: "ring_idx N (Suc j) < length (mp_index h)" using N by simp
  have "contents h (ring_idx N (Suc j)) = sent ! j"
    using rel p(1,2) by (simp add: log_rel_def N_def)
  with c show ?thesis
    unfolding read_at_cursor_def N_def [symmetric] advance_cursor_log [OF rel k, folded N_def]
    by (simp add: Let_def contents_def flip: p(4))
qed

lemma wait_notified_log:
  assumes rel: "log_rel h sent" and "sent \<noteq> []"
  shows "wait_for_message block c (Notified h # ws) =
    Inr (Recv_true (last sent) (m_cur_first_msg h))"
proof -
  let ?N = "m_max_num_msg h" and ?n = "length sent"
  have wf: "0 < ?N" "length (mp_index h) = ?N" "m_cur_first_msg h < ?N"
    using log_rel_wf [OF rel] by (auto simp: wf_mq_def)
  have "\<not> is_empty h"
    using assms wf by (auto simp: log_rel_def is_empty_def)
  moreover have "advance_cursor h (m_cur_first_msg h + 1) = m_cur_first_msg h"
    using wf unfolding advance_cursor_def end_index_log [OF rel] Let_def by auto
  moreover have "contents h (m_cur_first_msg h) = last sent"
  proof -
    from \<open>sent \<noteq> []\<close> have n: "Suc (?n - 1) = ?n" "?n - 1 < ?n" by simp_all
    have "?n \<le> ?n - 1 + ?N" using wf by simp
    with n rel have "contents h (ring_idx ?N (Suc (?n - 1))) = sent ! (?n - 1)"
      unfolding log_rel_def by blast
    with n rel \<open>sent \<noteq> []\<close> show ?thesis
      by (simp add: log_rel_def last_conv_nth)
  qed
  ultimately show ?thesis
    using wf by (simp add: read_at_cursor_def Let_def contents_def)
qed

section \<open>The interface the queue's clients rely on\<close>

text \<open>
  A log with \<open>cap\<close> slots: a send that is accepted appends a message; a poll at the cursor that
  has seen \<open>k\<close> messages finds nothing when \<open>k\<close> and the number of messages agree modulo
  \<open>cap\<close>, and the next message still in the ring otherwise.
\<close>

locale bounded_log =
  fixes cap :: nat
    and accepts :: "bytes \<Rightarrow> bool"
    and send :: "'q \<Rightarrow> bytes \<Rightarrow> 'q res"
    and poll :: "'q \<Rightarrow> nat \<Rightarrow> recv res"
    and cursor :: "nat \<Rightarrow> nat"
    and rel :: "'q \<Rightarrow> bytes list \<Rightarrow> bool"
  assumes cap_pos: "0 < cap"
    and send_rel: "rel q sent \<Longrightarrow> accepts b \<Longrightarrow> \<exists>q'. send q b = Inr q' \<and> rel q' (sent @ [b])"
    and poll_none: "rel q sent \<Longrightarrow> k \<le> length sent \<Longrightarrow> length sent mod cap = k mod cap \<Longrightarrow>
      poll q (cursor k) = Inr (Recv_false (cursor k))"
    and poll_some: "rel q sent \<Longrightarrow> k \<le> length sent \<Longrightarrow> length sent mod cap \<noteq> k mod cap \<Longrightarrow>
      poll q (cursor k) = Inr (Recv_true (sent ! next_msg cap (length sent) k)
        (cursor (Suc (next_msg cap (length sent) k))))"
begin

lemma poll_in_order:
  assumes "rel q sent" "k < length sent" "length sent - k < cap"
  shows "poll q (cursor k) = Inr (Recv_true (sent ! k) (cursor (Suc k)))"
proof -
  have "length sent mod cap \<noteq> k mod cap"
  proof
    assume "length sent mod cap = k mod cap"
    then have "k = length sent" using assms by (intro mod_eq_near [of k cap]) auto
    with assms show False by simp
  qed
  with assms show ?thesis by (simp add: poll_some next_msg_in_order)
qed

lemma run_keeps_up:
  assumes "rel q sent" "k \<le> length sent" "lag = length sent - k" "lag < cap"
    and "keeps_up cap lag ops" "list_all accepts (sends ops)"
  shows "\<exists>outs rest q'. run_queue send poll q (cursor k) ops = Inr (outs, q', cursor (k + length outs)) \<and>
    rel q' (sent @ sends ops) \<and> drop k sent @ sends ops = outs @ rest \<and>
    length rest = final_lag lag ops \<and> final_lag lag ops < cap"
  using assms
proof (induction ops arbitrary: q sent k lag rule: sends.induct)
  case 1
  then show ?case by (intro exI [of _ "[]"] exI [of _ "drop k sent"] exI [of _ q]) simp
next
  case (2 b ops)
  obtain q1 where q1: "send q b = Inr q1" "rel q1 (sent @ [b])"
    using send_rel [OF "2.prems"(1), of b] "2.prems"(6) by auto
  have "\<exists>outs rest q'. run_queue send poll q1 (cursor k) ops = Inr (outs, q', cursor (k + length outs)) \<and>
      rel q' ((sent @ [b]) @ sends ops) \<and> drop k (sent @ [b]) @ sends ops = outs @ rest \<and>
      length rest = final_lag (Suc lag) ops \<and> final_lag (Suc lag) ops < cap"
    using "2.prems" by (intro "2.IH" [OF q1(2)]) (simp_all add: Suc_diff_le)
  then show ?case using "2.prems"(2) q1(1) by simp
next
  case (3 ops)
  show ?case
  proof (cases "k < length sent")
    case True
    have lag: "lag - 1 = length sent - Suc k" "lag - 1 < cap" using "3.prems" True by simp_all
    have dk: "drop k sent = sent ! k # drop (Suc k) sent"
      using True by (rule Cons_nth_drop_Suc [symmetric])
    have "\<exists>outs rest q'. run_queue send poll q (cursor (Suc k)) ops =
        Inr (outs, q', cursor (Suc k + length outs)) \<and> rel q' (sent @ sends ops) \<and>
        drop (Suc k) sent @ sends ops = outs @ rest \<and>
        length rest = final_lag (lag - 1) ops \<and> final_lag (lag - 1) ops < cap"
      using "3.prems" True by (intro "3.IH" [OF _ _ lag]) simp_all
    then obtain outs rest q' where IH: "run_queue send poll q (cursor (Suc k)) ops =
        Inr (outs, q', cursor (Suc k + length outs))" "rel q' (sent @ sends ops)"
      "drop (Suc k) sent @ sends ops = outs @ rest"
      "length rest = final_lag (lag - 1) ops" "final_lag (lag - 1) ops < cap"
      by blast
    have "poll q (cursor k) = Inr (Recv_true (sent ! k) (cursor (Suc k)))"
      using "3.prems"(1,3,4) True by (intro poll_in_order) simp_all
    with IH have "run_queue send poll q (cursor k) (Q_poll # ops) =
        Inr (sent ! k # outs, q', cursor (k + length (sent ! k # outs)))"
      "drop k sent @ sends (Q_poll # ops) = (sent ! k # outs) @ rest"
      by (simp_all add: dk)
    with IH show ?thesis
      by (intro exI [of _ "sent ! k # outs"] exI [of _ rest] exI [of _ q']) simp
  next
    case False
    with "3.prems" have "poll q (cursor k) = Inr (Recv_false (cursor k))"
      by (intro poll_none) auto
    moreover have "lag = 0" using False "3.prems" by simp
    ultimately show ?thesis using "3.IH" [OF "3.prems"(1,2), of 0] "3.prems" False by simp
  qed
qed

end

lemma keeps_up_append_polls: "keeps_up N lag ops \<Longrightarrow> keeps_up N lag (ops @ replicate m Q_poll)"
proof (induction ops arbitrary: lag rule: sends.induct)
  case 1
  show ?case by (induction m arbitrary: lag) auto
qed auto

lemma final_lag_append_polls: "final_lag lag (ops @ replicate m Q_poll) = final_lag lag ops - m"
proof (induction ops arbitrary: lag rule: sends.induct)
  case 1
  show ?case
  proof (induction m arbitrary: lag)
    case (Suc m)
    then show ?case by simp
  qed simp
qed auto

lemma sends_append_polls [simp]: "sends (ops @ replicate m Q_poll) = sends ops"
proof (induction ops rule: sends.induct)
  case 1
  show ?case by (induction m) auto
qed auto

context bounded_log
begin

text \<open>A receiver that is never \<open>cap\<close> messages behind gets every message once and in order.\<close>

lemma run_delivers_all:
  assumes "rel q []" "keeps_up cap 0 ops" "list_all accepts (sends ops)"
  shows "\<exists>q'. run_queue send poll q (cursor 0) (ops @ replicate cap Q_poll) =
    Inr (sends ops, q', cursor (length (sends ops)))"
proof -
  let ?ops = "ops @ replicate cap Q_poll"
  have "final_lag 0 ops < cap"
    using run_keeps_up [of q "[]" 0 0 ops] assms cap_pos by auto
  then have "final_lag 0 ?ops = 0" by (simp add: final_lag_append_polls)
  with run_keeps_up [of q "[]" 0 0 ?ops] assms cap_pos show ?thesis
    by (auto simp: keeps_up_append_polls)
qed

end

lemma mq_bounded_log:
  assumes "0 < N"
  shows "bounded_log N (\<lambda>b. length b \<le> sz) do_send mq_poll (ring_idx N) (mq_log N sz)"
proof
  show "0 < N" by (rule assms)
next
  fix q sent and b :: bytes
  assume "mq_log N sz q sent" "length b \<le> sz"
  then show "\<exists>q'. do_send q b = Inr q' \<and> mq_log N sz q' (sent @ [b])"
    using do_send_log [of q sent b] by (auto simp: mq_log_def)
next
  fix q sent k
  assume "mq_log N sz q sent" "k \<le> length sent" "length sent mod N = k mod N"
  then show "mq_poll q (ring_idx N k) = Inr (Recv_false (ring_idx N k))"
    using assms ring_idx_eq_iff [OF assms, of k "length sent"]
    by (auto simp: mq_poll_def try_receive_def do_receive_def mq_log_def log_rel_def)
next
  fix q sent k
  assume *: "mq_log N sz q sent" "k \<le> length sent" "length sent mod N \<noteq> k mod N"
  then have "k < length sent" using nat_less_le by auto
  moreover have "\<not> is_empty q"
    using * assms \<open>k < length sent\<close> by (auto simp: mq_log_def log_rel_def is_empty_def)
  moreover have "ring_idx N k \<noteq> m_cur_first_msg q"
    using * assms by (auto simp: mq_log_def log_rel_def ring_idx_eq_iff)
  ultimately show "mq_poll q (ring_idx N k) = Inr (Recv_true (sent ! next_msg N (length sent) k)
      (ring_idx N (Suc (next_msg N (length sent) k))))"
    using * read_at_cursor_log [of q sent k]
    by (auto simp: mq_poll_def try_receive_def do_receive_def mq_log_def)
qed

interpretation proto_mq: bounded_log 20 "\<lambda>b. length b \<le> 1024" do_send mq_poll "ring_idx 20" "mq_log 20 1024"
  by (rule mq_bounded_log) simp

section \<open>The layout of the shared memory\<close>

lemma length_init_index [simp]: "length (init_index n off r) = n"
  by (induction n arbitrary: off) auto

lemma init_index_nth: "i < n \<Longrightarrow> init_index n off r ! i = off + i * r"
proof (induction n arbitrary: off i)
  case (Suc n)
  then show ?case by (cases i) auto
qed simp

lemma slots_disjoint:
  fixes r :: nat
  assumes "i < j" "w \<le> r"
  shows "off + i * r + w \<le> off + j * r"
proof -
  have "Suc i * r \<le> j * r" using assms(1) by (intro mult_right_mono) auto
  with assms(2) show ?thesis by simp
qed

section \<open>Properties\<close>

text \<open>A receiver that polls without waiting, and is never a whole ring behind, gets every message once and in order.\<close>

lemma polling_fifo:
  assumes "0 < N" and "\<forall>b\<in>set (sends ops). length b \<le> sz" and "keeps_up N 0 ops"
  shows "\<exists>h. run_queue do_send mq_poll (mq_hdr_new N sz) 0 (ops @ replicate N Q_poll) =
    Inr (sends ops, h, ring_idx N (length (sends ops)))"
proof -
  have "mq_log N sz (mq_hdr_new N sz) []"
    using log_rel_new [OF assms(1), of sz] by (simp add: mq_log_def mq_hdr_new_def)
  with bounded_log.run_delivers_all [OF mq_bounded_log [OF assms(1)], of sz _ ops] assms
  show ?thesis by (simp add: list_all_iff)
qed

text \<open>The three outcomes of a timed call, and what a run of them delivers.\<close>

lemma timed_behind:
  assumes "0 < N" "mq_log N sz h sent" "k < length sent" "length sent - k < N" "sz \<le> buffer_size"
  shows "timed_receive h (ring_idx N k) buffer_size (Some t) ws = Inr (Recv_true (sent ! k) (ring_idx N (Suc k)))"
proof -
  have "mq_poll h (ring_idx N k) = Inr (Recv_true (sent ! k) (ring_idx N (Suc k)))"
    using bounded_log.poll_in_order [OF mq_bounded_log [OF assms(1)] assms(2-4)] .
  then show ?thesis
    using assms(2, 5) by (auto simp: mq_poll_def try_receive_def timed_receive_def do_receive_def mq_log_def split: if_splits)
qed

lemma timed_level:
  assumes "0 < N" "mq_log N sz h sent" "k = length sent" "sz \<le> buffer_size"
  shows "timed_receive h (ring_idx N k) buffer_size (Some t) [Timed_out] = Inr (Recv_false (ring_idx N k))"
    and "mq_log N sz h' (sent @ bs) \<Longrightarrow> bs \<noteq> [] \<Longrightarrow>
      timed_receive h (ring_idx N k) buffer_size (Some t) [Notified h'] = Inr (Recv_true (last bs) (ring_idx N (length (sent @ bs))))"
proof -
  have first: "ring_idx N k = m_cur_first_msg h" "m_max_msg_size h \<le> buffer_size"
    using assms by (simp_all add: mq_log_def log_rel_def)
  then show "timed_receive h (ring_idx N k) buffer_size (Some t) [Timed_out] = Inr (Recv_false (ring_idx N k))"
    by (simp add: timed_receive_def do_receive_def)
  assume h': "mq_log N sz h' (sent @ bs)" "bs \<noteq> []"
  have "log_rel h' (sent @ bs)" using h'(1) by (simp add: mq_log_def)
  moreover have "m_cur_first_msg h' = ring_idx N (length (sent @ bs))" using h'(1) by (auto simp: mq_log_def log_rel_def)
  ultimately show "timed_receive h (ring_idx N k) buffer_size (Some t) [Notified h'] = Inr (Recv_true (last bs) (ring_idx N (length (sent @ bs))))"
    using wait_notified_log [of h' "sent @ bs" Timed "ring_idx N k" "[]"] first h'(2) by (simp add: timed_receive_def do_receive_def)
qed

lemma send_all_log:
  assumes "0 < N" "mq_log N sz h sent" "\<forall>b\<in>set bs. length b \<le> sz"
  shows "\<exists>h'. send_all h bs = Inr h' \<and> mq_log N sz h' (sent @ bs)"
  using assms(2, 3)
proof (induction bs arbitrary: h sent)
  case (Cons b bs)
  then obtain h1 where "do_send h b = Inr h1" "mq_log N sz h1 (sent @ [b])"
    using bounded_log.send_rel [OF mq_bounded_log [OF assms(1)], of sz h sent b] by auto
  with Cons.IH [of h1 "sent @ [b]"] Cons.prems show ?case by auto
qed simp

lemma run_timed_fifo:
  assumes "0 < N" "sz \<le> buffer_size" "mq_log N sz h sent" "k \<le> length sent" "in_ring N (length sent - k) ops" "length sent - k < N"
    and "\<forall>b\<in>set (t_sent ops). length b \<le> sz"
  shows "\<exists>h' k'. run_timed buffer_size t h (ring_idx N k) ops = Inr (fifo (drop k sent) ops, h', ring_idx N k') \<and>
    mq_log N sz h' (sent @ t_sent ops)"
  using assms(3-)
proof (induction ops arbitrary: h sent k)
  case (Cons op ops)
  show ?case
  proof (cases op)
    case (T_send b)
    obtain h1 where h1: "do_send h b = Inr h1" "mq_log N sz h1 (sent @ [b])"
      using bounded_log.send_rel [OF mq_bounded_log [OF assms(1)], of sz h sent b] Cons.prems T_send by auto
    from Cons.IH [OF h1(2), of k] Cons.prems T_send h1(1) show ?thesis by (simp add: Suc_diff_le)
  next
    case (T_receive bs)
    obtain h1 where h1: "send_all h bs = Inr h1" "mq_log N sz h1 (sent @ bs)"
      using send_all_log [OF assms(1) Cons.prems(1), of bs] Cons.prems(5) T_receive by auto
    show ?thesis
    proof (cases "k = length sent")
      case True
      note level = timed_level [OF assms(1) Cons.prems(1) True assms(2), where t = t]
      show ?thesis
      proof (cases "bs = []")
        case False
        with level(2) [OF h1(2)] Cons.IH [OF h1(2), of "length (sent @ bs)"] Cons.prems T_receive h1(1) True assms(1) show ?thesis by auto
      qed (use level(1) Cons.IH [of h sent k] Cons.prems T_receive True in auto)
    next
      case False
      then have k: "k < length sent" using Cons.prems(2) by simp
      then obtain n where n: "length sent - k = Suc n" "length sent - Suc k = n" by (metis Suc_diff_Suc)
      have pend: "drop k sent = sent ! k # drop (Suc k) sent" using k by (simp add: Cons_nth_drop_Suc)
      have "length (sent @ bs) - Suc k = n + length bs" using n k by simp
      then obtain h' k' where "run_timed buffer_size t h1 (ring_idx N (Suc k)) ops = Inr (fifo (drop (Suc k) sent @ bs) ops, h', ring_idx N k')"
        "mq_log N sz h' ((sent @ bs) @ t_sent ops)"
        using Cons.IH [OF h1(2), of "Suc k"] Cons.prems T_receive n k by auto
      with timed_behind [OF assms(1) Cons.prems(1) k Cons.prems(4) assms(2), of t] h1(1) T_receive pend show ?thesis by auto
    qed
  qed
qed auto

lemma fifo_complete: "looks_at_once (length pend) ops \<Longrightarrow> pend @ t_sent ops = fifo pend ops @ unread pend ops"
proof (induction pend ops rule: fifo.induct)
  case (3 bs ops)
  then show ?case by (cases bs) auto
qed auto

text \<open>The specification does not look at what the messages are.\<close>

lemma fifo_map: "fifo (map f pend) (map (map_t_op f) ops) = map f (fifo pend ops)"
proof (induction pend ops rule: fifo.induct)
  case (2 pend b ops)
  then show ?case by simp
next
  case (4 q pend bs ops)
  then show ?case by simp
qed (auto simp: last_map)

lemma t_sent_map: "t_sent (map (map_t_op f) ops) = map f (t_sent ops)"
  by (induction ops rule: t_sent.induct) auto

lemma in_ring_map: "in_ring N n (map (map_t_op f) ops) = in_ring N n ops"
  by (induction N n ops rule: in_ring.induct) auto

text \<open>
  C1: A receiver with its own cursor on a freshly created queue calls \<^verbatim>\<open>timed_receive\<close>, as \<^verbatim>\<open>Queue::receive\<close> does, while others send,
  before, during and after its calls.  As long as it is never a whole ring behind, and no wake-up comes without a message, it gets its messages from the ring as from an
  unbounded queue: the oldest message it has not had, and when it had to wait the newest that has come.  If moreover
  it looks at the queue before a second message has come whenever it waits, what it got and what is left are all messages, each
  once and in the order of sending.
\<close>

theorem queue_fifo:
  assumes "0 < N" and "\<forall>b\<in>set (t_sent ops). length b \<le> sz" and "sz \<le> buffer_size" and "in_ring N 0 ops"
  shows "\<exists>h k. run_timed buffer_size t (mq_hdr_new N sz) 0 ops = Inr (fifo [] ops, h, ring_idx N k) \<and> log_rel h (t_sent ops) \<and>
    (looks_at_once 0 ops \<longrightarrow> t_sent ops = fifo [] ops @ unread [] ops)"
proof -
  have "mq_log N sz (mq_hdr_new N sz) []"
    using log_rel_new [OF assms(1), of sz] by (simp add: mq_log_def mq_hdr_new_def)
  from run_timed_fifo [OF assms(1, 3) this, of 0 ops t] assms fifo_complete [of "[]" ops] show ?thesis
    by (auto simp: mq_log_def)
qed

theorem queue_fifo_witness:
  "\<exists>h k. run_timed 2 1000 (mq_hdr_new 3 2) 0 [T_receive [[1]], T_send [2, 7], T_receive [[3]], T_receive [], T_receive []] =
   Inr ([[1], [2, 7], [3]], h, ring_idx 3 k)"
proof -
  let ?ops = "[T_receive [[1]], T_send [2, 7], T_receive [[3]], T_receive [], T_receive []]"
  have "fifo [] ?ops = [[1], [2, 7], [3]]" "in_ring 3 0 ?ops" by simp_all
  then show ?thesis using queue_fifo [of 3 ?ops 2 2 1000] by auto
qed

text \<open>
  C2: what \<^verbatim>\<open>try_receive\<close> returns to a receiver that has seen the first \<open>k\<close> of \<open>n\<close> messages:
  nothing when \<open>n\<close> and \<open>k\<close> agree modulo the ring size, and otherwise message number
  \<open>next_msg N n k\<close>, counted from 0, which is \<open>k\<close> as long as the receiver is at most a ring
  behind.
\<close>

theorem try_receive_outcome:
  assumes "log_rel h sent" and "k \<le> length sent" and "m_max_msg_size h \<le> buffer_size"
  shows "try_receive h (ring_idx (m_max_num_msg h) k) buffer_size =
    Inr (if length sent mod m_max_num_msg h = k mod m_max_num_msg h
         then Recv_false (ring_idx (m_max_num_msg h) k)
         else Recv_true (sent ! next_msg (m_max_num_msg h) (length sent) k)
                (ring_idx (m_max_num_msg h) (Suc (next_msg (m_max_num_msg h) (length sent) k))))"
proof -
  have N: "0 < m_max_num_msg h" using log_rel_wf [OF assms(1)] by (simp add: wf_mq_def)
  have buf: "try_receive h c buffer_size = mq_poll h c" for c
    using assms(3) by (simp add: mq_poll_def try_receive_def do_receive_def)
  have "mq_log (m_max_num_msg h) (m_max_msg_size h) h sent"
    using assms(1) by (simp add: mq_log_def)
  with bounded_log.poll_none [OF mq_bounded_log [OF N]] bounded_log.poll_some [OF mq_bounded_log [OF N]]
    assms(2) show ?thesis unfolding buf by auto
qed

theorem try_receive_outcome_witness:
  "try_receive (mq_hdr_new 4 8) 0 8 = Inr (Recv_false 0)"
  using try_receive_outcome [OF log_rel_new [of 4 8], of 0 8] by (simp add: mq_hdr_new_def)

text \<open>
  a receiver that is exactly one ring behind sees an empty queue: after \<open>N\<close> sends to a
  ring of \<open>N\<close> slots, no number of polls delivers any of the \<open>N\<close> messages.
\<close>

theorem full_lap_is_invisible:
  assumes "0 < N" and "length bs = N" and "\<forall>b\<in>set bs. length b \<le> sz"
  shows "\<exists>h. run_queue do_send mq_poll (mq_hdr_new N sz) 0 (map Q_send bs @ replicate m Q_poll) =
    Inr ([], h, 0) \<and> log_rel h bs"
proof -
  have sent: "\<exists>h. mq_log N sz h (sent @ bs) \<and>
      (\<forall>ops. run_queue do_send mq_poll q 0 (map Q_send bs @ ops) = run_queue do_send mq_poll h 0 ops)"
    if "mq_log N sz q sent" "\<forall>b\<in>set bs. length b \<le> sz" for q sent bs
    using that
  proof (induction bs arbitrary: q sent)
    case (Cons b bs)
    then obtain q1 where "do_send q b = Inr q1" "mq_log N sz q1 (sent @ [b])"
      using bounded_log.send_rel [OF mq_bounded_log [OF assms(1)], of sz q sent b] by auto
    with Cons.IH [of q1 "sent @ [b]"] Cons.prems show ?case by auto
  qed auto
  have "mq_log N sz (mq_hdr_new N sz) []"
    using log_rel_new [OF assms(1), of sz] by (simp add: mq_log_def mq_hdr_new_def)
  from sent [OF this assms(3)] obtain h where h: "mq_log N sz h bs"
    "\<And>ops. run_queue do_send mq_poll (mq_hdr_new N sz) 0 (map Q_send bs @ ops) =
      run_queue do_send mq_poll h 0 ops" by auto
  have "mq_poll h 0 = Inr (Recv_false 0)"
    using bounded_log.poll_none [OF mq_bounded_log [OF assms(1)] h(1), of 0] assms(2) by simp
  then have "run_queue do_send mq_poll h 0 (replicate m Q_poll) = Inr ([], h, 0)"
    by (induction m) auto
  with h show ?thesis by (auto simp: mq_log_def)
qed

theorem full_lap_is_invisible_witness:
  "\<exists>h. run_queue do_send mq_poll (mq_hdr_new 2 1) 0 (map Q_send [[5], [6]] @ replicate 9 Q_poll) =
    Inr ([], h, 0) \<and> log_rel h [[5], [6]]"
  by (rule full_lap_is_invisible) simp_all

text \<open>
  a send appends its message to the log and never fails on a message that fits; one that
  does not fit is refused with a size error and changes nothing.
\<close>

theorem do_send_refines_append:
  assumes "log_rel h sent"
  shows "(if length buf \<le> m_max_msg_size h
          then \<exists>h'. do_send h buf = Inr h' \<and> log_rel h' (sent @ [buf]) \<and>
                 m_max_num_msg h' = m_max_num_msg h \<and> m_max_msg_size h' = m_max_msg_size h
          else do_send h buf = Inl SizeError)"
  using do_send_log [OF assms, of buf] by (auto simp: do_send_def)

theorem do_send_refines_append_witness:
  "\<exists>h'. do_send (mq_hdr_new 2 4) [1, 2, 3] = Inr h' \<and> log_rel h' ([] @ [[1, 2, 3]]) \<and>
    m_max_num_msg h' = 2 \<and> m_max_msg_size h' = 4"
  using do_send_refines_append [OF log_rel_new [of 2 4], of "[1, 2, 3]"]
  by (simp add: mq_hdr_new_def)

text \<open>
  a receiver that found nothing and was woken gets the newest message, whatever it had
  seen before it waited: messages sent between two wake-ups are skipped, and a wake-up with
  no new message delivers the newest one again.
\<close>

theorem woken_receiver_gets_newest:
  assumes "log_rel h sent" and "c = m_cur_first_msg h \<or> is_empty h"
    and "log_rel h' sent'" and "sent' \<noteq> []" and "m_max_msg_size h \<le> buffer_size"
  shows "timed_receive h c buffer_size (Some t) (Notified h' # ws) =
    Inr (Recv_true (last sent') (m_cur_first_msg h'))"
  using wait_notified_log [OF assms(3,4)] assms(2,5)
  by (auto simp: timed_receive_def do_receive_def)

theorem woken_receiver_gets_newest_witness:
  "\<exists>h'. do_send (mq_hdr_new 2 4) [9] = Inr h' \<and>
     timed_receive (mq_hdr_new 2 4) 0 4 (Some 1000) [Notified h'] =
       Inr (Recv_true [9] (m_cur_first_msg h'))"
proof -
  obtain h' where h': "do_send (mq_hdr_new 2 4) [9] = Inr h'" "log_rel h' ([] @ [[9]])"
    using do_send_log [OF log_rel_new [of 2 4], of "[9]"] by (auto simp: mq_hdr_new_def)
  have "timed_receive (mq_hdr_new 2 4) 0 4 (Some 1000) [Notified h'] =
      Inr (Recv_true (last ([] @ [[9]])) (m_cur_first_msg h'))"
    by (rule woken_receiver_gets_newest [OF log_rel_new [of 2 4] _ h'(2)])
      (simp_all add: mq_hdr_new_def is_empty_def)
  with h'(1) show ?thesis by simp
qed

text \<open>
  the memory that \<^verbatim>\<open>get_mem_size\<close> asks for holds everything \<^verbatim>\<open>initialize_memory\<close> lays
  out in it: the control block, then the index, then one slot per message with room for the
  header and a message of maximal size; slots overlap neither each other nor the index, and
  the last one ends inside the segment.
\<close>

theorem memory_layout_fits:
  assumes "rounds_up rnd" and "i < j" and "j \<le> N"
  shows "let offs = initialize_memory L rnd N sz;
             seg = get_mem_size L rnd sz N - user_offset L
    in length offs = N \<and>
       sizeof_mq_hdr L + N * sizeof_msg_hdr_ptr L \<le> offs ! 0 \<and>
       offs ! i + sizeof_msg_hdr L + sz \<le> (if j < N then offs ! j else seg)"
proof -
  define offs where "offs = initialize_memory L rnd N sz"
  define seg where "seg = get_mem_size L rnd sz N - user_offset L"
  let ?r = "rnd sz (msg_hdr_align L) + sizeof_msg_hdr L"
  let ?off = "rnd (sizeof_mq_hdr L) (index_align L) + rnd (N * sizeof_msg_hdr_ptr L) (msg_hdr_align L)"
  have r: "sizeof_msg_hdr L + sz \<le> ?r"
    and off: "sizeof_mq_hdr L + N * sizeof_msg_hdr_ptr L \<le> ?off"
    using assms(1) unfolding rounds_up_def by (simp_all add: add_mono)
  have nth: "offs ! k = ?off + k * ?r" if "k < N" for k
    using that by (simp add: offs_def initialize_memory_def Let_def init_index_nth del: add_mult_distrib2)
  have seg: "seg = ?off + N * ?r"
    by (simp add: seg_def get_mem_size_def Let_def)
  have "?off + i * ?r + (sizeof_msg_hdr L + sz) \<le> ?off + j * ?r"
    using assms(2) r by (rule slots_disjoint)
  moreover have "length offs = N" by (simp add: offs_def initialize_memory_def Let_def)
  moreover have "sizeof_mq_hdr L + N * sizeof_msg_hdr_ptr L \<le> offs ! 0"
    using nth [of 0] off assms(2,3) by simp
  ultimately show ?thesis
    using assms(2,3) nth seg
    by (cases "j < N") (simp_all add: Let_def flip: offs_def seg_def add.assoc)
qed

theorem memory_layout_fits_witness:
  "let L = \<lparr>sizeof_mq_hdr = 140, sizeof_msg_hdr = 8, sizeof_msg_hdr_ptr = 8,
            msg_hdr_align = 8, index_align = 8, user_offset = 64\<rparr>;
       rnd = (\<lambda>x a. (x + a - 1) div a * a + (if a = 0 then x else 0));
       offs = initialize_memory L rnd 20 1021
   in offs ! 18 + 8 + 1021 \<le> offs ! 19 \<and> 140 + 20 * 8 \<le> offs ! 0"
proof -
  let ?L = "\<lparr>sizeof_mq_hdr = 140, sizeof_msg_hdr = 8, sizeof_msg_hdr_ptr = 8,
            msg_hdr_align = 8, index_align = 8, user_offset = 64\<rparr>"
  let ?rnd = "\<lambda>x a :: nat. (x + a - 1) div a * a + (if a = 0 then x else 0)"
  have "x \<le> ?rnd x a" for x a :: nat
  proof (cases "a = 0")
    case False
    then have "(x + a - 1) mod a < a" by simp
    moreover have "(x + a - 1) div a * a + (x + a - 1) mod a = x + a - 1" by simp
    ultimately show ?thesis using False by linarith
  qed simp
  then have "rounds_up ?rnd" by (simp add: rounds_up_def)
  from memory_layout_fits [OF this, of 18 19 20 ?L 1021] show ?thesis
    by (simp add: Let_def)
qed

end
