(* ===== verification/Ipc_Queue.thy ===== *)
theory Ipc_Queue
  imports Message_Queue
begin

text \<open>
  The three layers above the shared-memory queue: \<^verbatim>\<open>Queue\<close> (\<^verbatim>\<open>ipc/queue.cc\<close>), which finds or
  creates the queue by name and counts its writers with a named semaphore, \<^verbatim>\<open>ProtoQueue\<close>
  (\<^verbatim>\<open>ipc/queue.hpp\<close>), which sends protobuf messages with a time stamp, and \<^verbatim>\<open>TestQueue\<close>
  (\<^verbatim>\<open>ipc/test_queue.cc\<close>), the in-process replacement of the queue in tests.
\<close>

section \<open>Queue\<close>

text \<open>
  The named semaphores and shared-memory objects of the operating system, as Boost offers
  them: parameters of the model.  \<open>sem_try_wait\<close> gives nothing when the semaphore is at zero;
  \<open>shm_open_or_create\<close> runs the initialisation on a segment that did not exist.
\<close>

record 's ipc_ops =
  sem_value :: "'s \<Rightarrow> string \<Rightarrow> nat option"
  sem_open_or_create :: "string \<Rightarrow> 's \<Rightarrow> 's"
  sem_post :: "string \<Rightarrow> 's \<Rightarrow> 's"
  sem_try_wait :: "string \<Rightarrow> 's \<Rightarrow> 's option"
  sem_remove :: "string \<Rightarrow> 's \<Rightarrow> 's"
  shm_segment :: "'s \<Rightarrow> string \<Rightarrow> mq_hdr option"
  shm_open_or_create :: "string \<Rightarrow> mq_hdr \<Rightarrow> 's \<Rightarrow> 's"
  shm_store :: "string \<Rightarrow> mq_hdr \<Rightarrow> 's \<Rightarrow> 's"
  shm_remove :: "string \<Rightarrow> 's \<Rightarrow> 's"

text \<open>The documented behaviour the queue relies on.\<close>

definition sem_laws :: "'s ipc_ops \<Rightarrow> bool" where
  "sem_laws B \<longleftrightarrow>
     (\<forall>n s. sem_value B (sem_open_or_create B n s) =
        (sem_value B s)(n \<mapsto> case sem_value B s n of None \<Rightarrow> 0 | Some v \<Rightarrow> v)) \<and>
     (\<forall>n s v. sem_value B s n = Some v \<longrightarrow> sem_value B (sem_post B n s) = (sem_value B s)(n \<mapsto> Suc v)) \<and>
     (\<forall>n s. sem_value B s n = Some 0 \<longrightarrow> sem_try_wait B n s = None) \<and>
     (\<forall>n s v. sem_value B s n = Some (Suc v) \<longrightarrow>
        (\<exists>s'. sem_try_wait B n s = Some s' \<and> sem_value B s' = (sem_value B s)(n \<mapsto> v) \<and>
              shm_segment B s' = shm_segment B s)) \<and>
     (\<forall>n s. sem_value B (sem_remove B n s) = (sem_value B s)(n := None)) \<and>
     (\<forall>n s. shm_segment B (sem_open_or_create B n s) = shm_segment B s) \<and>
     (\<forall>n s. shm_segment B (sem_post B n s) = shm_segment B s) \<and>
     (\<forall>n s. shm_segment B (sem_remove B n s) = shm_segment B s)"

definition shm_laws :: "'s ipc_ops \<Rightarrow> bool" where
  "shm_laws B \<longleftrightarrow>
     (\<forall>n h s. shm_segment B (shm_open_or_create B n h s) =
        (shm_segment B s)(n \<mapsto> case shm_segment B s n of None \<Rightarrow> h | Some h' \<Rightarrow> h')) \<and>
     (\<forall>n h s. shm_segment B (shm_store B n h s) = (shm_segment B s)(n \<mapsto> h)) \<and>
     (\<forall>n s. shm_segment B (shm_remove B n s) = (shm_segment B s)(n := None)) \<and>
     (\<forall>n h s. sem_value B (shm_open_or_create B n h s) = sem_value B s) \<and>
     (\<forall>n h s. sem_value B (shm_store B n h s) = sem_value B s) \<and>
     (\<forall>n s. sem_value B (shm_remove B n s) = sem_value B s)"

text \<open>
  A \<^verbatim>\<open>Queue\<close> object that is not in testing mode.  \<open>q_queue\<close> holds the cursor of the queue object
  it points to, and is \<open>None\<close> as long as the pointer was not assigned.  A segment is found under
  its name: a process that goes on using its mapping of a segment that was removed is outside of
  the model.
\<close>

record queue_obj =
  q_name :: string
  q_writer :: bool
  q_queue :: "nat option"

text \<open>
  The name is copied into an array of 128 characters with \<^verbatim>\<open>strncpy\<close>, which leaves a longer
  name without its terminator; using such a name reads past the array.
\<close>

definition copy_name :: "string \<Rightarrow> string res" where
  "copy_name name = (if length name < 128 then Inr name else Inl OutOfBounds)"

definition Queue_new_writer ::
    "'s ipc_ops \<Rightarrow> string \<Rightarrow> nat \<Rightarrow> nat \<Rightarrow> 's \<Rightarrow> (queue_obj \<times> 's) res" where
  "Queue_new_writer B name queue_len msg_size s =
     bindr (copy_name name) (\<lambda>n.
       let s1 = sem_open_or_create B n s;
           s2 = shm_open_or_create B n (mq_hdr_new queue_len msg_size) s1;
           s3 = sem_post B n s2
       in Inr (\<lparr>q_name = n, q_writer = True, q_queue = Some 0\<rparr>, s3))"

text \<open>
  A reader creates the semaphore when there is none, and waits for a writer in turns of a second.
  Each turn sees whether the process is shutting down and what the other processes did to the
  state until the semaphore wait ended; \<open>None\<close> is a reader still waiting after the given turns.
\<close>

fun reader_wait :: "'s ipc_ops \<Rightarrow> string \<Rightarrow> (bool \<times> ('s \<Rightarrow> 's)) list \<Rightarrow> 's \<Rightarrow> (nat option \<times> 's) option res" where
  "reader_wait B n [] s = Inr None"
| "reader_wait B n ((shutdown, others) # turns) s =
     (if shutdown then Inr (Some (None, s))
      else case sem_try_wait B n (others s) of
             None \<Rightarrow> reader_wait B n turns (others s)
           | Some s1 \<Rightarrow>
               (let s2 = sem_post B n s1
                in case shm_segment B s2 n of
                     None \<Rightarrow> Inl Fatal
                   | Some h \<Rightarrow> Inr (Some (Some 0, s2))))"

definition Queue_new_reader ::
    "'s ipc_ops \<Rightarrow> string \<Rightarrow> (bool \<times> ('s \<Rightarrow> 's)) list \<Rightarrow> 's \<Rightarrow> (queue_obj \<times> 's) option res" where
  "Queue_new_reader B name turns s =
     bindr (copy_name name) (\<lambda>n. bindr (reader_wait B n turns (sem_open_or_create B n s)) (\<lambda>r. Inr (case r of
         None \<Rightarrow> None
       | Some (q, s') \<Rightarrow> Some (\<lparr>q_name = n, q_writer = False, q_queue = q\<rparr>, s'))))"

definition Queue_remove :: "'s ipc_ops \<Rightarrow> string \<Rightarrow> 's \<Rightarrow> 's" where
  "Queue_remove B n s = shm_remove B n (sem_remove B n s)"

text \<open>The destructor; \<open>Inr None\<close> is a destructor that blocks on the semaphore.\<close>

definition Queue_destroy :: "'s ipc_ops \<Rightarrow> queue_obj \<Rightarrow> 's \<Rightarrow> 's option res" where
  "Queue_destroy B q s =
     (if q_queue q = None then Inl Uninitialised
      else if q_writer q
           then (case sem_try_wait B (q_name q) s of
                   None \<Rightarrow> Inr None
                 | Some s1 \<Rightarrow> (case sem_try_wait B (q_name q) s1 of
                                 None \<Rightarrow> Inr (Some (Queue_remove B (q_name q) s1))
                               | Some s2 \<Rightarrow> Inr (Some (sem_post B (q_name q) s2))))
           else Inr (Some s))"

definition Queue_send :: "'s ipc_ops \<Rightarrow> queue_obj \<Rightarrow> bytes \<Rightarrow> 's \<Rightarrow> 's res" where
  "Queue_send B q msg s =
     (if \<not> q_writer q then Inl Fatal
      else case shm_segment B s (q_name q) of
             None \<Rightarrow> Inl NullPointer
           | Some h \<Rightarrow> bindr (do_send h msg) (\<lambda>h'. Inr (shm_store B (q_name q) h' s)))"

text \<open>Receiving waits at most a second; \<open>ws\<close> is what happens to the receiver meanwhile.\<close>

definition Queue_receive :: "'s ipc_ops \<Rightarrow> queue_obj \<Rightarrow> nat \<Rightarrow> nat \<Rightarrow> wake list \<Rightarrow> 's \<Rightarrow>
    (recv \<times> queue_obj) res" where
  "Queue_receive B q sz now ws s =
     (case (q_queue q, shm_segment B s (q_name q)) of
        (Some c, Some h) \<Rightarrow>
          bindr (timed_receive h c sz (Some (now + 1000)) ws) (\<lambda>r.
            Inr (r, q\<lparr>q_queue := Some (case r of Recv_false c' \<Rightarrow> c' | Recv_true b c' \<Rightarrow> c'
                                        | Recv_waiting c' \<Rightarrow> c')\<rparr>))
      | _ \<Rightarrow> Inl Uninitialised)"

section \<open>ProtoQueue\<close>

text \<open>
  The entry a queue sends: the time since the clock's epoch, split into seconds and
  nanoseconds, and the message in the field named like the queue.  Serialisation and parsing
  of entries are protobuf's and parameters.
\<close>

record 'm log_entry =
  seconds :: nat
  nanos :: nat
  content :: 'm

definition BUF_SIZE :: nat where
  "BUF_SIZE = 1024"

definition stamp :: "nat \<Rightarrow> 'm \<Rightarrow> 'm log_entry" where
  "stamp now_ns m = \<lparr>seconds = now_ns div 1000000000, nanos = now_ns mod 1000000000, content = m\<rparr>"

text \<open>\<open>entry_fields\<close> are the field names of the entry, generated from the schema.\<close>

definition ProtoQueue_new_writer ::
    "'s ipc_ops \<Rightarrow> string list \<Rightarrow> string \<Rightarrow> 's \<Rightarrow> (queue_obj \<times> 's) res" where
  "ProtoQueue_new_writer B entry_fields name s =
     bindr (Queue_new_writer B name 20 BUF_SIZE s) (\<lambda>r.
       if name \<in> set entry_fields then Inr r else Inl Fatal)"

definition ProtoQueue_new_reader ::
    "'s ipc_ops \<Rightarrow> string list \<Rightarrow> string \<Rightarrow> (bool \<times> ('s \<Rightarrow> 's)) list \<Rightarrow> 's \<Rightarrow> (queue_obj \<times> 's) option res" where
  "ProtoQueue_new_reader B entry_fields name turns s =
     bindr (Queue_new_reader B name turns s) (\<lambda>r.
       case r of None \<Rightarrow> Inr None | Some x \<Rightarrow> if name \<in> set entry_fields then Inr (Some x) else Inl Fatal)"

definition ProtoQueue_send ::
    "'s ipc_ops \<Rightarrow> ('m log_entry \<Rightarrow> bytes) \<Rightarrow> queue_obj \<Rightarrow> nat \<Rightarrow> 'm \<Rightarrow> 's \<Rightarrow> 's res" where
  "ProtoQueue_send B serialize q now_ns msg s =
     (let buf = serialize (stamp now_ns msg)
      in if length buf \<le> BUF_SIZE then Queue_send B q buf s else Inl Fatal)"

definition ProtoQueue_receive :: "'s ipc_ops \<Rightarrow> (bytes \<Rightarrow> 'm log_entry) \<Rightarrow> queue_obj \<Rightarrow> nat \<Rightarrow> wake list \<Rightarrow> 's \<Rightarrow>
    ('m option \<times> queue_obj) res" where
  "ProtoQueue_receive B parse q now ws s =
     bindr (Queue_receive B q BUF_SIZE now ws s) (\<lambda>(r, q').
       Inr (case r of Recv_true b c \<Rightarrow> Some (content (parse b)) | _ \<Rightarrow> None, q'))"

section \<open>TestQueue\<close>

text \<open>
  What the queues of one name share.  \<open>data\<close> is the most recent message in a buffer of
  \<^verbatim>\<open>max_size_\<close> bytes; \<open>users\<close> holds for each instance the number of the last message it has
  seen, and \<^verbatim>\<open>-1\<close> for an instance that never received.
\<close>

record QueueData =
  data :: "bytes option"
  cnt :: int
  users :: "int list"
  data_len :: nat
  inc :: int

definition QueueData_new :: QueueData where
  "QueueData_new = \<lparr>data = None, cnt = 0, users = [], data_len = 0, inc = 0\<rparr>"

type_synonym conditions = "string \<Rightarrow> QueueData option"

record TestQueue =
  tq_name :: string
  tq_max_size :: nat
  tq_last_inc :: int
  tq_idx :: nat

text \<open>\<^verbatim>\<open>std::map::operator[]\<close> creates a missing entry.\<close>

definition map_at :: "conditions \<Rightarrow> string \<Rightarrow> QueueData" where
  "map_at m n = (case m n of None \<Rightarrow> QueueData_new | Some d \<Rightarrow> d)"

definition TestQueue_new :: "string \<Rightarrow> nat \<Rightarrow> conditions \<Rightarrow> TestQueue \<times> conditions" where
  "TestQueue_new name max_size m =
     (let d = map_at m name
      in (\<lparr>tq_name = name, tq_max_size = max_size, tq_last_inc = 0, tq_idx = length (users d)\<rparr>,
          m(name \<mapsto> d\<lparr>cnt := cnt d + 1, users := users d @ [-1]\<rparr>)))"

definition TestQueue_destroy :: "TestQueue \<Rightarrow> conditions \<Rightarrow> conditions res" where
  "TestQueue_destroy q m =
     (let d = map_at m (tq_name q); d1 = d\<lparr>cnt := cnt d - 1\<rparr>
      in bindr (update_checked (users d1) (tq_idx q) (-1)) (\<lambda>us.
           Inr (if cnt d1 = 0 then m(tq_name q := None) else m(tq_name q \<mapsto> d1\<lparr>users := us\<rparr>))))"

text \<open>
  A send up to its wait, with the bytes that are copied, and the condition on which the wait
  ends before its 50 milliseconds are over.
\<close>

definition TestQueue_send :: "TestQueue \<Rightarrow> bytes \<Rightarrow> conditions \<Rightarrow> conditions res" where
  "TestQueue_send q msg m =
     (let d = map_at m (tq_name q);
          buf = (case data d of None \<Rightarrow> replicate (tq_max_size q) 0 | Some b \<Rightarrow> b);
          n = min (length msg) (tq_max_size q)
      in if n \<le> length buf
         then Inr (m(tq_name q \<mapsto> d\<lparr>inc := inc d + 1, data := Some (memcpy buf (take n msg)), data_len := n\<rparr>))
         else Inl OutOfBounds)"

definition send_may_return :: "bool \<Rightarrow> TestQueue \<Rightarrow> conditions \<Rightarrow> bool" where
  "send_may_return shutdown q m \<longleftrightarrow>
     shutdown \<or> (\<forall>n\<in>set (users (map_at m (tq_name q))). \<not> (0 \<le> n \<and> n < inc (map_at m (tq_name q))))"

text \<open>
  A receive: it registers as a receiver, waits in turns of 50 milliseconds until there is a
  message newer than the last one or the process shuts down, and takes what is there.
  The list holds the state at the end of each turn with the shutdown flag, which the code
  asks for once more at the end.
\<close>

definition TestQueue_register :: "TestQueue \<Rightarrow> conditions \<Rightarrow> conditions res" where
  "TestQueue_register q m =
     (if tq_last_inc q = 0
      then let d = map_at m (tq_name q)
           in bindr (update_checked (users d) (tq_idx q) 0) (\<lambda>us. Inr (m(tq_name q \<mapsto> d\<lparr>users := us\<rparr>)))
      else Inr m)"

fun TestQueue_wait :: "TestQueue \<Rightarrow> bool \<Rightarrow> conditions \<Rightarrow> (bool \<times> conditions) list \<Rightarrow> conditions option" where
  "TestQueue_wait q shutdown m [] =
     (if inc (map_at m (tq_name q)) = tq_last_inc q \<and> \<not> shutdown then None else Some m)"
| "TestQueue_wait q shutdown m ((shutdown', m') # turns) =
     (if inc (map_at m (tq_name q)) = tq_last_inc q \<and> \<not> shutdown
      then TestQueue_wait q shutdown' m' turns else Some m)"

definition TestQueue_take :: "TestQueue \<Rightarrow> nat \<Rightarrow> bool \<Rightarrow> conditions \<Rightarrow>
    (bool \<times> bytes \<times> TestQueue \<times> conditions) res" where
  "TestQueue_take q sz shutdown m =
     (let d = map_at m (tq_name q)
      in bindr (update_checked (users d) (tq_idx q) (inc d)) (\<lambda>us.
           let m' = m(tq_name q \<mapsto> d\<lparr>users := us\<rparr>); q' = q\<lparr>tq_last_inc := inc d\<rparr>
           in Inr (case data d of
                     Some b \<Rightarrow> (\<not> shutdown, take (min sz (data_len d)) b, q', m')
                   | None \<Rightarrow> (False, [], q', m'))))"

definition TestQueue_receive :: "TestQueue \<Rightarrow> nat \<Rightarrow> bool \<Rightarrow> conditions \<Rightarrow> (bool \<times> conditions) list \<Rightarrow> bool \<Rightarrow>
    (bool \<times> bytes \<times> TestQueue \<times> conditions) option res" where
  "TestQueue_receive q sz shutdown m turns shutdown_end =
     bindr (TestQueue_register q m) (\<lambda>m1.
       case TestQueue_wait q shutdown m1 turns of
         None \<Rightarrow> Inr None
       | Some m2 \<Rightarrow> bindr (TestQueue_take q sz shutdown_end m2) (\<lambda>r. Inr (Some r)))"

text \<open>
  A \<^verbatim>\<open>Queue\<close> in testing mode hands its calls to a \<^verbatim>\<open>TestQueue\<close> of the same name; the rule that only writers
  send holds there too.
\<close>

definition Queue_new_testing :: "string \<Rightarrow> nat \<Rightarrow> conditions \<Rightarrow> (TestQueue \<times> conditions) res" where
  "Queue_new_testing name msg_size m = bindr (copy_name name) (\<lambda>n. Inr (TestQueue_new n msg_size m))"

definition Queue_send_testing :: "bool \<Rightarrow> TestQueue \<Rightarrow> bytes \<Rightarrow> conditions \<Rightarrow> conditions res" where
  "Queue_send_testing writer q msg m = (if \<not> writer then Inl Fatal else TestQueue_send q msg m)"

lemma Queue_testing_send_fresh:
  assumes "length name < 128" "m name = None"
  shows "\<exists>q m' m''. Queue_new_testing name msg_size m = Inr (q, m') \<and> Queue_send_testing True q b m' = Inr m'' \<and>
    data_len (map_at m'' name) = min (length b) msg_size \<and> inc (map_at m'' name) = 1 \<and> cnt (map_at m'' name) = 1"
  using assms
  by (simp add: Queue_new_testing_def Queue_send_testing_def copy_name_def TestQueue_new_def TestQueue_send_def map_at_def
      QueueData_new_def Let_def)

section \<open>Runs\<close>

text \<open>
  Writers and readers of one queue that come and go, each constructor and destructor running to its end before the next one starts; the list holds the
  live writers.  A reader that finds no writer has created the semaphore and still waits when its second is over.
\<close>

datatype life = Open_writer | Close_writer | Open_reader | Close_reader

fun run_life :: "'s ipc_ops \<Rightarrow> string \<Rightarrow> nat \<Rightarrow> nat \<Rightarrow> queue_obj list \<Rightarrow> 's \<Rightarrow> life list \<Rightarrow>
    (queue_obj list \<times> 's) option res" where
  "run_life B name len sz qs s [] = Inr (Some (qs, s))"
| "run_life B name len sz qs s (Open_writer # ops) =
     bindr (Queue_new_writer B name len sz s) (\<lambda>(q, s'). run_life B name len sz (q # qs) s' ops)"
| "run_life B name len sz [] s (Close_writer # ops) = run_life B name len sz [] s ops"
| "run_life B name len sz (q # qs) s (Close_writer # ops) =
     bindr (Queue_destroy B q s) (\<lambda>r. case r of
         None \<Rightarrow> Inr None
       | Some s' \<Rightarrow> run_life B name len sz qs s' ops)"
| "run_life B name len sz qs s (Open_reader # ops) =
     bindr (Queue_new_reader B name [(False, id)] s) (\<lambda>r. case r of
         None \<Rightarrow> run_life B name len sz qs (sem_open_or_create B name s) ops
       | Some (q, s') \<Rightarrow> run_life B name len sz qs s' ops)"
| "run_life B name len sz qs s (Close_reader # ops) =
     bindr (Queue_destroy B \<lparr>q_name = name, q_writer = False, q_queue = Some 0\<rparr> s) (\<lambda>r. case r of
         None \<Rightarrow> Inr None
       | Some s' \<Rightarrow> run_life B name len sz qs s' ops)"

text \<open>
  A writer and a reader of a typed queue, with the operations of the queue below; each message comes with the time of sending.  As there, what is sent
  during a receive is seen by a reader that waits, and reaches the queue after the call otherwise.
\<close>

fun proto_send_all :: "'s ipc_ops \<Rightarrow> ('m log_entry \<Rightarrow> bytes) \<Rightarrow> queue_obj \<Rightarrow> (nat \<times> 'm) list \<Rightarrow> 's \<Rightarrow> 's res" where
  "proto_send_all B serialize w [] s = Inr s"
| "proto_send_all B serialize w ((now, m) # ms) s =
     bindr (ProtoQueue_send B serialize w now m s) (\<lambda>s'. proto_send_all B serialize w ms s')"

definition meanwhile :: "'s ipc_ops \<Rightarrow> string \<Rightarrow> bool \<Rightarrow> 's \<Rightarrow> wake list" where
  "meanwhile B name none_sent s =
     (if none_sent then [Timed_out] else case shm_segment B s name of None \<Rightarrow> [] | Some h \<Rightarrow> [Notified h])"

fun run_proto :: "'s ipc_ops \<Rightarrow> ('m log_entry \<Rightarrow> bytes) \<Rightarrow> (bytes \<Rightarrow> 'm log_entry) \<Rightarrow> nat \<Rightarrow> queue_obj \<Rightarrow> queue_obj \<Rightarrow> 's \<Rightarrow>
    (nat \<times> 'm) t_op list \<Rightarrow> ('m list \<times> 's) res" where
  "run_proto B serialize parse t w r s [] = Inr ([], s)"
| "run_proto B serialize parse t w r s (T_send (now, m) # ops) =
     bindr (ProtoQueue_send B serialize w now m s) (\<lambda>s'. run_proto B serialize parse t w r s' ops)"
| "run_proto B serialize parse t w r s (T_receive ms # ops) =
     bindr (proto_send_all B serialize w ms s) (\<lambda>s'.
     bindr (ProtoQueue_receive B parse r t (meanwhile B (q_name r) (ms = []) s') s) (\<lambda>(out, r').
       case out of
         None \<Rightarrow> run_proto B serialize parse t w r' s' ops
       | Some m \<Rightarrow> bindr (run_proto B serialize parse t w r' s' ops) (\<lambda>(outs, s''). Inr (m # outs, s''))))"

fun test_send_all :: "TestQueue \<Rightarrow> bytes list \<Rightarrow> conditions \<Rightarrow> conditions res" where
  "test_send_all q [] m = Inr m"
| "test_send_all q (b # bs) m = bindr (TestQueue_send q b m) (test_send_all q bs)"

section \<open>The writers' count\<close>

lemma sem_lawsD:
  assumes "sem_laws B"
  shows "sem_value B (sem_open_or_create B n s) =
      (sem_value B s)(n \<mapsto> case sem_value B s n of None \<Rightarrow> 0 | Some v \<Rightarrow> v)"
    and "sem_value B s n = Some v \<Longrightarrow> sem_value B (sem_post B n s) = (sem_value B s)(n \<mapsto> Suc v)"
    and "sem_value B s n = Some 0 \<Longrightarrow> sem_try_wait B n s = None"
    and "sem_value B s n = Some (Suc v) \<Longrightarrow> \<exists>s'. sem_try_wait B n s = Some s' \<and>
      sem_value B s' = (sem_value B s)(n \<mapsto> v) \<and> shm_segment B s' = shm_segment B s"
    and "sem_value B (sem_remove B n s) = (sem_value B s)(n := None)"
    and "shm_segment B (sem_open_or_create B n s) = shm_segment B s"
    and "shm_segment B (sem_post B n s) = shm_segment B s"
    and "shm_segment B (sem_remove B n s) = shm_segment B s"
  using assms unfolding sem_laws_def by blast+

lemma shm_lawsD:
  assumes "shm_laws B"
  shows "shm_segment B (shm_open_or_create B n h s) =
      (shm_segment B s)(n \<mapsto> case shm_segment B s n of None \<Rightarrow> h | Some h' \<Rightarrow> h')"
    and "shm_segment B (shm_store B n h s) = (shm_segment B s)(n \<mapsto> h)"
    and "shm_segment B (shm_remove B n s) = (shm_segment B s)(n := None)"
    and "sem_value B (shm_open_or_create B n h s) = sem_value B s"
    and "sem_value B (shm_store B n h s) = sem_value B s"
    and "sem_value B (shm_remove B n s) = sem_value B s"
  using assms unfolding shm_laws_def by blast+

text \<open>The state of the semaphore and the segment while \<open>v\<close> writers are alive.\<close>

definition writers_alive :: "'s ipc_ops \<Rightarrow> string \<Rightarrow> 's \<Rightarrow> nat \<Rightarrow> bool" where
  "writers_alive B n s v \<longleftrightarrow>
     (if v = 0 then sem_value B s n = None \<or> sem_value B s n = Some 0 else sem_value B s n = Some v) \<and>
     (shm_segment B s n = None \<longleftrightarrow> v = 0)"

lemma new_writer_alive:
  assumes "sem_laws B" "shm_laws B" "length name < 128" "writers_alive B name s v"
  shows "\<exists>s'. Queue_new_writer B name len sz s =
      Inr (\<lparr>q_name = name, q_writer = True, q_queue = Some 0\<rparr>, s') \<and> writers_alive B name s' (Suc v)"
proof -
  let ?s1 = "sem_open_or_create B name s"
  let ?s2 = "shm_open_or_create B name (mq_hdr_new len sz) ?s1"
  have "sem_value B ?s1 name = Some v"
    using assms(4) by (auto simp: sem_lawsD(1) [OF assms(1)] writers_alive_def split: if_splits)
  then have v2: "sem_value B ?s2 name = Some v"
    by (simp add: shm_lawsD(4) [OF assms(2)])
  have "writers_alive B name (sem_post B name ?s2) (Suc v)"
    using sem_lawsD(2) [OF assms(1) v2]
    by (simp add: writers_alive_def sem_lawsD(7) [OF assms(1)] shm_lawsD(1) [OF assms(2)])
  with assms(3) show ?thesis by (simp add: Queue_new_writer_def copy_name_def Let_def)
qed

lemma destroy_writer_alive:
  assumes "sem_laws B" "shm_laws B" "writers_alive B name s (Suc v)"
  shows "\<exists>s'. Queue_destroy B \<lparr>q_name = name, q_writer = True, q_queue = Some c\<rparr> s = Inr (Some s') \<and>
    writers_alive B name s' v"
proof -
  obtain s1 where s1: "sem_try_wait B name s = Some s1" "sem_value B s1 name = Some v"
    "shm_segment B s1 = shm_segment B s"
    using sem_lawsD(4) [OF assms(1), of s name v] assms(3) by (auto simp: writers_alive_def)
  show ?thesis
  proof (cases v)
    case 0
    with s1 sem_lawsD(3) [OF assms(1), of s1 name] show ?thesis
      by (auto simp: Queue_destroy_def Queue_remove_def writers_alive_def
          sem_lawsD(5) [OF assms(1)] shm_lawsD(3,6) [OF assms(2)])
  next
    case (Suc w)
    obtain s2 where s2: "sem_try_wait B name s1 = Some s2" "sem_value B s2 name = Some w"
      "shm_segment B s2 = shm_segment B s1"
      using sem_lawsD(4) [OF assms(1), of s1 name w] s1(2) Suc by auto
    with s1 Suc assms(3) sem_lawsD(2) [OF assms(1), of s2 name w] show ?thesis
      by (auto simp: Queue_destroy_def writers_alive_def sem_lawsD(7) [OF assms(1)])
  qed
qed

text \<open>
  A reader that starts while writers are there takes the semaphore, gives it back and opens the
  queue at its first position, which leaves everything as it was; one that starts before any writer leaves a
  semaphore of value zero behind and waits until the first writer has opened the queue.
\<close>

lemma reader_joins_writers:
  assumes "sem_laws B" "shm_laws B" "writers_alive B name s (Suc v)" "length name < 128"
  shows "\<exists>s'. Queue_new_reader B name [(False, id)] s = Inr (Some (\<lparr>q_name = name, q_writer = False, q_queue = Some 0\<rparr>, s')) \<and>
    sem_value B s' = sem_value B s \<and> shm_segment B s' = shm_segment B s"
proof -
  have v: "sem_value B s name = Some (Suc v)" and seg: "shm_segment B s name \<noteq> None"
    using assms(3) by (auto simp: writers_alive_def)
  define s0 where "s0 = sem_open_or_create B name s"
  have s0: "sem_value B s0 = sem_value B s" "shm_segment B s0 = shm_segment B s"
    using assms(1) v by (simp_all add: s0_def sem_laws_def fun_upd_idem)
  obtain s1 where s1: "sem_try_wait B name s0 = Some s1" "sem_value B s1 = (sem_value B s0)(name \<mapsto> v)"
      "shm_segment B s1 = shm_segment B s0"
    using assms(1) v s0 unfolding sem_laws_def by metis
  have "sem_value B s1 name = Some v" using s1 by simp
  then have s2: "sem_value B (sem_post B name s1) = sem_value B s" "shm_segment B (sem_post B name s1) = shm_segment B s"
    using assms(1) s1 s0 v by (simp_all add: sem_laws_def fun_upd_idem)
  then show ?thesis
    using assms(4) s1(1) seg by (auto simp: Queue_new_reader_def copy_name_def s0_def [symmetric])
qed

lemma reader_waits_for_writer:
  assumes "sem_laws B" "sem_value B s name = None \<or> sem_value B s name = Some 0" "length name < 128"
  shows "Queue_new_reader B name (replicate k (False, id)) s = Inr None"
    and "sem_value B (sem_open_or_create B name s) = (sem_value B s)(name \<mapsto> 0)"
proof -
  have z: "sem_value B (sem_open_or_create B name s) = (sem_value B s)(name \<mapsto> 0)"
    using assms(1, 2) by (auto simp: sem_laws_def)
  then show "sem_value B (sem_open_or_create B name s) = (sem_value B s)(name \<mapsto> 0)" .
  have "reader_wait B name (replicate k (False, id)) s' = Inr None" if "sem_value B s' name = Some 0" for s'
    using that assms(1) by (induction k) (simp_all add: sem_laws_def)
  from this [of "sem_open_or_create B name s"] show "Queue_new_reader B name (replicate k (False, id)) s = Inr None"
    using assms(3) z by (simp add: Queue_new_reader_def copy_name_def)
qed

lemma open_reader_alive:
  assumes "sem_laws B" "shm_laws B" "length name < 128" "writers_alive B name s v"
  shows "\<exists>r. Queue_new_reader B name [(False, id)] s = Inr r \<and>
    writers_alive B name (case r of None \<Rightarrow> sem_open_or_create B name s | Some (q, s') \<Rightarrow> s') v"
proof (cases v)
  case 0
  then have "sem_value B s name = None \<or> sem_value B s name = Some 0" "shm_segment B s name = None"
    using assms(4) by (simp_all add: writers_alive_def)
  with reader_waits_for_writer(1) [OF assms(1) this(1) assms(3), of 1] reader_waits_for_writer(2) [OF assms(1) this(1) assms(3)] 0
  show ?thesis
    by (simp add: writers_alive_def sem_lawsD(6) [OF assms(1)])
next
  case (Suc w)
  with reader_joins_writers [OF assms(1, 2) _ assms(3), of s w] assms(4) show ?thesis by (auto simp: writers_alive_def)
qed

lemma run_life_alive:
  assumes "sem_laws B" "shm_laws B" "length name < 128"
    and "writers_alive B name s (length qs)"
    and "\<forall>q\<in>set qs. q = \<lparr>q_name = name, q_writer = True, q_queue = Some 0\<rparr>"
  shows "\<exists>qs' s'. run_life B name len sz qs s ops = Inr (Some (qs', s')) \<and>
    writers_alive B name s' (length qs')"
  using assms(4,5)
proof (induction ops arbitrary: qs s)
  case (Cons op ops)
  show ?case
  proof (cases op)
    case Open_writer
    let ?q = "\<lparr>q_name = name, q_writer = True, q_queue = Some 0\<rparr>"
    obtain s' where s': "Queue_new_writer B name len sz s = Inr (?q, s')"
      "writers_alive B name s' (Suc (length qs))"
      using new_writer_alive [OF assms(1-3) Cons.prems(1)] by blast
    have "\<exists>qs' s''. run_life B name len sz (?q # qs) s' ops = Inr (Some (qs', s'')) \<and>
        writers_alive B name s'' (length qs')"
      using s'(2) Cons.prems(2) by (intro Cons.IH) auto
    with Open_writer s'(1) show ?thesis by simp
  next
    case Close_writer
    show ?thesis
    proof (cases qs)
      case Nil
      with Cons Close_writer show ?thesis by simp
    next
      case (Cons q qs')
      have q: "q = \<lparr>q_name = name, q_writer = True, q_queue = Some 0\<rparr>"
        using Cons.prems(2) Cons by simp
      obtain s' where s': "Queue_destroy B q s = Inr (Some s')" "writers_alive B name s' (length qs')"
        using destroy_writer_alive [OF assms(1,2), of name s "length qs'" 0] Cons.prems(1) Cons q
        by auto
      have "\<exists>qs'' s''. run_life B name len sz qs' s' ops = Inr (Some (qs'', s'')) \<and>
          writers_alive B name s'' (length qs'')"
        using s'(2) Cons.prems(2) Cons by (intro Cons.IH) auto
      with Close_writer Cons s'(1) show ?thesis by simp
    qed
  next
    case Open_reader
    obtain r where r: "Queue_new_reader B name [(False, id)] s = Inr r"
      "writers_alive B name (case r of None \<Rightarrow> sem_open_or_create B name s | Some (q, s') \<Rightarrow> s') (length qs)"
      using open_reader_alive [OF assms(1-3) Cons.prems(1)] by blast
    with Open_reader Cons.IH [OF _ Cons.prems(2)] show ?thesis by (cases r) auto
  next
    case Close_reader
    with Cons.IH [OF Cons.prems] show ?thesis by (simp add: Queue_destroy_def)
  qed
qed auto

section \<open>Messages through a ProtoQueue\<close>

text \<open>The queue of \<open>name\<close> holds the entries \<open>sent\<close>.\<close>

definition proto_log :: "'s ipc_ops \<Rightarrow> string \<Rightarrow> 's \<Rightarrow> bytes list \<Rightarrow> bool" where
  "proto_log B n s sent \<longleftrightarrow> (\<exists>h. shm_segment B s n = Some h \<and> mq_log 20 BUF_SIZE h sent)"

lemma proto_log_new:
  assumes "sem_laws B" "shm_laws B" "length name < 128" "shm_segment B s name = None"
    and "name \<in> set entry_fields" "sem_value B s name = None"
  shows "\<exists>s'. ProtoQueue_new_writer B entry_fields name s =
      Inr (\<lparr>q_name = name, q_writer = True, q_queue = Some 0\<rparr>, s') \<and> proto_log B name s' []"
  using assms log_rel_new [of 20 BUF_SIZE]
  by (simp add: ProtoQueue_new_writer_def Queue_new_writer_def copy_name_def Let_def proto_log_def
      sem_lawsD(6,7) [OF assms(1)] shm_lawsD(1) [OF assms(2)] mq_log_def mq_hdr_new_def)

lemma proto_send_all_log:
  assumes "shm_laws B" "\<forall>(now, m)\<in>set ms. length (serialize (stamp now m)) \<le> BUF_SIZE"
    and "q_name q = n" "q_writer q" "shm_segment B s n = Some h" "mq_log 20 BUF_SIZE h sent"
  shows "\<exists>s' h'. proto_send_all B serialize q ms s = Inr s' \<and> send_all h (map (\<lambda>(now, m). serialize (stamp now m)) ms) = Inr h' \<and>
    shm_segment B s' n = Some h' \<and> mq_log 20 BUF_SIZE h' (sent @ map (\<lambda>(now, m). serialize (stamp now m)) ms)"
  using assms(2,5,6)
proof (induction ms arbitrary: s h sent)
  case (Cons nm ms)
  obtain now m where nm: "nm = (now, m)" by (cases nm)
  obtain h1 where h1: "do_send h (serialize (stamp now m)) = Inr h1" "mq_log 20 BUF_SIZE h1 (sent @ [serialize (stamp now m)])"
    using proto_mq.send_rel [of h sent "serialize (stamp now m)"] Cons.prems nm by (auto simp: BUF_SIZE_def)
  have s1: "ProtoQueue_send B serialize q now m s = Inr (shm_store B n h1 s)" "shm_segment B (shm_store B n h1 s) n = Some h1"
    using Cons.prems nm assms(3,4) h1(1) by (simp_all add: ProtoQueue_send_def Queue_send_def shm_lawsD(2) [OF assms(1)])
  with Cons.IH [OF _ s1(2) h1(2)] Cons.prems(1) nm h1(1) show ?case by simp
qed simp

text \<open>A run of the typed queue is the run of the ring on the serialised messages, read back.\<close>

lemma run_proto_timed:
  assumes "shm_laws B" "q_name w = n" "q_writer w" "q_name r = n" "q_queue r = Some c"
    and "shm_segment B s n = Some h" "mq_log 20 BUF_SIZE h sent"
    and "\<forall>(now, m)\<in>set (t_sent ops). length (serialize (stamp now m)) \<le> BUF_SIZE"
    and "run_timed BUF_SIZE t' h c (map (map_t_op (\<lambda>(now, m). serialize (stamp now m))) ops) = Inr (outs, h', c')"
  shows "\<exists>s'. run_proto B serialize parse t w r s ops = Inr (map (\<lambda>b. content (parse b)) outs, s') \<and> shm_segment B s' n = Some h'"
  using assms(4-)
proof (induction ops arbitrary: r s h sent c outs)
  case (Cons op ops)
  let ?ser = "\<lambda>(now, m). serialize (stamp now m)"
  show ?case
  proof (cases op)
    case (T_send nm)
    obtain now m where nm: "nm = (now, m)" by (cases nm)
    obtain s1 h1 where s1: "ProtoQueue_send B serialize w now m s = Inr s1" "do_send h (serialize (stamp now m)) = Inr h1"
      "shm_segment B s1 n = Some h1" "mq_log 20 BUF_SIZE h1 (sent @ [serialize (stamp now m)])"
      using proto_send_all_log [OF assms(1) _ assms(2,3) Cons.prems(3,4), of "[nm]" serialize] Cons.prems(5) T_send nm
      by (auto simp: bindr_eq_Inr)
    with Cons.IH [OF Cons.prems(1,2) s1(3,4)] Cons.prems(5,6) T_send nm show ?thesis by (simp add: bindr_eq_Inr)
  next
    case (T_receive ms)
    obtain s1 h1 where s1: "proto_send_all B serialize w ms s = Inr s1" "send_all h (map ?ser ms) = Inr h1"
      "shm_segment B s1 n = Some h1" "mq_log 20 BUF_SIZE h1 (sent @ map ?ser ms)"
      using proto_send_all_log [OF assms(1) _ assms(2,3) Cons.prems(3,4), of ms serialize] Cons.prems(5) T_receive by auto
    define ws where "ws = (if ms = [] then [Timed_out] else [Notified h1])"
    have ws: "meanwhile B (q_name r) (ms = []) s1 = ws" using s1(3) Cons.prems(1) by (simp add: meanwhile_def ws_def)
    obtain rc where rc: "timed_receive h c BUF_SIZE (Some t') ws = Inr rc"
      using Cons.prems(6) T_receive s1(2) by (auto simp: bindr_eq_Inr ws_def)
    then have rec: "Queue_receive B r BUF_SIZE t ws s = Inr (rc, r\<lparr>q_queue := Some (case rc of Recv_false c' \<Rightarrow> c' | Recv_true b c' \<Rightarrow> c' | Recv_waiting c' \<Rightarrow> c')\<rparr>)"
      using Cons.prems(1-3) by (simp add: Queue_receive_def timed_receive_def)
    note IH = Cons.IH [OF _ _ s1(3,4), where r = "r\<lparr>q_queue := Some (case rc of Recv_false c' \<Rightarrow> c' | Recv_true b c' \<Rightarrow> c' | Recv_waiting c' \<Rightarrow> c')\<rparr>"]
    have ring: "bindr (timed_receive h c BUF_SIZE (Some t') ws) (\<lambda>r. case r of
        Recv_true b c' \<Rightarrow> bindr (run_timed BUF_SIZE t' h1 c' (map (map_t_op ?ser) ops)) (\<lambda>(out, h'', c''). Inr (b # out, h'', c''))
      | Recv_false c' \<Rightarrow> run_timed BUF_SIZE t' h1 c' (map (map_t_op ?ser) ops)
      | Recv_waiting c' \<Rightarrow> run_timed BUF_SIZE t' h1 c' (map (map_t_op ?ser) ops)) = Inr (outs, h', c')"
      using Cons.prems(6) T_receive s1(2) by (simp add: ws_def)
    show ?thesis
    proof (cases rc)
      case (Recv_true b c1)
      obtain out where out: "outs = b # out" "run_timed BUF_SIZE t' h1 c1 (map (map_t_op ?ser) ops) = Inr (out, h', c')"
        using ring rc Recv_true by (auto simp: bindr_eq_Inr)
      show ?thesis
        using IH [of c1 out] Cons.prems(1,5) T_receive s1(1) ws rec Recv_true out by (auto simp: ProtoQueue_receive_def)
    qed (use IH [of _ outs] Cons.prems(1,5) T_receive s1(1) ws rec ring rc in \<open>auto simp: ProtoQueue_receive_def\<close>)
  qed
qed simp

section \<open>The test queue\<close>

text \<open>The entry after the messages \<open>bs\<close> were sent through \<open>w\<close>.\<close>

definition holds_last :: "TestQueue \<Rightarrow> bytes list \<Rightarrow> QueueData \<Rightarrow> QueueData \<Rightarrow> bool" where
  "holds_last w bs d d' \<longleftrightarrow> users d' = users d \<and> inc d' = inc d + int (length bs) \<and>
     data_len d' = min (length (last bs)) (tq_max_size w) \<and>
     (\<exists>b. data d' = Some b \<and> length b = tq_max_size w \<and>
        take (data_len d') b = take (tq_max_size w) (last bs))"

definition buffer_ok :: "TestQueue \<Rightarrow> QueueData \<Rightarrow> bool" where
  "buffer_ok w d \<longleftrightarrow> (case data d of None \<Rightarrow> True | Some b \<Rightarrow> length b = tq_max_size w)"

lemma test_send_step:
  assumes "m (tq_name w) = Some d" "buffer_ok w d"
  shows "\<exists>d'. TestQueue_send w c m = Inr (m(tq_name w \<mapsto> d')) \<and> holds_last w [c] d d' \<and> buffer_ok w d'"
proof -
  let ?n = "min (length c) (tq_max_size w)"
  define buf where "buf = (case data d of None \<Rightarrow> replicate (tq_max_size w) 0 | Some b \<Rightarrow> b)"
  have buf: "length buf = tq_max_size w"
    using assms(2) by (auto simp: buf_def buffer_ok_def split: option.splits)
  define d' where "d' = d\<lparr>inc := inc d + 1, data := Some (memcpy buf (take ?n c)), data_len := ?n\<rparr>"
  have "TestQueue_send w c m = Inr (m(tq_name w \<mapsto> d'))"
    using assms(1) buf by (simp add: TestQueue_send_def map_at_def buf_def [symmetric] d'_def Let_def)
  moreover have "take ?n (memcpy buf (take ?n c)) = take (tq_max_size w) c"
    by (simp add: memcpy_def min_def)
  ultimately show ?thesis
    using buf by (intro exI [of _ d']) (simp add: holds_last_def buffer_ok_def d'_def memcpy_def)
qed

lemma test_send_all_ok:
  assumes "m (tq_name w) = Some d" "buffer_ok w d" "bs \<noteq> []"
  shows "\<exists>d'. test_send_all w bs m = Inr (m(tq_name w \<mapsto> d')) \<and> holds_last w bs d d'"
  using assms
proof (induction bs arbitrary: m d)
  case (Cons c bs)
  obtain d1 where d1: "TestQueue_send w c m = Inr (m(tq_name w \<mapsto> d1))" "holds_last w [c] d d1"
    "buffer_ok w d1"
    using test_send_step [of m w d c] Cons.prems(1,2) by blast
  show ?case
  proof (cases "bs = []")
    case False
    have "\<exists>d'. test_send_all w bs (m(tq_name w \<mapsto> d1)) = Inr ((m(tq_name w \<mapsto> d1))(tq_name w \<mapsto> d')) \<and>
        holds_last w bs d1 d'"
      using d1(3) False by (intro Cons.IH) simp_all
    then obtain d' where d': "test_send_all w bs (m(tq_name w \<mapsto> d1)) = Inr (m(tq_name w \<mapsto> d'))"
      "holds_last w bs d1 d'" by (auto simp only: fun_upd_upd)
    have "holds_last w (c # bs) d d'"
      using d'(2) d1(2) False by (auto simp: holds_last_def)
    with d1(1) d'(1) show ?thesis by (intro exI [of _ d']) (simp add: fun_eq_iff)
  qed (use d1 in \<open>auto simp: fun_eq_iff intro!: exI [of _ d1]\<close>)
qed simp

lemma test_receive_last:
  assumes d': "m (tq_name r) = Some d'" "holds_last w bs d d'" and r: "tq_idx r < length (users d)"
    and fresh: "tq_last_inc r < inc d'" "0 \<le> tq_last_inc r"
  defines "r' \<equiv> r\<lparr>tq_last_inc := inc d'\<rparr>"
  shows "\<exists>m'. TestQueue_receive r sz False m [] False =
      Inr (Some (True, take (min sz (tq_max_size w)) (last bs), r', m')) \<and>
      TestQueue_receive r' sz False m' [] False = Inr None \<and>
      users (map_at m' (tq_name r)) = (users d)[tq_idx r := inc d'] \<and> inc (map_at m' (tq_name r)) = inc d'"
proof -
  obtain b where b: "data d' = Some b" "take (data_len d') b = take (tq_max_size w) (last bs)"
    "data_len d' = min (length (last bs)) (tq_max_size w)" "users d' = users d"
    using d'(2) by (auto simp: holds_last_def)
  have cut: "take (min sz (data_len d')) b = take (min sz (tq_max_size w)) (last bs)"
    using b(2) by (metis min.commute take_take)
  define us where "us = (users d)[tq_idx r := inc d']"
  have same: "m = m(tq_name r \<mapsto> d'\<lparr>users := users d\<rparr>)"
    using d'(1) b(4) by (metis QueueData.surjective QueueData.update_convs(3) fun_upd_triv)
  have "\<exists>us0. TestQueue_register r m = Inr (m(tq_name r \<mapsto> d'\<lparr>users := us0\<rparr>)) \<and>
      us0[tq_idx r := inc d'] = us \<and> length us0 = length us"
  proof (cases "tq_last_inc r = 0")
    case True
    with d'(1) r b(4) show ?thesis
      by (intro exI [of _ "(users d)[tq_idx r := 0]"])
        (simp add: TestQueue_register_def us_def map_at_def Let_def)
  next
    case False
    with same show ?thesis
      by (intro exI [of _ "users d"]) (simp add: TestQueue_register_def us_def)
  qed
  then obtain us0 where us0: "TestQueue_register r m = Inr (m(tq_name r \<mapsto> d'\<lparr>users := us0\<rparr>))"
    "us0[tq_idx r := inc d'] = us" "length us0 = length us" by blast
  have "TestQueue_receive r sz False m [] False =
      Inr (Some (True, take (min sz (data_len d')) b, r', m(tq_name r \<mapsto> d'\<lparr>users := us\<rparr>)))"
    using us0 fresh r b(1)
    by (simp add: TestQueue_receive_def map_at_def TestQueue_take_def Let_def r'_def us_def)
  moreover have "TestQueue_receive r' sz False (m(tq_name r \<mapsto> d'\<lparr>users := us\<rparr>)) [] False = Inr None"
    using fresh by (simp add: TestQueue_receive_def TestQueue_register_def map_at_def r'_def)
  ultimately show ?thesis
    unfolding cut by (intro exI [of _ "m(tq_name r \<mapsto> d'\<lparr>users := us\<rparr>)"]) (simp add: map_at_def us_def)
qed

section \<open>Properties\<close>

text \<open>
  C31: Writers and readers of a queue come and go in any order, each constructor and destructor running to its end before the next one starts.  Then no
  destructor blocks, the semaphore counts the live writers, and the shared memory exists exactly while there is one; without a
  writer the semaphore is gone, or zero when a reader has started to wait.
\<close>

theorem last_writer_removes_queue:
  assumes "sem_laws B" and "shm_laws B" and "length name < 128"
    and "sem_value B s name = None" and "shm_segment B s name = None"
  shows "\<exists>qs s'. run_life B name len sz [] s ops = Inr (Some (qs, s')) \<and>
    (if qs = [] then sem_value B s' name \<in> {None, Some 0} else sem_value B s' name = Some (length qs)) \<and>
    (shm_segment B s' name = None \<longleftrightarrow> qs = [])"
proof -
  have "writers_alive B name s (length [])" using assms(4,5) by (simp add: writers_alive_def)
  from run_life_alive [OF assms(1-3) this, of len sz ops] obtain qs s' where
    "run_life B name len sz [] s ops = Inr (Some (qs, s'))" "writers_alive B name s' (length qs)" by auto
  then show ?thesis by (intro exI [of _ qs] exI [of _ s']) (simp add: writers_alive_def split: if_splits)
qed

text \<open>A memory with two maps, on which the laws hold.\<close>

definition two_maps :: "((string \<Rightarrow> nat option) \<times> (string \<Rightarrow> mq_hdr option)) ipc_ops" where
  "two_maps = \<lparr>sem_value = fst,
     sem_open_or_create = (\<lambda>n (v, g). (v(n \<mapsto> case v n of None \<Rightarrow> 0 | Some k \<Rightarrow> k), g)),
     sem_post = (\<lambda>n (v, g). (v(n \<mapsto> case v n of None \<Rightarrow> 1 | Some k \<Rightarrow> Suc k), g)),
     sem_try_wait = (\<lambda>n (v, g). case v n of Some (Suc k) \<Rightarrow> Some (v(n \<mapsto> k), g) | _ \<Rightarrow> None),
     sem_remove = (\<lambda>n (v, g). (v(n := None), g)),
     shm_segment = snd,
     shm_open_or_create = (\<lambda>n h (v, g). (v, g(n \<mapsto> case g n of None \<Rightarrow> h | Some h' \<Rightarrow> h'))),
     shm_store = (\<lambda>n h (v, g). (v, g(n \<mapsto> h))),
     shm_remove = (\<lambda>n (v, g). (v, g(n := None)))\<rparr>"

lemma two_maps_laws: "sem_laws two_maps" "shm_laws two_maps"
  by (auto simp: two_maps_def sem_laws_def shm_laws_def split_beta fun_eq_iff)

theorem last_writer_removes_queue_witness:
  "\<exists>qs s'. run_life two_maps ''imu'' 20 1024 [] (Map.empty, Map.empty)
       [Open_reader, Open_writer, Open_reader, Open_writer, Close_writer, Close_reader] = Inr (Some (qs, s')) \<and>
     (if qs = [] then sem_value two_maps s' ''imu'' \<in> {None, Some 0} else sem_value two_maps s' ''imu'' = Some (length qs)) \<and>
     (shm_segment two_maps s' ''imu'' = None \<longleftrightarrow> qs = [])"
  by (rule last_writer_removes_queue [OF two_maps_laws]) (simp_all add: two_maps_def)

text \<open>
  interleaved with a reader that is starting up, the count is not safe: between the
  reader's wait and its post, the destructor of one of two writers takes itself for the last
  one and removes the queue that the other writer still uses.
\<close>

theorem starting_reader_hides_a_writer:
  assumes "sem_laws B" and "shm_laws B" and "sem_value B s n = Some 2"
  shows "\<exists>s1 s2. sem_try_wait B n s = Some s1 \<and>
    Queue_destroy B \<lparr>q_name = n, q_writer = True, q_queue = Some c\<rparr> s1 = Inr (Some s2) \<and>
    shm_segment B s2 n = None"
proof -
  obtain s1 where s1: "sem_try_wait B n s = Some s1" "sem_value B s1 n = Some 1"
    using sem_lawsD(4) [OF assms(1), of s n 1] assms(3) by (auto simp: numeral_2_eq_2)
  moreover obtain s2 where "sem_try_wait B n s1 = Some s2" "sem_value B s2 n = Some 0"
    using sem_lawsD(4) [OF assms(1), of s1 n 0] s1(2) by auto
  ultimately show ?thesis
    using sem_lawsD(3) [OF assms(1), of s2 n]
    by (simp add: Queue_destroy_def Queue_remove_def shm_lawsD(3) [OF assms(2)])
qed

theorem starting_reader_hides_a_writer_witness:
  "\<exists>s1 s2. sem_try_wait two_maps ''gps'' ([''gps'' \<mapsto> 2], Map.empty) = Some s1 \<and>
    Queue_destroy two_maps \<lparr>q_name = ''gps'', q_writer = True, q_queue = Some 0\<rparr> s1 = Inr (Some s2) \<and>
    shm_segment two_maps s2 ''gps'' = None"
  by (rule starting_reader_hides_a_writer [OF two_maps_laws]) (simp add: two_maps_def)

text \<open>
  C30: A writer opens a typed queue that does not exist yet, and then a reader joins.  Messages are sent before, during and after the calls of the reader, each of
  at most 1024 bytes when serialised, and the reader is never the 20 messages of the ring behind; no wake-up comes without a message.  Then the reader gets the messages as from an unbounded
  queue, unchanged: the oldest it has not had, and when it had to wait the newest that has come, so that all messages arrive, each
  once and in order, if it looks before a second one has come whenever it waits.  Protobuf parses what it has serialised.
\<close>

theorem proto_queue_roundtrip:
  assumes "sem_laws B" and "shm_laws B" and "length name < 128" and "name \<in> set entry_fields"
    and "shm_segment B s name = None" and "sem_value B s name = None"
    and "\<forall>e. parse (serialize e) = e"
    and "\<forall>(now, m)\<in>set (t_sent ops). length (serialize (stamp now m)) \<le> 1024" and "in_ring 20 0 ops"
  shows "\<exists>w s1 r s2 s3. ProtoQueue_new_writer B entry_fields name s = Inr (w, s1) \<and>
    ProtoQueue_new_reader B entry_fields name [(False, id)] s1 = Inr (Some (r, s2)) \<and>
    run_proto B serialize parse t w r s2 ops = Inr (map snd (fifo [] ops), s3) \<and>
    (looks_at_once 0 ops \<longrightarrow> t_sent ops = fifo [] ops @ unread [] ops)"
proof -
  let ?w = "\<lparr>q_name = name, q_writer = True, q_queue = Some 0\<rparr>"
  let ?r = "\<lparr>q_name = name, q_writer = False, q_queue = Some 0\<rparr>"
  let ?ser = "\<lambda>(now, m). serialize (stamp now m)"
  have "writers_alive B name s 0" using assms(5,6) by (simp add: writers_alive_def)
  from new_writer_alive [OF assms(1-3) this, of 20 BUF_SIZE]
  obtain s1 where s1: "ProtoQueue_new_writer B entry_fields name s = Inr (?w, s1)" "writers_alive B name s1 (Suc 0)"
    using assms(4) by (auto simp: ProtoQueue_new_writer_def)
  have log: "proto_log B name s1 []"
    using proto_log_new [OF assms(1-3,5,4,6)] s1(1) by auto
  obtain s2 where s2: "ProtoQueue_new_reader B entry_fields name [(False, id)] s1 = Inr (Some (?r, s2))" "shm_segment B s2 = shm_segment B s1"
    using reader_joins_writers [OF assms(1,2) s1(2) assms(3)] assms(4) by (auto simp: ProtoQueue_new_reader_def)
  obtain h where h: "shm_segment B s2 name = Some h" "mq_log 20 BUF_SIZE h []" using log s2(2) by (auto simp: proto_log_def)
  obtain h' k where run: "run_timed BUF_SIZE t h 0 (map (map_t_op ?ser) ops) = Inr (fifo [] (map (map_t_op ?ser) ops), h', ring_idx 20 k)"
    using run_timed_fifo [OF _ order_refl h(2), of 0 "map (map_t_op ?ser) ops" t] assms(8,9)
    by (auto simp: in_ring_map t_sent_map BUF_SIZE_def split_beta)
  obtain s3 where s3: "run_proto B serialize parse t ?w ?r s2 ops = Inr (map (\<lambda>b. content (parse b)) (fifo [] (map (map_t_op ?ser) ops)), s3)"
    using run_proto_timed [OF assms(2) _ _ _ _ h _ run, of ?w ?r parse t] assms(8) by (auto simp: BUF_SIZE_def)
  have "map (\<lambda>b. content (parse b)) (fifo [] (map (map_t_op ?ser) ops)) = map snd (fifo [] ops)"
    using fifo_map [of ?ser "[]" ops] assms(7) by (auto simp: stamp_def split_beta)
  with s1(1) s2(1) s3 fifo_complete [of "[]" ops] show ?thesis by auto
qed

text \<open>A serialisation of entries that hold one byte, with a parser for it.\<close>

definition ser_byte :: "byte log_entry \<Rightarrow> bytes" where
  "ser_byte e = content e # replicate (seconds e) 1 @ 0 # replicate (nanos e) 1"

definition parse_byte :: "bytes \<Rightarrow> byte log_entry" where
  "parse_byte b = \<lparr>seconds = length (takeWhile (\<lambda>x. x = 1) (tl b)),
     nanos = length (tl (dropWhile (\<lambda>x. x = 1) (tl b))), content = hd b\<rparr>"

lemma ones_then_zero:
  "takeWhile (\<lambda>x. x = (1 :: byte)) (replicate n 1 @ 0 # bs) = replicate n 1"
  "dropWhile (\<lambda>x. x = (1 :: byte)) (replicate n 1 @ 0 # bs) = 0 # bs"
  by (induction n) auto

lemma parse_ser_byte: "parse_byte (ser_byte e) = e"
  by (cases e) (simp add: parse_byte_def ser_byte_def ones_then_zero)

theorem proto_queue_roundtrip_witness:
  "\<exists>w s1 r s2 s3. ProtoQueue_new_writer two_maps [''time'', ''gps''] ''gps'' (Map.empty, Map.empty) = Inr (w, s1) \<and>
    ProtoQueue_new_reader two_maps [''time'', ''gps''] ''gps'' [(False, id)] s1 = Inr (Some (r, s2)) \<and>
    run_proto two_maps ser_byte parse_byte 0 w r s2 [T_receive [(1, 7)], T_send (1000000005, 8), T_receive [(3, 9)]] = Inr ([7, 8], s3)"
proof -
  let ?ops = "[T_receive [(1, 7)], T_send (1000000005, 8), T_receive [(3, 9 :: byte)]]"
  have "\<forall>(now, m)\<in>set (t_sent ?ops). length (ser_byte (stamp now m)) \<le> 1024" "in_ring 20 0 ?ops"
    by (simp_all add: ser_byte_def stamp_def)
  moreover have "\<forall>e. parse_byte (ser_byte e) = e" by (simp add: parse_ser_byte)
  ultimately show ?thesis
    using proto_queue_roundtrip [OF two_maps_laws, of "''gps''" "[''time'', ''gps'']" "(Map.empty, Map.empty)" parse_byte ser_byte ?ops 0]
    by (auto simp: two_maps_def)
qed

text \<open>
  in testing mode a receiver gets the most recent message, cut to the size of the queue
  and of its buffer, however many were sent since it last looked; afterwards it waits for a
  newer one, and it counts as having seen everything, so that it no longer holds up the
  sender.
\<close>

theorem test_queue_delivers_newest:
  assumes "m (tq_name r) = Some d" and "tq_idx r < length (users d)" and "tq_name w = tq_name r"
    and "buffer_ok w d" and "0 \<le> tq_last_inc r" and "tq_last_inc r \<le> inc d" and "bs \<noteq> []"
  shows "\<exists>m1 r' m2. test_send_all w bs m = Inr m1 \<and>
    TestQueue_receive r sz False m1 [] False =
      Inr (Some (True, take (min sz (tq_max_size w)) (last bs), r', m2)) \<and>
    TestQueue_receive r' sz False m2 [] False = Inr None \<and>
    ((\<forall>n\<in>set (users d). n < 0) \<longrightarrow> send_may_return False w m2)"
proof -
  obtain d' where d': "test_send_all w bs m = Inr (m(tq_name r \<mapsto> d'))" "holds_last w bs d d'"
    using test_send_all_ok [of m w d bs] assms by auto
  have inc: "tq_last_inc r < inc d'"
    using d'(2) assms(6,7) by (cases bs) (auto simp: holds_last_def)
  obtain m2 where m2: "TestQueue_receive r sz False (m(tq_name r \<mapsto> d')) [] False =
      Inr (Some (True, take (min sz (tq_max_size w)) (last bs), r\<lparr>tq_last_inc := inc d'\<rparr>, m2))"
    "TestQueue_receive (r\<lparr>tq_last_inc := inc d'\<rparr>) sz False m2 [] False = Inr None"
    "users (map_at m2 (tq_name r)) = (users d)[tq_idx r := inc d']" "inc (map_at m2 (tq_name r)) = inc d'"
    using test_receive_last [of "m(tq_name r \<mapsto> d')" r d' w bs d sz] d'(2) assms(2,5) inc by auto
  have "send_may_return False w m2" if "\<forall>n\<in>set (users d). n < 0"
  proof -
    have "n = inc d' \<or> n \<in> set (users d)" if "n \<in> set ((users d)[tq_idx r := inc d'])" for n
      using that set_update_subset_insert [of "users d" "tq_idx r" "inc d'"] by auto
    with that show ?thesis
      unfolding send_may_return_def assms(3) m2(3,4) by fastforce
  qed
  with d'(1) m2(1,2) show ?thesis by blast
qed

theorem test_queue_delivers_newest_witness:
  "\<exists>m1 r' m2. test_send_all \<lparr>tq_name = ''wind'', tq_max_size = 2, tq_last_inc = 0, tq_idx = 0\<rparr>
      [[1], [2, 3, 4]] [''wind'' \<mapsto> \<lparr>data = None, cnt = 2, users = [-1, -1], data_len = 0, inc = 0\<rparr>] = Inr m1 \<and>
    TestQueue_receive \<lparr>tq_name = ''wind'', tq_max_size = 2, tq_last_inc = 0, tq_idx = 1\<rparr> 5 False m1 [] False =
      Inr (Some (True, [2, 3], r', m2)) \<and>
    TestQueue_receive r' 5 False m2 [] False = Inr None"
  using test_queue_delivers_newest
    [of "[''wind'' \<mapsto> \<lparr>data = None, cnt = 2, users = [-1, -1], data_len = 0, inc = 0\<rparr>]"
      "\<lparr>tq_name = ''wind'', tq_max_size = 2, tq_last_inc = 0, tq_idx = 1\<rparr>"
      "\<lparr>data = None, cnt = 2, users = [-1, -1], data_len = 0, inc = 0\<rparr>"
      "\<lparr>tq_name = ''wind'', tq_max_size = 2, tq_last_inc = 0, tq_idx = 0\<rparr>" "[[1], [2, 3, 4]]" 5]
  by (simp add: buffer_ok_def) blast

end
