(* ===== verification/Clock.thy ===== *)
theory Clock
  imports Boat_Prelude "HOL-Library.Multiset"
begin

text \<open>
  Time, sleeping and the periodic loop of a node: \<^verbatim>\<open>util/clock.h\<close>, \<^verbatim>\<open>util/clock.cc\<close> and
  \<^verbatim>\<open>util/node.cc\<close>.  In simulation the clock is a fake one that only moves when every thread
  sleeps, to the earliest time anybody asked to be woken at.  Times are nanoseconds; their
  64-bit representation does not overflow within 292 years and is modelled by integers.
\<close>

section \<open>The wakeup times\<close>

text \<open>
  The interface of \<^verbatim>\<open>std::priority_queue\<close> with \<^verbatim>\<open>std::greater\<close>, and what the clock needs of it:
  the entries that are earlier than the current time are dropped from the top, and no other.
\<close>

locale min_queue =
  fixes empty :: "'h \<Rightarrow> bool"
    and top :: "'h \<Rightarrow> int"
    and push :: "int \<Rightarrow> 'h \<Rightarrow> 'h"
    and pop :: "'h \<Rightarrow> 'h"
    and entries :: "'h \<Rightarrow> int multiset"
    and ok :: "'h \<Rightarrow> bool"
  assumes empty_iff: "ok h \<Longrightarrow> empty h \<longleftrightarrow> entries h = {#}"
    and top_in: "ok h \<Longrightarrow> \<not> empty h \<Longrightarrow> top h \<in># entries h"
    and top_least: "ok h \<Longrightarrow> x \<in># entries h \<Longrightarrow> top h \<le> x"
    and push_ok: "ok h \<Longrightarrow> ok (push x h)"
    and push_entries: "ok h \<Longrightarrow> entries (push x h) = add_mset x (entries h)"
    and pop_ok: "ok h \<Longrightarrow> \<not> empty h \<Longrightarrow> ok (pop h)"
    and pop_entries: "ok h \<Longrightarrow> \<not> empty h \<Longrightarrow> entries (pop h) = entries h - {# top h #}"
begin

lemma top_not_before:
  assumes "ok h" "\<forall>x\<in>#entries h. t \<le> x" "\<not> empty h"
  shows "t \<le> top h"
  using assms top_in by blast

lemma pop_subset:
  assumes "ok h" "\<not> empty h" "add_mset x M \<subseteq># entries h" "top h = x"
  shows "M \<subseteq># entries (pop h)"
  using assms pop_entries by (simp add: insert_subset_eq_iff)

end

text \<open>The heap of the library, as the sorted list of its entries.\<close>

definition heap_empty :: "int list \<Rightarrow> bool" where
  "heap_empty h \<longleftrightarrow> h = []"

definition heap_top :: "int list \<Rightarrow> int" where
  "heap_top h = hd h"

definition heap_push :: "int \<Rightarrow> int list \<Rightarrow> int list" where
  "heap_push x h = insort x h"

definition heap_pop :: "int list \<Rightarrow> int list" where
  "heap_pop h = tl h"

interpretation heap: min_queue heap_empty heap_top heap_push heap_pop mset sorted
proof
  fix h :: "int list" and x
  show "sorted h \<Longrightarrow> heap_empty h \<longleftrightarrow> mset h = {#}" by (simp add: heap_empty_def)
  show "sorted h \<Longrightarrow> \<not> heap_empty h \<Longrightarrow> heap_top h \<in># mset h"
    by (cases h) (auto simp: heap_empty_def heap_top_def)
  show "sorted h \<Longrightarrow> x \<in># mset h \<Longrightarrow> heap_top h \<le> x"
    by (cases h) (auto simp: heap_top_def)
  show "sorted h \<Longrightarrow> sorted (heap_push x h)" by (simp add: heap_push_def sorted_insort)
  show "sorted h \<Longrightarrow> mset (heap_push x h) = add_mset x (mset h)"
    by (simp add: heap_push_def)
  show "sorted h \<Longrightarrow> \<not> heap_empty h \<Longrightarrow> sorted (heap_pop h)"
    by (cases h) (auto simp: heap_empty_def heap_pop_def)
  show "sorted h \<Longrightarrow> \<not> heap_empty h \<Longrightarrow> mset (heap_pop h) = mset h - {# heap_top h #}"
    by (cases h) (auto simp: heap_empty_def heap_pop_def heap_top_def)
qed

section \<open>The fake clock\<close>

text \<open>
  A thread with a \<^verbatim>\<open>ClockInstance\<close>: it holds the shared lock while it runs, has released it
  while it waits for the given time, and releases it for good in \<^verbatim>\<open>CleanUp\<close>.
\<close>

datatype thread = Running | Waiting int | Gone

record clock =
  clk_time :: int
  wakeup_times :: "int list"
  threads :: "thread list"
  shutdown_done :: bool

definition next_wakeup :: "clock \<Rightarrow> int" where
  "next_wakeup c = (if heap_empty (wakeup_times c) then clk_time c else heap_top (wakeup_times c))"

definition set_time :: "int \<Rightarrow> clock \<Rightarrow> clock" where
  "set_time t c = c\<lparr>clk_time := t\<rparr>"

function drop_stale :: "int \<Rightarrow> int list \<Rightarrow> int list" where
  "drop_stale now h =
     (if \<not> heap_empty h \<and> heap_top h < now then drop_stale now (heap_pop h) else h)"
  by auto
termination
  by (relation "measure (\<lambda>(now, h). length h)") (auto simp: heap_empty_def heap_pop_def)

declare drop_stale.simps [simp del]

definition set_wakeup :: "int \<Rightarrow> clock \<Rightarrow> clock" where
  "set_wakeup t c =
     c\<lparr>wakeup_times := drop_stale (clk_time c)
         (if t > clk_time c then heap_push t (wakeup_times c) else wakeup_times c)\<rparr>"

text \<open>Thread \<open>i\<close> calls \<^verbatim>\<open>sleep_until\<close>; it returns at once or starts to wait.\<close>

definition sleep_until :: "nat \<Rightarrow> int \<Rightarrow> clock \<Rightarrow> clock" where
  "sleep_until i len c =
     (if len \<le> clk_time c then c
      else (set_wakeup len c)\<lparr>threads := (threads c)[i := Waiting len]\<rparr>)"

text \<open>The predicate of the wait, evaluated by thread \<open>i\<close> with the lock held.\<close>

definition wake_check :: "nat \<Rightarrow> int \<Rightarrow> clock \<Rightarrow> bool \<times> clock" where
  "wake_check i len c =
     (if shutdown_done c then (True, c\<lparr>threads := (threads c)[i := Running]\<rparr>)
      else if len \<le> clk_time c
           then (True, c\<lparr>threads := (threads c)[i := Running],
                   wakeup_times := (if \<not> heap_empty (wakeup_times c) \<and> heap_top (wakeup_times c) = len
                                    then heap_pop (wakeup_times c) else wakeup_times c)\<rparr>)
           else (False, c))"

definition CleanUp :: "nat \<Rightarrow> clock \<Rightarrow> clock" where
  "CleanUp i c = c\<lparr>threads := (threads c)[i := Gone]\<rparr>"

definition ClockInstance :: "clock \<Rightarrow> clock" where
  "ClockInstance c = c\<lparr>threads := threads c @ [Running]\<rparr>"

text \<open>
  The real clock: a time is handed to the operating system as seconds and nanoseconds, with the truncating
  division of C, and read back from them; the fake clock gives the time it was set to.
\<close>

record timespec =
  tv_sec :: int
  tv_nsec :: int

definition to_timespec :: "int \<Rightarrow> timespec" where
  "to_timespec len =
     (let sec = (if len < 0 then - ((- len) div 1000000000) else len div 1000000000)
      in \<lparr>tv_sec = sec, tv_nsec = len - sec * 1000000000\<rparr>)"

definition clock_now :: "bool \<Rightarrow> timespec \<Rightarrow> clock \<Rightarrow> int" where
  "clock_now fake_clock gettime c = (if \<not> fake_clock then tv_nsec gettime + tv_sec gettime * 1000000000 else clk_time c)"

definition SetFakeClock :: "bool \<Rightarrow> bool \<Rightarrow> bool \<times> clock \<Rightarrow> bool \<times> clock" where
  "SetFakeClock is_fake set_start_time st = (is_fake, if set_start_time then set_time 0 (snd st) else snd st)"

definition CancelShutdown :: "clock \<Rightarrow> clock" where
  "CancelShutdown c = c\<lparr>shutdown_done := False\<rparr>"

lemma timespec_roundtrip: "clock_now False (to_timespec len) c = len"
  by (simp add: clock_now_def to_timespec_def Let_def)

text \<open>The operating system accepts the nanoseconds of a time that is not before the epoch.\<close>

lemma timespec_valid:
  assumes "0 \<le> len"
  shows "0 \<le> tv_nsec (to_timespec len)" "tv_nsec (to_timespec len) < 1000000000"
proof -
  have "tv_nsec (to_timespec len) = len mod 1000000000"
    using assms by (simp add: to_timespec_def minus_div_mult_eq_mod)
  then show "0 \<le> tv_nsec (to_timespec len)" "tv_nsec (to_timespec len) < 1000000000" by simp_all
qed

text \<open>One turn of the manager, which holds the lock alone.\<close>

definition manager_turn :: "clock \<Rightarrow> clock" where
  "manager_turn c = (if next_wakeup c \<ge> clk_time c then set_time (next_wakeup c) c else c)"

definition RaiseShutdown :: "clock \<Rightarrow> clock" where
  "RaiseShutdown c = c\<lparr>shutdown_done := True\<rparr>"

definition no_reader :: "clock \<Rightarrow> bool" where
  "no_reader c \<longleftrightarrow> Running \<notin> set (threads c)"

text \<open>
  What can happen: the condition variable may wake a thread at any moment, and the manager
  runs whenever it gets the lock.
\<close>

inductive clock_step :: "clock \<Rightarrow> clock \<Rightarrow> bool" where
  step_new: "clock_step c (ClockInstance c)"
| step_sleep: "i < length (threads c) \<Longrightarrow> threads c ! i = Running \<Longrightarrow> clock_step c (sleep_until i len c)"
| step_wake: "i < length (threads c) \<Longrightarrow> threads c ! i = Waiting len \<Longrightarrow> clock_step c (snd (wake_check i len c))"
| step_cleanup: "i < length (threads c) \<Longrightarrow> threads c ! i = Running \<Longrightarrow> clock_step c (CleanUp i c)"
| step_manager: "no_reader c \<Longrightarrow> clock_step c (manager_turn c)"
| step_shutdown: "clock_step c (RaiseShutdown c)"

inductive_cases clock_stepE: "clock_step c c'"

definition clock_start :: "int \<Rightarrow> clock" where
  "clock_start t = \<lparr>clk_time = t, wakeup_times = [], threads = [], shutdown_done = False\<rparr>"

definition clock_reachable :: "int \<Rightarrow> clock \<Rightarrow> bool" where
  "clock_reachable t c \<longleftrightarrow> clock_step\<^sup>*\<^sup>* (clock_start t) c"

section \<open>Loops and nodes\<close>

text \<open>
  \<^verbatim>\<open>Loop::WaitForNext\<close> up to its sleep: \<open>reading n\<close> is what the \<open>n\<close>-th look at the clock shows.
  The result is the next trigger; there is none if the loop never ends.
\<close>

definition loop_period :: "real \<Rightarrow> int" where
  "loop_period period = trunc (period * 10 ^ 9)"

partial_function (option) next_trigger :: "(nat \<Rightarrow> int) \<Rightarrow> nat \<Rightarrow> int \<Rightarrow> int \<Rightarrow> int option" where
  "next_trigger reading n period last_trigger =
     (let time = reading n; trigger = last_trigger + period
      in if time > trigger then next_trigger reading (Suc n) period trigger else Some trigger)"

text \<open>
  \<^verbatim>\<open>Node::Run\<close>: each turn looks at the shutdown flag before and after it waited.  The state is
  the last trigger and the node's own; \<open>None\<close> is a node stuck in \<^verbatim>\<open>WaitForNext\<close>.
\<close>

fun node_run :: "real \<Rightarrow> ('s \<Rightarrow> 's res) \<Rightarrow> (bool \<times> (nat \<Rightarrow> int) \<times> bool) list \<Rightarrow> int \<Rightarrow> 's \<Rightarrow> (int \<times> 's) option res" where
  "node_run period iterate [] trigger s = Inr (Some (trigger, s))"
| "node_run period iterate ((sd, reading, sd') # turns) trigger s =
     (if period < 0 \<or> sd then Inr (Some (trigger, s))
      else case (if period > 0 then next_trigger reading 0 (loop_period period) trigger else Some trigger) of
             None \<Rightarrow> Inr None
           | Some trigger' \<Rightarrow>
               (if sd' then Inr (Some (trigger', s))
                else bindr (iterate s) (\<lambda>s'. node_run period iterate turns trigger' s')))"

text \<open>
  \<^verbatim>\<open>Node::RunHandlerCaller\<close>: each turn looks at the shutdown flag, receives or times out, and
  looks at the flag again.
\<close>

fun run_handler :: "('m \<Rightarrow> 's \<Rightarrow> 's res) \<Rightarrow> (bool \<times> 'm option \<times> bool) list \<Rightarrow> 's \<Rightarrow> 's res" where
  "run_handler callback [] s = Inr s"
| "run_handler callback ((sd, received, sd') # turns) s =
     (if sd then Inr s
      else case received of
             Some m \<Rightarrow> (if \<not> sd' then bindr (callback m s) (run_handler callback turns)
                         else run_handler callback turns s)
           | None \<Rightarrow> run_handler callback turns s)"

text \<open>The messages a handler is called with.\<close>

fun handled :: "(bool \<times> 'm option \<times> bool) list \<Rightarrow> 'm list" where
  "handled [] = []"
| "handled ((sd, received, sd') # turns) =
     (if sd then [] else (case received of Some m \<Rightarrow> (if sd' then [] else [m]) | None \<Rightarrow> []) @ handled turns)"

lemma run_handler_events: "run_handler callback turns s = run_events callback (handled turns) s"
proof (induction turns arbitrary: s rule: handled.induct)
  case (2 sd received sd' turns)
  then show ?case
    by (cases received; cases "callback (the received) s") auto
qed simp

lemma next_trigger_finds:
  assumes "0 < p" "\<forall>n. reading n \<le> T"
  shows "\<exists>k. next_trigger reading n p l = Some (l + int (Suc k) * p) \<and>
    reading (n + k) \<le> l + int (Suc k) * p \<and> (\<forall>j<k. l + int (Suc j) * p < reading (n + j))"
proof (induction "nat (T - l)" arbitrary: n l rule: less_induct)
  case less
  show ?case
  proof (cases "reading n > l + p")
    case True
    then have "l < T" using assms less_le_trans [of "l + p" "reading n" T] by simp
    then have "nat (T - (l + p)) < nat (T - l)" using assms(1) by simp
    from less [OF this, of "Suc n"] obtain k where k:
      "next_trigger reading (Suc n) p (l + p) = Some (l + p + int (Suc k) * p)"
      "reading (Suc n + k) \<le> l + p + int (Suc k) * p"
      "\<forall>j<k. l + p + int (Suc j) * p < reading (Suc n + j)" by blast
    have "next_trigger reading n p l = Some (l + int (Suc (Suc k)) * p)"
      using True k(1) by (subst next_trigger.simps) (simp add: algebra_simps)
    moreover have "l + int (Suc j) * p < reading (n + j)" if "j < Suc k" for j
      using that k(3) True by (cases j) (auto simp: algebra_simps)
    ultimately show ?thesis
      using k(2) by (intro exI [of _ "Suc k"]) (simp add: algebra_simps)
  next
    case False
    then show ?thesis
      by (intro exI [of _ 0]) (simp add: next_trigger.simps)
  qed
qed

lemma next_trigger_stuck:
  assumes "p \<le> 0" "\<forall>n. l < reading n"
  shows "next_trigger reading n p l = None"
proof -
  have "\<not> (q \<le> 0 \<and> (\<forall>n. m < r n))" if "next_trigger r n q m = Some y" for r n q m y
    using that
  proof (induction r n q m y rule: next_trigger.raw_induct [rotated 1, consumes 1, case_names step])
    case (step f r n q m y)
    show ?case
    proof (cases "m + q < r n")
      case True
      with step(2) have "f r (Suc n) q (m + q) = Some y" by (simp add: Let_def)
      then have "\<not> (q \<le> 0 \<and> (\<forall>n. m + q < r n))" by (rule step(1))
      moreover have "m + q < r k" if "q \<le> 0" "m < r k" for k using that by simp
      ultimately show ?thesis by blast
    next
      case False
      then show ?thesis by (smt (verit))
    qed
  qed
  with assms show ?thesis by (cases "next_trigger reading n p l") blast+
qed

lemma clock_reachable_start: "clock_reachable t (clock_start t)"
  by (simp add: clock_reachable_def)

lemma clock_reachable_step: "clock_reachable t c \<Longrightarrow> clock_step c c' \<Longrightarrow> clock_reachable t c'"
  unfolding clock_reachable_def by (rule rtranclp.rtrancl_into_rtrancl)

section \<open>The invariant\<close>

fun deadline :: "thread \<Rightarrow> int multiset" where
  "deadline (Waiting t) = {# t #}"
| "deadline _ = {#}"

definition deadlines :: "thread list \<Rightarrow> int multiset" where
  "deadlines ts = sum_list (map deadline ts)"

text \<open>
  No wakeup time has passed, and the waiting threads' times are among them; until the process
  shuts down there are no others.
\<close>

definition clock_inv :: "clock \<Rightarrow> bool" where
  "clock_inv c \<longleftrightarrow> sorted (wakeup_times c) \<and> (\<forall>x\<in>set (wakeup_times c). clk_time c \<le> x) \<and>
     deadlines (threads c) \<subseteq># mset (wakeup_times c) \<and>
     (\<not> shutdown_done c \<longrightarrow> deadlines (threads c) = mset (wakeup_times c))"

lemma deadlines_update:
  "i < length ts \<Longrightarrow> deadlines (ts[i := t]) + deadline (ts ! i) = deadlines ts + deadline t"
proof (induction ts arbitrary: i)
  case (Cons u ts)
  then show ?case by (cases i) (auto simp: deadlines_def ac_simps)
qed simp

lemma waiting_in_deadlines:
  assumes "i < length ts" "ts ! i = Waiting len"
  shows "len \<in># deadlines ts"
  using deadlines_update [OF assms(1), of Running] assms(2)
  by (metis add.right_neutral deadline.simps(1,2) multi_member_last union_iff)

lemma deadlines_waiting:
  "x \<in># deadlines ts \<Longrightarrow> \<exists>j<length ts. ts ! j = Waiting x"
proof (induction ts)
  case (Cons u ts)
  show ?case
  proof (cases "u = Waiting x")
    case False
    with Cons.prems have "x \<in># deadlines ts" by (cases u) (auto simp: deadlines_def)
    with Cons.IH show ?thesis by (metis Suc_less_eq length_Cons nth_Cons_Suc)
  qed force
qed (simp add: deadlines_def)

lemma deadlines_append [simp]: "deadlines (ts @ us) = deadlines ts + deadlines us"
  by (simp add: deadlines_def)

lemma deadlines_snoc_running [simp]: "deadlines [Running] = {#}"
  by (simp add: deadlines_def)

lemma drop_stale_id: "\<forall>x\<in>set h. now \<le> x \<Longrightarrow> sorted h \<Longrightarrow> drop_stale now h = h"
  using heap.top_not_before [of h now] by (subst drop_stale.simps) auto

lemma inv_sleep:
  assumes inv: "clock_inv c" and i: "i < length (threads c)" "threads c ! i = Running"
  shows "clock_inv (sleep_until i len c)"
proof (cases "len \<le> clk_time c")
  case False
  let ?h = "heap_push len (wakeup_times c)"
  have sorted: "sorted ?h" using inv heap.push_ok by (simp add: clock_inv_def)
  have ms: "mset ?h = add_mset len (mset (wakeup_times c))"
    using inv heap.push_entries by (simp add: clock_inv_def)
  then have set: "set ?h = insert len (set (wakeup_times c))"
    by (metis set_mset_add_mset_insert set_mset_mset)
  have all: "\<forall>x\<in>set ?h. clk_time c \<le> x"
    using inv False unfolding set by (auto simp: clock_inv_def)
  have "deadlines ((threads c)[i := Waiting len]) = add_mset len (deadlines (threads c))"
    using deadlines_update [OF i(1), of "Waiting len"] i(2) by simp
  with inv False sorted all ms show ?thesis
    by (simp add: sleep_until_def set_wakeup_def clock_inv_def drop_stale_id)
qed (simp add: sleep_until_def inv)

text \<open>A thread whose time has come finds its own entry on top of the queue.\<close>

lemma wake_time_is_top:
  assumes inv: "clock_inv c" and i: "i < length (threads c)" "threads c ! i = Waiting len"
    and "len \<le> clk_time c"
  shows "len = clk_time c" "\<not> heap_empty (wakeup_times c)" "heap_top (wakeup_times c) = len"
proof -
  have "len \<in># deadlines (threads c)" using waiting_in_deadlines [OF i] .
  then have mem: "len \<in># mset (wakeup_times c)"
    using inv by (meson clock_inv_def mset_subset_eqD)
  with inv assms(4) show len: "len = clk_time c" by (force simp: clock_inv_def)
  from mem show ne: "\<not> heap_empty (wakeup_times c)" by (auto simp: heap_empty_def)
  have "heap_top (wakeup_times c) \<le> len"
    using heap.top_least [OF _ mem] inv by (simp add: clock_inv_def)
  moreover have "len \<le> heap_top (wakeup_times c)"
    using inv len heap.top_not_before [of "wakeup_times c" len] ne by (simp add: clock_inv_def)
  ultimately show "heap_top (wakeup_times c) = len" by simp
qed

lemma inv_wake:
  assumes inv: "clock_inv c" and i: "i < length (threads c)" "threads c ! i = Waiting len"
  shows "clock_inv (snd (wake_check i len c))"
proof -
  have dl: "add_mset len (deadlines ((threads c)[i := Running])) = deadlines (threads c)"
    using deadlines_update [OF i(1), of Running] i(2) by simp
  consider "shutdown_done c" | "\<not> shutdown_done c" "len \<le> clk_time c" | "\<not> shutdown_done c" "\<not> len \<le> clk_time c"
    by blast
  then show ?thesis
  proof cases
    case 1
    have "deadlines ((threads c)[i := Running]) \<subseteq># deadlines (threads c)"
      by (metis dl mset_subset_eq_add_right add_mset_add_single mset_subset_eq_add_left)
    with inv 1 show ?thesis
      by (auto simp: wake_check_def clock_inv_def intro: subset_mset.order_trans)
  next
    case 2
    note top = wake_time_is_top [OF inv i 2(2)]
    have sorted: "sorted (wakeup_times c)" using inv by (simp add: clock_inv_def)
    have "deadlines ((threads c)[i := Running]) \<subseteq># mset (heap_pop (wakeup_times c))"
      using heap.pop_subset [OF sorted top(2), of len "deadlines ((threads c)[i := Running])"]
        inv dl top(3) by (simp add: clock_inv_def)
    moreover have "deadlines ((threads c)[i := Running]) = mset (heap_pop (wakeup_times c))"
      using heap.pop_entries [OF sorted top(2)] inv 2(1) dl top(3)
      by (metis add_mset_remove_trivial clock_inv_def)
    moreover have "sorted (heap_pop (wakeup_times c))" using heap.pop_ok [OF sorted top(2)] .
    moreover have "set (heap_pop (wakeup_times c)) \<subseteq> set (wakeup_times c)"
      by (cases "wakeup_times c") (auto simp: heap_pop_def)
    ultimately show ?thesis
      using inv 2 top(2,3) by (auto simp: wake_check_def clock_inv_def)
  qed (use inv in \<open>simp add: wake_check_def\<close>)
qed

lemma inv_cleanup:
  assumes "clock_inv c" "i < length (threads c)" "threads c ! i = Running"
  shows "clock_inv (CleanUp i c)"
  using assms deadlines_update [OF assms(2), of Gone] by (simp add: CleanUp_def clock_inv_def)

lemma inv_manager: "clock_inv c \<Longrightarrow> clock_inv (manager_turn c)"
  using heap.top_least [of "wakeup_times c"]
  by (auto simp: manager_turn_def set_time_def next_wakeup_def clock_inv_def heap_empty_def)

lemma inv_step: "clock_step c c' \<Longrightarrow> clock_inv c \<Longrightarrow> clock_inv c'"
proof (induction rule: clock_step.induct)
  case (step_new c)
  then show ?case by (simp add: ClockInstance_def clock_inv_def)
next
  case (step_shutdown c)
  then show ?case by (simp add: RaiseShutdown_def clock_inv_def)
qed (simp_all add: inv_sleep inv_wake inv_cleanup inv_manager)

lemma inv_reachable:
  assumes "clock_reachable t c"
  shows "clock_inv c"
  using assms unfolding clock_reachable_def
proof (induction rule: rtranclp_induct)
  case base
  show ?case by (simp add: clock_start_def clock_inv_def deadlines_def)
qed (auto intro: inv_step)

section \<open>Properties\<close>

text \<open>
  C7: the fake clock never passes a sleeping thread: in every reachable state the time a
  thread sleeps until has not gone by, and unless the process shuts down the thread returns
  from its sleep at exactly the time it asked for.
\<close>

theorem sleeper_wakes_on_time:
  assumes "clock_reachable t c" and "i < length (threads c)" and "threads c ! i = Waiting len"
  shows "clk_time c \<le> len \<and>
    (fst (wake_check i len c) \<longrightarrow> shutdown_done c \<or> clk_time c = len)"
proof -
  note inv = inv_reachable [OF assms(1)]
  have "clk_time c \<le> len"
  proof (rule ccontr)
    assume "\<not> clk_time c \<le> len"
    with wake_time_is_top(1) [OF inv assms(2,3)] show False by simp
  qed
  then show ?thesis by (auto simp: wake_check_def split: if_splits)
qed

theorem sleeper_wakes_on_time_witness:
  "let c = manager_turn (sleep_until 0 8 (ClockInstance (clock_start 3)))
   in clk_time c \<le> 8 \<and> (fst (wake_check 0 8 c) \<longrightarrow> shutdown_done c \<or> clk_time c = 8)"
proof -
  let ?c1 = "ClockInstance (clock_start 3)"
  let ?c2 = "sleep_until 0 8 ?c1"
  have th: "threads ?c1 = [Running]" "threads ?c2 = [Waiting 8]"
    by (simp_all add: ClockInstance_def clock_start_def sleep_until_def)
  have "clock_reachable 3 ?c1" by (rule clock_reachable_step [OF clock_reachable_start step_new])
  moreover have "clock_step ?c1 ?c2" by (rule step_sleep) (simp_all add: th)
  moreover have "clock_step ?c2 (manager_turn ?c2)" by (rule step_manager) (simp add: no_reader_def th)
  ultimately have "clock_reachable 3 (manager_turn ?c2)"
    by (blast intro: clock_reachable_step)
  moreover have "threads (manager_turn ?c2) = [Waiting 8]"
    by (simp add: manager_turn_def set_time_def th)
  ultimately show ?thesis
    using sleeper_wakes_on_time [of 3 "manager_turn ?c2" 0 8] by (simp add: Let_def)
qed

text \<open>
  C37: the clock does not get stuck: when every thread sleeps and the process is not shutting
  down, a turn of the manager moves the time to the earliest requested one, and the thread
  that asked for it returns at its next look.
\<close>

theorem clock_makes_progress:
  assumes "clock_reachable t c" and "no_reader c" and "\<not> shutdown_done c"
    and "i < length (threads c)" and "threads c ! i = Waiting len"
  shows "\<exists>j len'. j < length (threads c) \<and> threads c ! j = Waiting len' \<and> len' \<le> len \<and>
    clk_time (manager_turn c) = len' \<and> fst (wake_check j len' (manager_turn c))"
proof -
  note inv = inv_reachable [OF assms(1)]
  have dl: "deadlines (threads c) = mset (wakeup_times c)" "sorted (wakeup_times c)"
    using inv assms(3) by (auto simp: clock_inv_def)
  have len: "len \<in># mset (wakeup_times c)"
    using waiting_in_deadlines [OF assms(4,5)] dl(1) by simp
  then have ne: "\<not> heap_empty (wakeup_times c)" by (auto simp: heap_empty_def)
  define top where "top = heap_top (wakeup_times c)"
  have "top \<in># deadlines (threads c)"
    using heap.top_in [OF dl(2) ne] dl(1) by (simp add: top_def)
  then obtain j where j: "j < length (threads c)" "threads c ! j = Waiting top"
    using deadlines_waiting by blast
  moreover have "top \<le> len" using heap.top_least [OF dl(2) len] by (simp add: top_def)
  moreover have "clk_time c \<le> top"
    using inv heap.top_not_before [OF dl(2) _ ne] by (simp add: clock_inv_def top_def)
  then have "manager_turn c = set_time top c"
    using ne by (simp add: manager_turn_def next_wakeup_def top_def)
  ultimately show ?thesis by (auto simp: set_time_def wake_check_def)
qed

theorem clock_makes_progress_witness:
  "let c = sleep_until 0 8 (ClockInstance (clock_start 3))
   in \<exists>j len'. j < length (threads c) \<and> threads c ! j = Waiting len' \<and> len' \<le> 8 \<and>
      clk_time (manager_turn c) = len' \<and> fst (wake_check j len' (manager_turn c))"
proof -
  let ?c1 = "ClockInstance (clock_start 3)"
  let ?c2 = "sleep_until 0 8 ?c1"
  have th: "threads ?c1 = [Running]" "threads ?c2 = [Waiting 8]" "\<not> shutdown_done ?c2"
    by (simp_all add: ClockInstance_def clock_start_def sleep_until_def set_wakeup_def)
  have "clock_reachable 3 ?c1" by (rule clock_reachable_step [OF clock_reachable_start step_new])
  moreover have "clock_step ?c1 ?c2" by (rule step_sleep) (simp_all add: th)
  ultimately have "clock_reachable 3 ?c2" by (rule clock_reachable_step)
  then show ?thesis
    unfolding Let_def by (rule clock_makes_progress [where i = 0]) (simp_all add: th no_reader_def)
qed

text \<open>
  C39: with a positive period and a clock that stays below some bound, \<^verbatim>\<open>WaitForNext\<close> returns,
  and the trigger it sleeps until is the first whole number of periods after the last one
  that the clock, looked at once per period, had not passed.  With a period that is not
  positive and a clock past the last trigger it never returns.
\<close>

theorem wait_for_next_trigger:
  assumes "\<forall>n. reading n \<le> T"
  shows "(0 < p \<longrightarrow> (\<exists>k. next_trigger reading 0 p l = Some (l + int (Suc k) * p) \<and>
             reading k \<le> l + int (Suc k) * p \<and> (\<forall>j<k. l + int (Suc j) * p < reading j))) \<and>
    (p \<le> 0 \<and> (\<forall>n. l < reading n) \<longrightarrow> next_trigger reading 0 p l = None)"
  using next_trigger_finds [of p reading T 0 l] next_trigger_stuck [of p l reading 0] assms by auto

theorem wait_for_next_trigger_witness:
  "(\<exists>k. next_trigger (\<lambda>_. 35) 0 10 0 = Some (0 + int (Suc k) * 10) \<and> 35 \<le> 0 + int (Suc k) * 10 \<and>
      (\<forall>j<k. 0 + int (Suc j) * 10 < 35)) \<and>
   next_trigger (\<lambda>_. 35) 0 0 0 = None"
  using wait_for_next_trigger [of "\<lambda>_. 35" 35 10 0] wait_for_next_trigger [of "\<lambda>_. 35" 35 0 0] by auto

section \<open>Tests on the fake clock\<close>

text \<open>
  The fixture of the tests (\<^verbatim>\<open>util/testing.cc\<close>): it cancels the shutdown of the test before, turns the
  fake clock on at time zero, makes an instance for the test itself and starts the manager.  The
  test sleeps in milliseconds, and tearing down raises the shutdown and gives the instance back.
\<close>

definition TestWrapper :: "bool \<times> clock \<Rightarrow> bool \<times> clock" where
  "TestWrapper st =
     (let (fake, c) = SetFakeClock True True (fst st, CancelShutdown (snd st)) in (fake, set_time 0 (ClockInstance c)))"

definition test_Sleep :: "nat \<Rightarrow> real \<Rightarrow> clock \<Rightarrow> clock res" where
  "test_Sleep i sec c = bindr (to_int32 (sec * 1000)) (\<lambda>ms. Inr (sleep_until i (clk_time c + ms * 10 ^ 6) c))"

definition TearDown :: "nat \<Rightarrow> clock \<Rightarrow> clock" where
  "TearDown i c = CleanUp i (RaiseShutdown c)"

text \<open>A first test starts where the clock starts, with one instance that runs.\<close>

lemma first_test: "snd (TestWrapper (f, clock_start t)) = ClockInstance (clock_start 0)"
  by (simp add: TestWrapper_def SetFakeClock_def CancelShutdown_def set_time_def ClockInstance_def clock_start_def)

lemma first_test_reachable: "clock_reachable 0 (snd (TestWrapper (f, clock_start t)))"
  unfolding first_test by (rule clock_reachable_step [OF clock_reachable_start step_new])

text \<open>
  A wakeup time that no thread waits for.  When everybody sleeps past it the clock reaches it and
  stays there: nobody removes it, as only a thread that goes to sleep removes what is in the
  past, so that nothing but a new instance or a shutdown changes the state.
\<close>

lemma stale_wakeup_stops_clock:
  assumes "\<not> shutdown_done c" "wakeup_times c = t # h" "clk_time c = t" "sorted (wakeup_times c)"
    and "\<forall>u\<in>set (threads c). u = Gone \<or> (\<exists>d>t. u = Waiting d)" and "clock_step c c'"
  shows "c' \<in> {c, ClockInstance c, RaiseShutdown c}"
  using assms(6)
proof cases
  case (step_sleep i len)
  then have "Running \<in> set (threads c)" using nth_mem [of i "threads c"] by simp
  then show ?thesis using assms(5) by blast
next
  case (step_wake i len)
  then have "Waiting len \<in> set (threads c)" using nth_mem [of i "threads c"] by simp
  then have "t < len" using assms(5) by auto
  then show ?thesis using step_wake assms(1, 3) by (simp add: wake_check_def)
next
  case (step_cleanup i)
  then have "Running \<in> set (threads c)" using nth_mem [of i "threads c"] by simp
  then show ?thesis using assms(5) by blast
next
  case step_manager
  then show ?thesis
    using assms(2, 3) by (simp add: manager_turn_def next_wakeup_def heap_empty_def heap_top_def set_time_def)
qed auto

text \<open>
  Such a time is what one test leaves to the next: a thread that is woken by the shutdown returns
  without removing its time.  A second test in the same process that sleeps past the time at which a thread
  of the first one would have woken sleeps for ever.
\<close>

definition two_tests :: "int \<Rightarrow> int \<Rightarrow> clock" where
  "two_tests t s =
     (let c1 = snd (TestWrapper (False, clock_start 0));
          c2 = sleep_until 1 t (ClockInstance c1);
          c3 = CleanUp 1 (snd (wake_check 1 t (TearDown 0 c2)))
      in manager_turn (sleep_until 2 s (snd (TestWrapper (True, c3)))))"

theorem stale_wakeup_blocks_next_test:
  assumes "0 < t" "t < s"
  shows "threads (two_tests t s) ! 2 = Waiting s \<and> clk_time (two_tests t s) = t \<and>
    (\<forall>c'. clock_step (two_tests t s) c' \<longrightarrow> c' \<in> {two_tests t s, ClockInstance (two_tests t s), RaiseShutdown (two_tests t s)})"
proof -
  have c: "two_tests t s = \<lparr>clk_time = t, wakeup_times = [t, s], threads = [Gone, Gone, Waiting s], shutdown_done = False\<rparr>"
    using assms
    by (simp add: two_tests_def first_test Let_def TestWrapper_def TearDown_def CleanUp_def wake_check_def SetFakeClock_def
        CancelShutdown_def set_time_def ClockInstance_def clock_start_def RaiseShutdown_def sleep_until_def set_wakeup_def
        heap_push_def heap_empty_def heap_top_def manager_turn_def next_wakeup_def drop_stale_id)
  have "c' \<in> {two_tests t s, ClockInstance (two_tests t s), RaiseShutdown (two_tests t s)}" if "clock_step (two_tests t s) c'" for c'
    using that assms by (intro stale_wakeup_stops_clock [where t = t and h = "[s]"]) (simp_all add: c)
  then show ?thesis by (simp add: c)
qed

end
