(* ===== verification/Can_Table.thy ===== *)
theory Can_Table
  imports Boat_Prelude
begin

text \<open>
  The table of CAN messages in \<^verbatim>\<open>can/canboat-pgn.h\<close>: for each parameter group number the fields
  that follow each other in its data, with their sizes in bits, resolutions and signs.  The
  strings that the program never reads (units and field descriptions) are left out.
\<close>

section \<open>Fields and messages\<close>

record Field =
  fld_name :: string
  fld_size :: nat
  resolution :: real
  hasSign :: bool

record Pgn =
  pgn_description :: string
  pgn :: nat
  known :: bool
  pgn_size :: nat
  repeatingFields :: nat
  fieldList :: "Field list"

text \<open>The negative values of a resolution that stand for special kinds of fields.\<close>

definition RES_ASCII :: real where
  "RES_ASCII = -1"

definition RES_LATITUDE :: real where
  "RES_LATITUDE = -2"

definition RES_LONGITUDE :: real where
  "RES_LONGITUDE = -3"

definition RES_DATE :: real where
  "RES_DATE = -4"

definition RES_TIME :: real where
  "RES_TIME = -5"

definition RES_TEMPERATURE :: real where
  "RES_TEMPERATURE = -6"

definition RES_INTEGER :: real where
  "RES_INTEGER = -8"

definition RES_LOOKUP :: real where
  "RES_LOOKUP = -9"

definition RES_BINARY :: real where
  "RES_BINARY = -10"

definition RES_PRESSURE :: real where
  "RES_PRESSURE = -14"

definition RES_PRESSURE_HIRES :: real where
  "RES_PRESSURE_HIRES = -21"

section \<open>The table\<close>

definition pgn_System_Time :: Pgn where
  "pgn_System_Time =
     \<lparr>pgn_description = ''System Time'', pgn = 126992, known = True, pgn_size = 8, repeatingFields = 0,
      fieldList =
       [\<lparr>fld_name = ''SID'', fld_size = 8, resolution = 1, hasSign = False\<rparr>,
        \<lparr>fld_name = ''Source'', fld_size = 4, resolution = RES_LOOKUP, hasSign = False\<rparr>,
        \<lparr>fld_name = ''Reserved'', fld_size = 4, resolution = RES_BINARY, hasSign = False\<rparr>,
        \<lparr>fld_name = ''Date'', fld_size = 16, resolution = RES_DATE, hasSign = False\<rparr>,
        \<lparr>fld_name = ''Time'', fld_size = 32, resolution = RES_TIME, hasSign = False\<rparr>]\<rparr>"

definition pgn_Configuration_Information :: Pgn where
  "pgn_Configuration_Information =
     \<lparr>pgn_description = ''Configuration Information'', pgn = 126998, known = False, pgn_size = 42, repeatingFields = 0,
      fieldList =
       [\<lparr>fld_name = ''Station ID'', fld_size = 16, resolution = 1, hasSign = False\<rparr>,
        \<lparr>fld_name = ''Station Name'', fld_size = 16, resolution = 1, hasSign = False\<rparr>,
        \<lparr>fld_name = ''A'', fld_size = 16, resolution = 1, hasSign = False\<rparr>,
        \<lparr>fld_name = ''Manufacturer'', fld_size = 288, resolution = RES_ASCII, hasSign = False\<rparr>,
        \<lparr>fld_name = ''Installation Description #1'', fld_size = 16, resolution = 1, hasSign = False\<rparr>,
        \<lparr>fld_name = ''Installation Description #2'', fld_size = 16, resolution = 1, hasSign = False\<rparr>]\<rparr>"

definition pgn_Vessel_Heading :: Pgn where
  "pgn_Vessel_Heading =
     \<lparr>pgn_description = ''Vessel Heading'', pgn = 127250, known = True, pgn_size = 8, repeatingFields = 0,
      fieldList =
       [\<lparr>fld_name = ''SID'', fld_size = 8, resolution = 1, hasSign = False\<rparr>,
        \<lparr>fld_name = ''Heading'', fld_size = 16, resolution = 1 / 10000, hasSign = False\<rparr>,
        \<lparr>fld_name = ''Deviation'', fld_size = 16, resolution = 1 / 10000, hasSign = True\<rparr>,
        \<lparr>fld_name = ''Variation'', fld_size = 16, resolution = 1 / 10000, hasSign = True\<rparr>,
        \<lparr>fld_name = ''Reference'', fld_size = 2, resolution = RES_LOOKUP, hasSign = False\<rparr>]\<rparr>"

definition pgn_Rate_of_Turn :: Pgn where
  "pgn_Rate_of_Turn =
     \<lparr>pgn_description = ''Rate of Turn'', pgn = 127251, known = True, pgn_size = 5, repeatingFields = 0,
      fieldList =
       [\<lparr>fld_name = ''SID'', fld_size = 8, resolution = 1, hasSign = False\<rparr>,
        \<lparr>fld_name = ''Rate'', fld_size = 32, resolution = 1 / 32000000, hasSign = True\<rparr>]\<rparr>"

definition pgn_Analog_Read :: Pgn where
  "pgn_Analog_Read =
     \<lparr>pgn_description = ''Analog Read'', pgn = 65281, known = True, pgn_size = 1, repeatingFields = 0,
      fieldList =
       [\<lparr>fld_name = ''Val'', fld_size = 8, resolution = 4, hasSign = False\<rparr>,
        \<lparr>fld_name = ''Current'', fld_size = 8, resolution = 1, hasSign = False\<rparr>]\<rparr>"

definition pgn_PWM_Write :: Pgn where
  "pgn_PWM_Write =
     \<lparr>pgn_description = ''PWM Write'', pgn = 65282, known = True, pgn_size = 3, repeatingFields = 0,
      fieldList =
       [\<lparr>fld_name = ''Winch'', fld_size = 8, resolution = 1, hasSign = False\<rparr>,
        \<lparr>fld_name = ''Rudder'', fld_size = 8, resolution = 1, hasSign = False\<rparr>,
        \<lparr>fld_name = ''Ballast'', fld_size = 8, resolution = 1, hasSign = False\<rparr>]\<rparr>"

definition pgn_Debug_SCAMP1 :: Pgn where
  "pgn_Debug_SCAMP1 =
     \<lparr>pgn_description = ''Debug SCAMP1'', pgn = 65283, known = True, pgn_size = 8, repeatingFields = 0,
      fieldList =
       [\<lparr>fld_name = ''D1'', fld_size = 32, resolution = 1, hasSign = False\<rparr>,
        \<lparr>fld_name = ''D2'', fld_size = 32, resolution = 1, hasSign = False\<rparr>]\<rparr>"

definition pgn_Debug_SCAMP2 :: Pgn where
  "pgn_Debug_SCAMP2 =
     \<lparr>pgn_description = ''Debug SCAMP2'', pgn = 65284, known = True, pgn_size = 8, repeatingFields = 0,
      fieldList =
       [\<lparr>fld_name = ''D1'', fld_size = 32, resolution = 1, hasSign = False\<rparr>,
        \<lparr>fld_name = ''D2'', fld_size = 32, resolution = 1, hasSign = False\<rparr>]\<rparr>"

definition pgn_Ballast_State :: Pgn where
  "pgn_Ballast_State =
     \<lparr>pgn_description = ''Ballast State'', pgn = 65285, known = True, pgn_size = 4, repeatingFields = 0,
      fieldList =
       [\<lparr>fld_name = ''Heel'', fld_size = 16, resolution = 1 / 10000, hasSign = True\<rparr>,
        \<lparr>fld_name = ''Ballast Arm'', fld_size = 16, resolution = 1 / 10000, hasSign = True\<rparr>]\<rparr>"

definition pgn_Sailbot_State :: Pgn where
  "pgn_Sailbot_State =
     \<lparr>pgn_description = ''Sailbot State'', pgn = 65296, known = True, pgn_size = 8, repeatingFields = 0,
      fieldList =
       [\<lparr>fld_name = ''Wing State'', fld_size = 8, resolution = 1, hasSign = False\<rparr>,
        \<lparr>fld_name = ''Ballast'', fld_size = 8, resolution = 1, hasSign = False\<rparr>,
        \<lparr>fld_name = ''Winch'', fld_size = 8, resolution = 1, hasSign = False\<rparr>,
        \<lparr>fld_name = ''Rudder'', fld_size = 8, resolution = 1, hasSign = False\<rparr>,
        \<lparr>fld_name = ''Tacker'', fld_size = 8, resolution = 1, hasSign = False\<rparr>]\<rparr>"

definition pgn_Connection_Status :: Pgn where
  "pgn_Connection_Status =
     \<lparr>pgn_description = ''Connection Status'', pgn = 65297, known = True, pgn_size = 8, repeatingFields = 0,
      fieldList =
       [\<lparr>fld_name = ''Wing Connection'', fld_size = 8, resolution = 1, hasSign = False\<rparr>,
        \<lparr>fld_name = ''Radio Connection'', fld_size = 8, resolution = 1, hasSign = False\<rparr>,
        \<lparr>fld_name = ''WiFi Connection'', fld_size = 8, resolution = 1, hasSign = False\<rparr>,
        \<lparr>fld_name = ''Jetson Connection'', fld_size = 8, resolution = 1, hasSign = False\<rparr>,
        \<lparr>fld_name = ''UI Connection'', fld_size = 8, resolution = 1, hasSign = False\<rparr>]\<rparr>"

definition pgn_Battery_Voltage :: Pgn where
  "pgn_Battery_Voltage =
     \<lparr>pgn_description = ''Battery Voltage'', pgn = 65312, known = True, pgn_size = 4, repeatingFields = 0,
      fieldList =
       [\<lparr>fld_name = ''Voltage'', fld_size = 8, resolution = 1 / 10, hasSign = False\<rparr>]\<rparr>"

definition pgn_Attitude :: Pgn where
  "pgn_Attitude =
     \<lparr>pgn_description = ''Attitude'', pgn = 127257, known = True, pgn_size = 7, repeatingFields = 0,
      fieldList =
       [\<lparr>fld_name = ''SID'', fld_size = 8, resolution = 1, hasSign = False\<rparr>,
        \<lparr>fld_name = ''Yaw'', fld_size = 16, resolution = 1 / 10000, hasSign = True\<rparr>,
        \<lparr>fld_name = ''Pitch'', fld_size = 16, resolution = 1 / 10000, hasSign = True\<rparr>,
        \<lparr>fld_name = ''Roll'', fld_size = 16, resolution = 1 / 10000, hasSign = True\<rparr>]\<rparr>"

definition pgn_Magnetic_Variation :: Pgn where
  "pgn_Magnetic_Variation =
     \<lparr>pgn_description = ''Magnetic Variation'', pgn = 127258, known = True, pgn_size = 6, repeatingFields = 0,
      fieldList =
       [\<lparr>fld_name = ''SID'', fld_size = 8, resolution = 1, hasSign = False\<rparr>,
        \<lparr>fld_name = ''Source'', fld_size = 4, resolution = RES_LOOKUP, hasSign = False\<rparr>,
        \<lparr>fld_name = ''Reserved'', fld_size = 4, resolution = RES_BINARY, hasSign = False\<rparr>,
        \<lparr>fld_name = ''Age of service'', fld_size = 16, resolution = RES_DATE, hasSign = False\<rparr>,
        \<lparr>fld_name = ''Variation'', fld_size = 16, resolution = 1 / 10000, hasSign = True\<rparr>]\<rparr>"

definition pgn_Position_Rapid_Update :: Pgn where
  "pgn_Position_Rapid_Update =
     \<lparr>pgn_description = ''Position, Rapid Update'', pgn = 129025, known = True, pgn_size = 8, repeatingFields = 0,
      fieldList =
       [\<lparr>fld_name = ''Latitude'', fld_size = 32, resolution = RES_LATITUDE, hasSign = True\<rparr>,
        \<lparr>fld_name = ''Longitude'', fld_size = 32, resolution = RES_LONGITUDE, hasSign = True\<rparr>]\<rparr>"

definition pgn_COG_SOG_Rapid_Update :: Pgn where
  "pgn_COG_SOG_Rapid_Update =
     \<lparr>pgn_description = ''COG & SOG, Rapid Update'', pgn = 129026, known = True, pgn_size = 8, repeatingFields = 0,
      fieldList =
       [\<lparr>fld_name = ''SID'', fld_size = 8, resolution = 1, hasSign = False\<rparr>,
        \<lparr>fld_name = ''COG Reference'', fld_size = 2, resolution = RES_LOOKUP, hasSign = False\<rparr>,
        \<lparr>fld_name = ''Reserved'', fld_size = 6, resolution = RES_BINARY, hasSign = False\<rparr>,
        \<lparr>fld_name = ''COG'', fld_size = 16, resolution = 1 / 10000, hasSign = False\<rparr>,
        \<lparr>fld_name = ''SOG'', fld_size = 16, resolution = 1 / 100, hasSign = False\<rparr>,
        \<lparr>fld_name = ''Reserved'', fld_size = 16, resolution = RES_BINARY, hasSign = False\<rparr>]\<rparr>"

definition pgn_Time_Date :: Pgn where
  "pgn_Time_Date =
     \<lparr>pgn_description = ''Time & Date'', pgn = 129033, known = True, pgn_size = 8, repeatingFields = 0,
      fieldList =
       [\<lparr>fld_name = ''Date'', fld_size = 16, resolution = RES_DATE, hasSign = False\<rparr>,
        \<lparr>fld_name = ''Time'', fld_size = 32, resolution = RES_TIME, hasSign = False\<rparr>,
        \<lparr>fld_name = ''Local Offset'', fld_size = 16, resolution = RES_INTEGER, hasSign = True\<rparr>]\<rparr>"

definition pgn_Datum :: Pgn where
  "pgn_Datum =
     \<lparr>pgn_description = ''Datum'', pgn = 129044, known = True, pgn_size = 24, repeatingFields = 0,
      fieldList =
       [\<lparr>fld_name = ''Local Datum'', fld_size = 32, resolution = RES_ASCII, hasSign = False\<rparr>,
        \<lparr>fld_name = ''Delta Latitude'', fld_size = 32, resolution = RES_LATITUDE, hasSign = True\<rparr>,
        \<lparr>fld_name = ''Delta Longitude'', fld_size = 32, resolution = RES_LONGITUDE, hasSign = True\<rparr>,
        \<lparr>fld_name = ''Delta Altitude'', fld_size = 32, resolution = 1 / 1000000, hasSign = True\<rparr>,
        \<lparr>fld_name = ''Reference Datum'', fld_size = 32, resolution = RES_ASCII, hasSign = False\<rparr>]\<rparr>"

definition pgn_GNSS_Control_Status :: Pgn where
  "pgn_GNSS_Control_Status =
     \<lparr>pgn_description = ''GNSS Control Status'', pgn = 129538, known = False, pgn_size = 0, repeatingFields = 0,
      fieldList =
       [\<lparr>fld_name = ''SV Elevation Mask'', fld_size = 16, resolution = 1, hasSign = False\<rparr>,
        \<lparr>fld_name = ''PDOP Mask'', fld_size = 16, resolution = 1 / 100, hasSign = False\<rparr>,
        \<lparr>fld_name = ''PDOP Switch'', fld_size = 16, resolution = 1 / 100, hasSign = False\<rparr>,
        \<lparr>fld_name = ''SNR Mask'', fld_size = 16, resolution = 1 / 100, hasSign = False\<rparr>,
        \<lparr>fld_name = ''GNSS Mode (desired)'', fld_size = 3, resolution = RES_LOOKUP, hasSign = False\<rparr>,
        \<lparr>fld_name = ''DGNSS Mode (desired)'', fld_size = 3, resolution = RES_LOOKUP, hasSign = False\<rparr>,
        \<lparr>fld_name = ''Position/Velocity Filter'', fld_size = 2, resolution = 1, hasSign = False\<rparr>,
        \<lparr>fld_name = ''Max Correction Age'', fld_size = 16, resolution = 1, hasSign = False\<rparr>,
        \<lparr>fld_name = ''Antenna Altitude for 2D Mode'', fld_size = 16, resolution = 1 / 100, hasSign = False\<rparr>,
        \<lparr>fld_name = ''Use Antenna Altitude for 2D Mode'', fld_size = 2, resolution = RES_LOOKUP, hasSign = False\<rparr>]\<rparr>"

definition pgn_GNSS_DOPs :: Pgn where
  "pgn_GNSS_DOPs =
     \<lparr>pgn_description = ''GNSS DOPs'', pgn = 129539, known = True, pgn_size = 8, repeatingFields = 0,
      fieldList =
       [\<lparr>fld_name = ''SID'', fld_size = 8, resolution = 1, hasSign = False\<rparr>,
        \<lparr>fld_name = ''Desired Mode'', fld_size = 3, resolution = RES_LOOKUP, hasSign = False\<rparr>,
        \<lparr>fld_name = ''Actual Mode'', fld_size = 3, resolution = RES_LOOKUP, hasSign = False\<rparr>,
        \<lparr>fld_name = ''Reserved'', fld_size = 2, resolution = RES_BINARY, hasSign = False\<rparr>,
        \<lparr>fld_name = ''HDOP'', fld_size = 16, resolution = 1 / 100, hasSign = True\<rparr>,
        \<lparr>fld_name = ''VDOP'', fld_size = 16, resolution = 1 / 100, hasSign = True\<rparr>,
        \<lparr>fld_name = ''TDOP'', fld_size = 16, resolution = 1 / 100, hasSign = False\<rparr>]\<rparr>"

definition pgn_GNSS_Sats_in_View :: Pgn where
  "pgn_GNSS_Sats_in_View =
     \<lparr>pgn_description = ''GNSS Sats in View'', pgn = 129540, known = True, pgn_size = 255, repeatingFields = 7,
      fieldList =
       [\<lparr>fld_name = ''SID'', fld_size = 8, resolution = 1, hasSign = False\<rparr>,
        \<lparr>fld_name = ''Mode'', fld_size = 2, resolution = RES_LOOKUP, hasSign = False\<rparr>,
        \<lparr>fld_name = ''Reserved'', fld_size = 6, resolution = RES_BINARY, hasSign = False\<rparr>,
        \<lparr>fld_name = ''Sats in View'', fld_size = 8, resolution = 1, hasSign = False\<rparr>,
        \<lparr>fld_name = ''PRN'', fld_size = 8, resolution = 1, hasSign = False\<rparr>,
        \<lparr>fld_name = ''Elevation'', fld_size = 16, resolution = 1 / 10000, hasSign = False\<rparr>,
        \<lparr>fld_name = ''Azimuth'', fld_size = 16, resolution = 1 / 10000, hasSign = False\<rparr>,
        \<lparr>fld_name = ''SNR'', fld_size = 16, resolution = 1 / 100, hasSign = False\<rparr>,
        \<lparr>fld_name = ''Range residuals'', fld_size = 32, resolution = 1, hasSign = True\<rparr>,
        \<lparr>fld_name = ''Status'', fld_size = 4, resolution = RES_LOOKUP, hasSign = False\<rparr>,
        \<lparr>fld_name = ''Reserved'', fld_size = 4, resolution = RES_BINARY, hasSign = False\<rparr>]\<rparr>"

definition pgn_Wind_Data :: Pgn where
  "pgn_Wind_Data =
     \<lparr>pgn_description = ''Wind Data'', pgn = 130306, known = True, pgn_size = 6, repeatingFields = 0,
      fieldList =
       [\<lparr>fld_name = ''SID'', fld_size = 8, resolution = 1, hasSign = False\<rparr>,
        \<lparr>fld_name = ''Wind Speed'', fld_size = 16, resolution = 1 / 100, hasSign = False\<rparr>,
        \<lparr>fld_name = ''Wind Angle'', fld_size = 16, resolution = 1 / 10000, hasSign = False\<rparr>,
        \<lparr>fld_name = ''Reference'', fld_size = 3, resolution = RES_LOOKUP, hasSign = False\<rparr>]\<rparr>"

definition pgn_Environmental_Parameters :: Pgn where
  "pgn_Environmental_Parameters =
     \<lparr>pgn_description = ''Environmental Parameters'', pgn = 130310, known = True, pgn_size = 7, repeatingFields = 0,
      fieldList =
       [\<lparr>fld_name = ''SID'', fld_size = 8, resolution = 1, hasSign = False\<rparr>,
        \<lparr>fld_name = ''Water Temperature'', fld_size = 16, resolution = RES_TEMPERATURE, hasSign = False\<rparr>,
        \<lparr>fld_name = ''Outside Ambient Air Temperature'', fld_size = 16, resolution = RES_TEMPERATURE, hasSign = False\<rparr>,
        \<lparr>fld_name = ''Atmospheric Pressure'', fld_size = 16, resolution = RES_PRESSURE, hasSign = False\<rparr>]\<rparr>"

definition pgn_Environmental_Parameters_2 :: Pgn where
  "pgn_Environmental_Parameters_2 =
     \<lparr>pgn_description = ''Environmental Parameters'', pgn = 130311, known = True, pgn_size = 8, repeatingFields = 0,
      fieldList =
       [\<lparr>fld_name = ''SID'', fld_size = 8, resolution = 1, hasSign = False\<rparr>,
        \<lparr>fld_name = ''Temperature Source'', fld_size = 6, resolution = RES_LOOKUP, hasSign = False\<rparr>,
        \<lparr>fld_name = ''Humidity Source'', fld_size = 2, resolution = RES_LOOKUP, hasSign = False\<rparr>,
        \<lparr>fld_name = ''Temperature'', fld_size = 16, resolution = RES_TEMPERATURE, hasSign = False\<rparr>,
        \<lparr>fld_name = ''Humidity'', fld_size = 16, resolution = 1 / 250, hasSign = True\<rparr>,
        \<lparr>fld_name = ''Atmospheric Pressure'', fld_size = 16, resolution = RES_PRESSURE, hasSign = False\<rparr>]\<rparr>"

definition pgn_Temperature :: Pgn where
  "pgn_Temperature =
     \<lparr>pgn_description = ''Temperature'', pgn = 130312, known = True, pgn_size = 8, repeatingFields = 0,
      fieldList =
       [\<lparr>fld_name = ''SID'', fld_size = 8, resolution = 1, hasSign = False\<rparr>,
        \<lparr>fld_name = ''Temperature Instance'', fld_size = 8, resolution = 1, hasSign = False\<rparr>,
        \<lparr>fld_name = ''Temperature Source'', fld_size = 8, resolution = RES_LOOKUP, hasSign = False\<rparr>,
        \<lparr>fld_name = ''Actual Temperature'', fld_size = 16, resolution = RES_TEMPERATURE, hasSign = False\<rparr>,
        \<lparr>fld_name = ''Set Temperature'', fld_size = 16, resolution = RES_TEMPERATURE, hasSign = False\<rparr>]\<rparr>"

definition pgn_Humidity :: Pgn where
  "pgn_Humidity =
     \<lparr>pgn_description = ''Humidity'', pgn = 130313, known = True, pgn_size = 8, repeatingFields = 0,
      fieldList =
       [\<lparr>fld_name = ''SID'', fld_size = 8, resolution = 1, hasSign = False\<rparr>,
        \<lparr>fld_name = ''Humidity Instance'', fld_size = 8, resolution = 1, hasSign = False\<rparr>,
        \<lparr>fld_name = ''Humidity Source'', fld_size = 8, resolution = RES_LOOKUP, hasSign = False\<rparr>,
        \<lparr>fld_name = ''Actual Humidity'', fld_size = 16, resolution = 1 / 250, hasSign = True\<rparr>,
        \<lparr>fld_name = ''Set Humidity'', fld_size = 16, resolution = 1 / 250, hasSign = True\<rparr>]\<rparr>"

definition pgn_Actual_Pressure :: Pgn where
  "pgn_Actual_Pressure =
     \<lparr>pgn_description = ''Actual Pressure'', pgn = 130314, known = False, pgn_size = 8, repeatingFields = 0,
      fieldList =
       [\<lparr>fld_name = ''SID'', fld_size = 8, resolution = 1, hasSign = False\<rparr>,
        \<lparr>fld_name = ''Pressure Instance'', fld_size = 8, resolution = 1, hasSign = False\<rparr>,
        \<lparr>fld_name = ''Pressure Source'', fld_size = 8, resolution = RES_LOOKUP, hasSign = False\<rparr>,
        \<lparr>fld_name = ''Pressure'', fld_size = 32, resolution = RES_PRESSURE_HIRES, hasSign = False\<rparr>]\<rparr>"

definition pgn_GNSS_Position_Data :: Pgn where
  "pgn_GNSS_Position_Data =
     \<lparr>pgn_description = ''GNSS Position Data'', pgn = 129029, known = True, pgn_size = 51, repeatingFields = 3,
      fieldList =
       [\<lparr>fld_name = ''SID'', fld_size = 8, resolution = 1, hasSign = False\<rparr>,
        \<lparr>fld_name = ''Date'', fld_size = 16, resolution = RES_DATE, hasSign = False\<rparr>,
        \<lparr>fld_name = ''Time'', fld_size = 32, resolution = RES_TIME, hasSign = False\<rparr>,
        \<lparr>fld_name = ''Latitude'', fld_size = 64, resolution = RES_LATITUDE, hasSign = True\<rparr>,
        \<lparr>fld_name = ''Longitude'', fld_size = 64, resolution = RES_LONGITUDE, hasSign = True\<rparr>,
        \<lparr>fld_name = ''Altitude'', fld_size = 64, resolution = 1 / 1000000, hasSign = True\<rparr>,
        \<lparr>fld_name = ''GNSS type'', fld_size = 4, resolution = RES_LOOKUP, hasSign = False\<rparr>,
        \<lparr>fld_name = ''Method'', fld_size = 4, resolution = RES_LOOKUP, hasSign = False\<rparr>,
        \<lparr>fld_name = ''Integrity'', fld_size = 2, resolution = RES_LOOKUP, hasSign = False\<rparr>,
        \<lparr>fld_name = ''Reserved'', fld_size = 6, resolution = RES_BINARY, hasSign = False\<rparr>,
        \<lparr>fld_name = ''Number of SVs'', fld_size = 8, resolution = 1, hasSign = False\<rparr>,
        \<lparr>fld_name = ''HDOP'', fld_size = 16, resolution = 1 / 100, hasSign = True\<rparr>,
        \<lparr>fld_name = ''PDOP'', fld_size = 16, resolution = 1 / 100, hasSign = True\<rparr>,
        \<lparr>fld_name = ''Geoidal Separation'', fld_size = 16, resolution = 1 / 100, hasSign = True\<rparr>,
        \<lparr>fld_name = ''Reference Stations'', fld_size = 8, resolution = 1, hasSign = False\<rparr>,
        \<lparr>fld_name = ''Reference Station Type'', fld_size = 4, resolution = RES_LOOKUP, hasSign = False\<rparr>,
        \<lparr>fld_name = ''Reference Station ID'', fld_size = 12, resolution = 1, hasSign = False\<rparr>,
        \<lparr>fld_name = ''Age of DGNSS Corrections'', fld_size = 16, resolution = 1 / 100, hasSign = False\<rparr>]\<rparr>"

definition pgnList :: "Pgn list" where
  "pgnList =
    [pgn_System_Time, pgn_Configuration_Information, pgn_Vessel_Heading, pgn_Rate_of_Turn, 
     pgn_Analog_Read, pgn_PWM_Write, pgn_Debug_SCAMP1, pgn_Debug_SCAMP2, 
     pgn_Ballast_State, pgn_Sailbot_State, pgn_Connection_Status, pgn_Battery_Voltage, 
     pgn_Attitude, pgn_Magnetic_Variation, pgn_Position_Rapid_Update, 
     pgn_COG_SOG_Rapid_Update, pgn_Time_Date, pgn_Datum, pgn_GNSS_Control_Status, 
     pgn_GNSS_DOPs, pgn_GNSS_Sats_in_View, pgn_Wind_Data, pgn_Environmental_Parameters, 
     pgn_Environmental_Parameters_2, pgn_Temperature, pgn_Humidity, pgn_Actual_Pressure, 
     pgn_GNSS_Position_Data]"

lemmas RES_defs = RES_ASCII_def RES_LATITUDE_def RES_LONGITUDE_def RES_DATE_def RES_TIME_def
  RES_TEMPERATURE_def RES_INTEGER_def RES_LOOKUP_def RES_BINARY_def RES_PRESSURE_def
  RES_PRESSURE_HIRES_def

lemmas pgn_defs = pgn_System_Time_def pgn_Configuration_Information_def pgn_Vessel_Heading_def 
  pgn_Rate_of_Turn_def pgn_Analog_Read_def pgn_PWM_Write_def pgn_Debug_SCAMP1_def 
  pgn_Debug_SCAMP2_def pgn_Ballast_State_def pgn_Sailbot_State_def 
  pgn_Connection_Status_def pgn_Battery_Voltage_def pgn_Attitude_def 
  pgn_Magnetic_Variation_def pgn_Position_Rapid_Update_def pgn_COG_SOG_Rapid_Update_def 
  pgn_Time_Date_def pgn_Datum_def pgn_GNSS_Control_Status_def pgn_GNSS_DOPs_def 
  pgn_GNSS_Sats_in_View_def pgn_Wind_Data_def pgn_Environmental_Parameters_def 
  pgn_Environmental_Parameters_2_def pgn_Temperature_def pgn_Humidity_def 
  pgn_Actual_Pressure_def pgn_GNSS_Position_Data_def

end
