(* ===== verification/Can.thy ===== *)
theory Can
  imports Can_Table
begin

text \<open>
  The CAN bus node: identifiers (\<^verbatim>\<open>can/pgn.cc\<close>), extraction of bit fields, decoding of received
  frames into protobuf messages, reassembly of fast packets, and encoding of outgoing
  messages (\<^verbatim>\<open>can/can.cc\<close>).
\<close>

section \<open>Identifiers\<close>

record CANID =
  id_source :: byte
  id_PS :: byte
  id_PF :: byte
  id_DP :: "1 word"
  id_reserved :: "1 word"
  id_priority :: "3 word"
  id_unused :: "2 word"
  id_eff :: "1 word"

text \<open>
  The casts between the bit-field structure and \<^verbatim>\<open>uint32_t\<close>: members in the order of their
  declaration, from the least significant bit upwards.
\<close>

definition ConstructID :: "CANID \<Rightarrow> 32 word" where
  "ConstructID i =
     ucast (id_source i) OR push_bit 8 (ucast (id_PS i)) OR push_bit 16 (ucast (id_PF i)) OR
     push_bit 24 (ucast (id_DP i)) OR push_bit 25 (ucast (id_reserved i)) OR
     push_bit 26 (ucast (id_priority i)) OR push_bit 29 (ucast (id_unused i)) OR
     push_bit 31 (ucast (id_eff i))"

definition RetrieveID :: "32 word \<Rightarrow> CANID" where
  "RetrieveID raw =
     \<lparr>id_source = ucast raw, id_PS = ucast (drop_bit 8 raw), id_PF = ucast (drop_bit 16 raw),
      id_DP = ucast (drop_bit 24 raw), id_reserved = ucast (drop_bit 25 raw),
      id_priority = ucast (drop_bit 26 raw), id_unused = ucast (drop_bit 29 raw),
      id_eff = ucast (drop_bit 31 raw)\<rparr>"

definition GetPGN :: "CANID \<Rightarrow> 32 word" where
  "GetPGN i = push_bit 16 (ucast (id_DP i)) + push_bit 8 (ucast (id_PF i)) +
     (if id_PF i < 240 then 0 else ucast (id_PS i))"

definition SetPGN :: "CANID \<Rightarrow> 32 word \<Rightarrow> CANID" where
  "SetPGN i n =
     (let low = ucast (n AND 0xFF);
          n1 = signed_drop_bit 8 n;
          i1 = i\<lparr>id_PF := ucast (n1 AND 0xFF)\<rparr>;
          n2 = signed_drop_bit 8 n1;
          i2 = i1\<lparr>id_DP := ucast (n2 AND 0x01)\<rparr>
      in if id_PF i2 \<ge> 240 then i2\<lparr>id_PS := low\<rparr> else i2)"

section \<open>Fields\<close>

text \<open>
  The difference is taken in unbounded integers.  In the source it is one of 64-bit integers, which can overflow for a negative value in a field of 64 bits only.
\<close>

definition IsReserved :: "int \<Rightarrow> int \<Rightarrow> bool" where
  "IsReserved val maxval \<longleftrightarrow>
     (maxval \<ge> 15 \<and> maxval - val \<le> 2) \<or> (maxval > 1 \<and> maxval - val \<le> 1) \<or> maxval = val"

text \<open>
  The loop of \<^verbatim>\<open>ExtractNumberField\<close>: \<open>idx\<close> is how far \<^verbatim>\<open>data\<close> has advanced.  The first bit is
  below 8 whenever the loop is entered, which is the second exit condition here.
\<close>

definition field_mask :: "nat \<Rightarrow> nat \<Rightarrow> byte" where
  "field_mask end_gap start_bit = ucast (drop_bit end_gap (0xFF :: 32 word) AND push_bit start_bit 0xFF)"

function extract_loop :: "bytes \<Rightarrow> nat \<Rightarrow> nat \<Rightarrow> nat \<Rightarrow> nat \<Rightarrow> 64 word \<Rightarrow> 64 word \<Rightarrow> (64 word \<times> 64 word \<times> nat) res" where
  "extract_loop data idx start_bit bits_left magnitude retval maxval =
     (if bits_left = 0 \<or> 8 \<le> start_bit then Inr (retval, maxval, magnitude)
      else let byte_bits = min (8 - start_bit) bits_left;
               end_gap = 8 - byte_bits - start_bit;
               mask = field_mask end_gap start_bit
           in bindr (nth_checked data idx) (\<lambda>b.
                if 64 \<le> magnitude then Inl BadShift
                else let cur_val = push_bit magnitude (drop_bit start_bit (ucast (mask AND b)))
                     in extract_loop data (Suc idx) 0 (bits_left - byte_bits) (magnitude + byte_bits)
                          (retval + cur_val) (push_bit byte_bits maxval + ucast (drop_bit start_bit mask))))"
  by auto
termination
  by (relation "measure (\<lambda>(data, idx, sb, bits, rest). bits)") auto

declare extract_loop.simps [simp del]

definition ExtractNumberField :: "Field \<Rightarrow> bytes \<Rightarrow> nat \<Rightarrow> (64 word \<times> 64 word) res" where
  "ExtractNumberField f data start_bit =
     bindr (extract_loop data (start_bit div 8) (start_bit mod 8) (fld_size f) 0 0 0)
       (\<lambda>(retval, maxval, magnitude).
          if hasSign f
          then (if magnitude = 0 then Inl BadShift
                else let maxval' = signed_drop_bit 1 maxval
                     in Inr (if signed_drop_bit (magnitude - 1) retval \<noteq> 0 then retval OR NOT maxval' else retval,
                             maxval'))
          else Inr (retval, maxval))"

section \<open>Protobuf fields\<close>

text \<open>
  The type of a field in the generated message and what is stored in it; a message is the map
  of the fields that are set.  The descriptor is generated code and a parameter.
\<close>

datatype ptype = T_double | T_float | T_bool | T_enum | T_int32 | T_int64 | T_uint32 | T_uint64 | T_other

datatype pval = PReal real | PBool bool | PInt int

type_synonym pmsg = "nat \<Rightarrow> pval option"

definition SetProtoNumberField :: "(nat \<Rightarrow> ptype option) \<Rightarrow> pmsg \<Rightarrow> nat \<Rightarrow> real \<Rightarrow> pmsg res" where
  "SetProtoNumberField descriptor m field_num val =
     (case descriptor field_num of
        None \<Rightarrow> Inr m
      | Some T_double \<Rightarrow> Inr (m(field_num \<mapsto> PReal val))
      | Some T_float \<Rightarrow> Inr (m(field_num \<mapsto> PReal val))
      | Some T_bool \<Rightarrow> Inr (m(field_num \<mapsto> PBool (val \<noteq> 0)))
      | Some T_enum \<Rightarrow> bindr (to_int32 val) (\<lambda>n. Inr (m(field_num \<mapsto> PInt n)))
      | Some T_int32 \<Rightarrow> bindr (to_int32 val) (\<lambda>n. Inr (m(field_num \<mapsto> PInt n)))
      | Some T_int64 \<Rightarrow> bindr (to_int64 val) (\<lambda>n. Inr (m(field_num \<mapsto> PInt n)))
      | Some T_uint32 \<Rightarrow> bindr (to_uint32 val) (\<lambda>n. Inr (m(field_num \<mapsto> PInt n)))
      | Some T_uint64 \<Rightarrow> bindr (to_uint64 val) (\<lambda>n. Inr (m(field_num \<mapsto> PInt n)))
      | Some T_other \<Rightarrow> Inr m)"

text \<open>An unset field reads as its default, zero.\<close>

definition GetProtoNumberField :: "ptype \<Rightarrow> pval option \<Rightarrow> real" where
  "GetProtoNumberField t v =
     (if t = T_other then 0
      else case v of None \<Rightarrow> 0 | Some (PReal x) \<Rightarrow> x | Some (PBool b) \<Rightarrow> of_bool b | Some (PInt n) \<Rightarrow> of_int n)"

definition GetProtoNumberFieldById :: "(nat \<Rightarrow> ptype option) \<Rightarrow> pmsg \<Rightarrow> nat \<Rightarrow> real" where
  "GetProtoNumberFieldById descriptor m num =
     (case descriptor num of None \<Rightarrow> 0 | Some t \<Rightarrow> GetProtoNumberField t (m num))"

section \<open>Decoding\<close>

text \<open>A little-endian number of \<open>n\<close> bytes, read with \<^verbatim>\<open>memcpy\<close>.\<close>

definition read_le :: "bytes \<Rightarrow> nat \<Rightarrow> nat \<Rightarrow> int res" where
  "read_le data off n =
     (if off + n \<le> length data then Inr (le_value (take n (drop off data))) else Inl OutOfBounds)"

definition to_signed :: "nat \<Rightarrow> int \<Rightarrow> int" where
  "to_signed w v = (if v < 2 ^ (w - 1) then v else v - 2 ^ w)"

definition decode_lat_lon :: "Field \<Rightarrow> bytes \<Rightarrow> nat \<Rightarrow> (real \<times> bool) res" where
  "decode_lat_lon f data cur_bit =
     (if cur_bit mod 8 \<noteq> 0 then Inr (0, False)
      else if fld_size f = 32
           then bindr (read_le data (cur_bit div 8) 4) (\<lambda>v.
                  let short_val = to_signed 32 v
                  in Inr (of_int short_val * (1 / 10 ^ 7), IsReserved short_val ((2 ^ 32 - 1) div 2)))
      else if fld_size f = 64
           then bindr (read_le data (cur_bit div 8) 8) (\<lambda>v.
                  let int_val = to_signed 64 v
                  in Inr (of_int int_val * (1 / 10 ^ 16), IsReserved int_val (2 ^ 63 - 1)))
      else Inr (0, False))"

definition decode_field :: "(nat \<Rightarrow> ptype option) \<Rightarrow> bytes \<Rightarrow> nat \<Rightarrow> nat \<Rightarrow> Field \<Rightarrow> pmsg \<Rightarrow> pmsg res" where
  "decode_field descriptor data cur_bit i f m =
     (let res = resolution f
      in if res > 0
         then bindr (ExtractNumberField f data cur_bit) (\<lambda>(val, max_val).
                if IsReserved (sint val) (sint max_val) then Inr m
                else SetProtoNumberField descriptor m (i + 1) (of_int (sint val) * res))
         else if res < 0
         then (if res = RES_LATITUDE \<or> res = RES_LONGITUDE
               then bindr (decode_lat_lon f data cur_bit) (\<lambda>(val, reserved).
                      if reserved then Inr m else SetProtoNumberField descriptor m (i + 1) val)
               else if res = RES_DATE
               then bindr (read_le data (cur_bit div 8) 2) (\<lambda>days.
                      SetProtoNumberField descriptor m (i + 1) (of_int days))
               else if res = RES_TIME
               then bindr (read_le data (cur_bit div 8) 4) (\<lambda>secs.
                      SetProtoNumberField descriptor m (i + 1) (of_int secs))
               else if res = RES_LOOKUP
               then bindr (ExtractNumberField f data cur_bit) (\<lambda>(val, max_val).
                      if IsReserved (sint val) (sint max_val) then Inr m
                      else SetProtoNumberField descriptor m (i + 1) (of_int (sint val)))
               else Inr m)
         else Inr m)"

fun decode_fields :: "(nat \<Rightarrow> ptype option) \<Rightarrow> bytes \<Rightarrow> nat \<Rightarrow> nat \<Rightarrow> Field list \<Rightarrow> pmsg \<Rightarrow> pmsg res" where
  "decode_fields descriptor data cur_bit i [] m = Inr m"
| "decode_fields descriptor data cur_bit i (f # fs) m =
     bindr (decode_field descriptor data cur_bit i f m)
       (decode_fields descriptor data (cur_bit + fld_size f) (Suc i) fs)"

record CANMessage =
  cm_pgn :: Pgn
  is_long :: bool
  cm_len :: nat
  cm_base :: byte
  cm_data :: bytes
  store_msg :: pmsg
  store_outgoing :: bool

definition CANMessage_new :: "Pgn \<Rightarrow> CANMessage" where
  "CANMessage_new p =
     \<lparr>cm_pgn = p, is_long = (pgn_size p > 8), cm_len = pgn_size p, cm_base = 0,
      cm_data = replicate ((pgn_size p div 8 + 1) * 8) 0, store_msg = Map.empty, store_outgoing = True\<rparr>"

text \<open>
  \<open>store_outgoing\<close> is the flag of the message that says whether it is to be put on the bus; it is
  true when it was never set.  The nodes that produce messages for the bus leave it or set it to
  true, and a message that was decoded has it cleared.
\<close>

text \<open>
  The text of the data in a buffer of 128 characters: each byte takes at least four and at
  most five characters; when the room runs out, the unsigned count wraps around and the next
  write leaves the buffer.
\<close>

definition hex_chars :: "byte \<Rightarrow> nat" where
  "hex_chars b = (if b < 16 then 4 else 5)"

fun debug_dump :: "bytes \<Rightarrow> nat \<Rightarrow> unit res" where
  "debug_dump [] debug_size = Inr ()"
| "debug_dump (b # bs) debug_size =
     (if hex_chars b \<le> debug_size then debug_dump bs (debug_size - hex_chars b)
      else if bs = [] then Inr () else Inl OutOfBounds)"

text \<open>Decoding a message and what is sent on the message's queue.\<close>

definition DecodeAndSend :: "(nat \<Rightarrow> nat \<Rightarrow> ptype option) \<Rightarrow> CANMessage \<Rightarrow> (CANMessage \<times> pmsg) res" where
  "DecodeAndSend descriptors msg =
     (let n = (cm_len msg + 7) div 8
      in if length (cm_data msg) < n then Inl OutOfBounds
         else bindr (debug_dump (take n (cm_data msg)) 128) (\<lambda>_.
              bindr (decode_fields (descriptors (pgn (cm_pgn msg))) (cm_data msg) 0 0
                       (fieldList (cm_pgn msg)) (store_msg msg)) (\<lambda>m.
                Inr (msg\<lparr>store_msg := m, store_outgoing := False\<rparr>, m))))"

section \<open>Receiving frames\<close>

record can_frame =
  can_id :: "32 word"
  can_dlc :: nat
  frame_data :: bytes

text \<open>
  The read loop: each turn looks at the shutdown flag and then reads, which may fail.  A node
  that is shut down goes on with a frame that was never read.
\<close>

fun read_frame :: "(bool \<times> can_frame option) list \<Rightarrow> can_frame option res" where
  "read_frame [] = Inr None"
| "read_frame ((shutdown, r) # turns) =
     (if shutdown then Inl Uninitialised
      else case r of None \<Rightarrow> read_frame turns | Some f \<Rightarrow> Inr (Some f))"

text \<open>Copying \<open>n\<close> bytes of the frame, counted without sign.\<close>

function copy_loop :: "bytes \<Rightarrow> nat \<Rightarrow> bytes \<Rightarrow> nat \<Rightarrow> nat \<Rightarrow> nat \<Rightarrow> bytes res" where
  "copy_loop dst data_start src off i n =
     (if i < n
      then bindr (nth_checked src (off + i)) (\<lambda>b.
           bindr (update_checked dst (data_start + i) b) (\<lambda>dst'.
             copy_loop dst' data_start src off (Suc i) n))
      else Inr dst)"
  by auto
termination
  by (relation "measure (\<lambda>(dst, ds, src, off, i, n). n - i)") auto

declare copy_loop.simps [simp del]

definition size_dec :: "nat \<Rightarrow> nat" where
  "size_dec n = (if n = 0 then 2 ^ 64 - 1 else n - 1)"

type_synonym can_msgs = "nat \<Rightarrow> CANMessage option"

definition receive_frame :: "CANMessage \<Rightarrow> can_frame \<Rightarrow> (CANMessage \<times> bool) res" where
  "receive_frame msg frame =
     bindr (nth_checked (frame_data frame) 0) (\<lambda>d0.
       let index = unat (d0 AND 0x1F); base = d0 AND 0xE0;
           data_start = (if is_long msg then (if index = 0 then 0 else index * 7 - 1) else 0);
           dlc = (if is_long msg then (if index = 0 then size_dec (size_dec (can_dlc frame)) else size_dec (can_dlc frame))
                  else can_dlc frame);
           off = (if is_long msg then (if index = 0 then 2 else 1) else 0);
           msg1 = (if is_long msg \<and> index = 0 then msg\<lparr>cm_base := base\<rparr> else msg)
       in bindr (copy_loop (cm_data msg1) data_start (frame_data frame) off 0 dlc) (\<lambda>d.
            Inr (msg1\<lparr>cm_data := d\<rparr>, \<not> is_long msg \<or> 8 * (data_start + dlc) \<ge> cm_len msg)))"

definition can_iterate :: "(nat \<Rightarrow> nat \<Rightarrow> ptype option) \<Rightarrow> can_frame \<Rightarrow> can_msgs \<Rightarrow> (can_msgs \<times> (nat \<times> pmsg) option) res" where
  "can_iterate descriptors frame msgs =
     (let p = unat (GetPGN (RetrieveID (can_id frame)))
      in case msgs p of
           None \<Rightarrow> Inr (msgs, None)
         | Some msg \<Rightarrow>
             bindr (receive_frame msg frame) (\<lambda>(msg', at_end).
               if at_end
               then bindr (DecodeAndSend descriptors msg') (\<lambda>(msg'', m). Inr (msgs(p \<mapsto> msg''), Some (p, m)))
               else Inr (msgs(p \<mapsto> msg'), None)))"

text \<open>The messages a node handles: those of the table that have a field in the protobuf message.\<close>

fun CanNode_msgs :: "nat list \<Rightarrow> Pgn list \<Rightarrow> can_msgs \<Rightarrow> can_msgs" where
  "CanNode_msgs numbers [] msgs = msgs"
| "CanNode_msgs numbers (p # ps) msgs =
     CanNode_msgs numbers ps
       (if pgn p \<in> set numbers \<and> msgs (pgn p) = None then msgs(pgn p \<mapsto> CANMessage_new p) else msgs)"

section \<open>Sending\<close>

text \<open>\<open>src\<close> written over \<open>dst\<close> at \<open>off\<close>.\<close>

definition write_at :: "bytes \<Rightarrow> nat \<Rightarrow> bytes \<Rightarrow> bytes res" where
  "write_at dst off src =
     (if off + length src \<le> length dst
      then Inr (take off dst @ src @ drop (off + length src) dst) else Inl OutOfBounds)"

text \<open>Frame data and length after the fields, or nothing for a field that is not whole bytes.\<close>

fun encode_fields :: "(nat \<Rightarrow> ptype option) \<Rightarrow> pmsg \<Rightarrow> nat \<Rightarrow> Field list \<Rightarrow> bytes \<Rightarrow> nat \<Rightarrow> (bytes \<times> nat) option res" where
  "encode_fields descriptor m i [] data dlc = Inr (Some (data, dlc))"
| "encode_fields descriptor m i (f # fs) data dlc =
     (if fld_size f mod 8 \<noteq> 0 then Inr None
      else if resolution f > 0
      then bindr (to_uint64 (GetProtoNumberFieldById descriptor m (i + 1) / resolution f)) (\<lambda>n_wire.
           if fld_size f div 8 > 8 then Inl OutOfBounds
           else bindr (write_at data dlc (le_bytes (fld_size f div 8) n_wire)) (\<lambda>data'.
                  encode_fields descriptor m (Suc i) fs data' ((dlc + fld_size f div 8) mod 256)))
      else encode_fields descriptor m (Suc i) fs data ((dlc + fld_size f div 8) mod 256))"

definition pad_frame :: "bytes \<Rightarrow> nat \<Rightarrow> bytes \<times> nat" where
  "pad_frame data dlc = (take dlc data @ replicate (length data - dlc) 0xFF, max dlc 8)"

text \<open>
  \<open>garbage\<close> is the content of the frame and of the members of the identifier before they are
  assigned; \<open>has_field\<close> tells whether the protobuf message has a field of that number.
\<close>

definition ConstructMessage :: "(nat \<Rightarrow> nat \<Rightarrow> ptype option) \<Rightarrow> (nat \<Rightarrow> bool) \<Rightarrow> pmsg \<Rightarrow> Pgn \<Rightarrow> bytes \<Rightarrow> CANID \<Rightarrow>
    can_frame option res" where
  "ConstructMessage descriptors has_field m p garbage garbage_id =
     (if \<not> has_field (pgn p) then Inr None
      else bindr (encode_fields (descriptors (pgn p)) m 0 (fieldList p) garbage 0) (\<lambda>r.
        case r of
          None \<Rightarrow> Inr None
        | Some (data, dlc) \<Rightarrow>
            (let i0 = garbage_id\<lparr>id_reserved := 0, id_unused := 0, id_eff := 1\<rparr>;
                 i1 = (SetPGN i0 (of_nat (pgn p)))\<lparr>id_priority := 5, id_source := 0x15\<rparr>;
                 (data', dlc') = pad_frame data dlc
             in Inr (Some \<lparr>can_id = ConstructID i1, can_dlc = dlc', frame_data = data'\<rparr>))))"

definition SendMessage :: "(nat \<Rightarrow> nat \<Rightarrow> ptype option) \<Rightarrow> (nat \<Rightarrow> bool) \<Rightarrow> bool \<Rightarrow> pmsg \<Rightarrow> Pgn \<Rightarrow> bytes \<Rightarrow> CANID \<Rightarrow>
    can_frame option res" where
  "SendMessage descriptors has_field outgoing m p garbage garbage_id =
     (if \<not> outgoing then Inr None
      else ConstructMessage descriptors has_field m p garbage garbage_id)"

text \<open>
  No echo: the node also listens to the queues on which it sends what it decodes, but a message
  it has just decoded is not put on the bus again, while one that was never decoded is.
\<close>

lemma decoded_not_sent_again:
  assumes "DecodeAndSend descriptors msg = Inr (msg', m)"
  shows "SendMessage descriptors has_field (store_outgoing msg') m p garbage garbage_id = Inr None"
  using assms by (auto simp: DecodeAndSend_def SendMessage_def Let_def bindr_def split: if_splits sum.splits)

lemma fresh_message_is_sent:
  "SendMessage descriptors has_field (store_outgoing (CANMessage_new p)) m p garbage garbage_id =
     ConstructMessage descriptors has_field m p garbage garbage_id"
  by (simp add: SendMessage_def CANMessage_new_def)

end
