(* ===== verification/Can_Codec.thy ===== *)
theory Can_Codec
  imports Can
begin

text \<open>
  Correctness of the CAN node: identifiers and bit slices, messages across the bus, fast
  packets, and the bounds of decoding the messages of the table.
\<close>

section \<open>Identifiers round-trip\<close>

lemmas id_bits = RetrieveID_def ConstructID_def bit_ucast_iff bit_drop_bit_eq bit_push_bit_iff bit_or_iff

lemma RetrieveID_ConstructID: "RetrieveID (ConstructID i) = i"
proof (rule CANID.equality)
  show "id_source (RetrieveID (ConstructID i)) = id_source i"
    by (rule bit_eqI) (auto simp: id_bits)
  show "id_PS (RetrieveID (ConstructID i)) = id_PS i"
    by (rule bit_eqI) (auto simp: id_bits)
  show "id_PF (RetrieveID (ConstructID i)) = id_PF i"
    by (rule bit_eqI) (auto simp: id_bits)
  show "id_DP (RetrieveID (ConstructID i)) = id_DP i"
    by (rule bit_eqI) (auto simp: id_bits)
  show "id_reserved (RetrieveID (ConstructID i)) = id_reserved i"
    by (rule bit_eqI) (auto simp: id_bits)
  show "id_priority (RetrieveID (ConstructID i)) = id_priority i"
    by (rule bit_eqI) (auto simp: id_bits)
  show "id_unused (RetrieveID (ConstructID i)) = id_unused i"
    by (rule bit_eqI) (auto simp: id_bits)
  show "id_eff (RetrieveID (ConstructID i)) = id_eff i"
    by (rule bit_eqI) (auto simp: id_bits)
qed simp

lemma ConstructID_RetrieveID: "ConstructID (RetrieveID raw) = raw"
proof (rule bit_eqI)
  fix n
  assume "possible_bit TYPE(32 word) n"
  then have "n < 32" by simp
  then consider "n < 8" | "8 \<le> n" "n < 16" | "16 \<le> n" "n < 24" | "n = 24" | "n = 25"
    | "26 \<le> n" "n < 29" | "29 \<le> n" "n < 31" | "n = 31" by linarith
  then show "bit (ConstructID (RetrieveID raw)) n = bit raw n"
    by cases (auto simp: id_bits)
qed

lemma SetPGN_sel:
  "id_PF (SetPGN i n) = ucast (drop_bit 8 n)"
  "id_DP (SetPGN i n) = ucast (drop_bit 16 n)"
  "id_PS (SetPGN i n) = (if ucast (drop_bit 8 n) < (240 :: byte) then id_PS i else ucast n)"
proof -
  have pf: "ucast (signed_drop_bit 8 n AND 0xFF) = (ucast (drop_bit 8 n) :: byte)"
    unfolding masks_32
    by (rule bit_eqI) (auto simp: bit_ucast_iff bit_and_iff bit_drop_bit_eq bit_mask_iff bit_signed_drop_bit_iff)
  have dp: "ucast (signed_drop_bit 8 (signed_drop_bit 8 n) AND 0x01) = (ucast (drop_bit 16 n) :: 1 word)"
    unfolding masks_32
    by (rule bit_eqI) (auto simp: bit_ucast_iff bit_and_iff bit_drop_bit_eq bit_mask_iff bit_signed_drop_bit_iff)
  have dp': "ucast (signed_drop_bit 16 n AND 1) = (ucast (drop_bit 16 n) :: 1 word)"
    using dp by simp
  have low: "ucast (n AND 0xFF) = (ucast n :: byte)"
    unfolding masks_32 by (rule bit_eqI) (auto simp: bit_ucast_iff bit_and_iff bit_mask_iff)
  show "id_PF (SetPGN i n) = ucast (drop_bit 8 n)"
    "id_DP (SetPGN i n) = ucast (drop_bit 16 n)"
    "id_PS (SetPGN i n) = (if ucast (drop_bit 8 n) < (240 :: byte) then id_PS i else ucast n)"
    by (auto simp: SetPGN_def Let_def pf dp' low not_less)
qed

lemma GetPGN_SetPGN:
  "GetPGN (SetPGN i n) = n AND (if ucast (drop_bit 8 n) < (240 :: byte) then 0x1FF00 else 0x1FFFF)"
proof -
  let ?dp = "push_bit 16 (ucast (ucast (drop_bit 16 n) :: 1 word)) :: 32 word"
  let ?pf = "push_bit 8 (ucast (ucast (drop_bit 8 n) :: byte)) :: 32 word"
  let ?ps = "ucast (ucast n :: byte) :: 32 word"
  note bits = bit_ucast_iff bit_and_iff bit_or_iff bit_drop_bit_eq bit_push_bit_iff bit_mask_iff
  have 1: "?dp + ?pf = ?dp OR ?pf"
    by (rule disjunctive_add_eq_or) (rule bit_eqI, auto simp: bits)
  have 2: "(?dp OR ?pf) + ?ps = (?dp OR ?pf) OR ?ps"
    by (rule disjunctive_add_eq_or) (rule bit_eqI, auto simp: bits)
  have 3: "?dp OR ?pf = n AND 0x1FF00"
    unfolding masks_32
  proof (rule bit_eqI)
    fix k
    show "bit (?dp OR ?pf) k = bit (n AND push_bit 8 (mask 9)) k"
      by (cases "k = 16") (auto simp: bits)
  qed
  have 4: "(?dp OR ?pf) OR ?ps = n AND 0x1FFFF"
    unfolding 3 masks_32 by (rule bit_eqI) (auto simp: bits)
  show ?thesis
    unfolding GetPGN_def SetPGN_sel 1 using 2 3 4 by auto
qed

section \<open>Bit slices\<close>

lemma bit_field_mask:
  assumes "sb + bb \<le> 8"
  shows "bit (field_mask (8 - (bb + sb)) sb) k \<longleftrightarrow> sb \<le> k \<and> k < sb + bb"
  using assms unfolding field_mask_def masks_32
  by (auto simp: bit_ucast_iff bit_and_iff bit_drop_bit_eq bit_push_bit_iff bit_mask_iff)

lemma drop_field_mask:
  assumes "sb + bb \<le> 8"
  shows "(ucast (drop_bit sb (field_mask (8 - (bb + sb)) sb)) :: 64 word) = mask bb"
  using assms by (intro bit_eqI)
    (auto simp: bit_ucast_iff bit_drop_bit_eq bit_field_mask bit_mask_iff)

lemma push_mask_add: "push_bit b (mask m) + mask b = (mask (m + b) :: 64 word)"
proof -
  have "push_bit b (mask m) AND mask b = (0 :: 64 word)"
    by (rule bit_eqI) (auto simp: bit_and_iff bit_push_bit_iff bit_mask_iff)
  then have "push_bit b (mask m) + mask b = push_bit b (mask m) OR (mask b :: 64 word)"
    by (rule disjunctive_add_eq_or)
  also have "\<dots> = mask (m + b)"
    by (rule bit_eqI) (auto simp: bit_or_iff bit_push_bit_iff bit_mask_iff)
  finally show ?thesis .
qed

text \<open>The value built so far holds the bits from \<open>s0\<close> on.\<close>

definition slice :: "bytes \<Rightarrow> nat \<Rightarrow> nat \<Rightarrow> 64 word \<Rightarrow> bool" where
  "slice data s0 n w \<longleftrightarrow> (\<forall>i<64. bit w i \<longleftrightarrow> i < n \<and> stream_bit data (s0 + i))"

lemma slice_step:
  assumes "slice data s0 mag w" "sb + bb \<le> 8" "s0 + mag = 8 * idx + sb"
    and "cur = push_bit mag (drop_bit sb (ucast (field_mask (8 - (bb + sb)) sb AND (data ! idx))))"
  shows "slice data s0 (mag + bb) (w + cur)"
proof -
  have cur: "bit cur i \<longleftrightarrow> mag \<le> i \<and> i < mag + bb \<and> stream_bit data (s0 + i)" if "i < 64" for i
  proof (cases "mag \<le> i \<and> i < mag + bb")
    case True
    then have *: "s0 + i = 8 * idx + (sb + (i - mag))" "sb + (i - mag) < 8" using assms(2,3) by auto
    have "(s0 + i) div 8 = idx" "(s0 + i) mod 8 = sb + (i - mag)"
      unfolding *(1) using *(2) by (simp_all add: div_mult_self3)
    with True that assms(2) show ?thesis
      by (auto simp: assms(4) stream_bit_def bit_push_bit_iff bit_drop_bit_eq bit_ucast_iff bit_and_iff
          bit_field_mask)
  next
    case False
    with that assms(2) show ?thesis
      by (auto simp: assms(4) bit_push_bit_iff bit_drop_bit_eq bit_ucast_iff bit_and_iff bit_field_mask)
  qed
  have "w AND cur = 0"
    by (rule bit_eqI) (use assms(1) cur in \<open>auto simp: bit_and_iff slice_def\<close>)
  then have "w + cur = w OR cur" by (rule disjunctive_add_eq_or)
  with assms(1) cur show ?thesis by (auto simp: slice_def bit_or_iff)
qed

lemma extract_loop_slice:
  assumes "sb < 8" "s0 + mag = 8 * idx + sb" "mag + bits \<le> 64" "s0 + mag + bits \<le> 8 * length data"
    and "slice data s0 mag w"
  shows "\<exists>w'. extract_loop data idx sb bits mag w (mask mag) = Inr (w', mask (mag + bits), mag + bits) \<and>
    slice data s0 (mag + bits) w'"
  using assms
proof (induction bits arbitrary: idx sb mag w rule: less_induct)
  case (less bits)
  show ?case
  proof (cases "bits = 0")
    case True
    with less.prems(5) show ?thesis by (simp add: extract_loop.simps)
  next
    case False
    define bb where "bb = min (8 - sb) bits"
    have bb: "sb + bb \<le> 8" "0 < bb" "bb \<le> bits" using less.prems(1) False by (auto simp: bb_def)
    have idx: "idx < length data" using less.prems False by simp
    define cur :: "64 word" where
      "cur = push_bit mag (drop_bit sb (ucast (field_mask (8 - (bb + sb)) sb AND (data ! idx))))"
    have "extract_loop data idx sb bits mag w (mask mag) =
        extract_loop data (Suc idx) 0 (bits - bb) (mag + bb) (w + cur) (mask (mag + bb))"
      using less.prems False idx
      by (subst extract_loop.simps)
        (simp add: Let_def drop_field_mask [OF bb(1)] push_mask_add cur_def flip: bb_def)
    moreover have "s0 + (mag + bb) = 8 * Suc idx + 0 \<or> bits - bb = 0"
      using less.prems(1,2) by (auto simp: bb_def min_def)
    moreover have "slice data s0 (mag + bb) (w + cur)"
      using less.prems(5) bb(1) less.prems(2) cur_def by (rule slice_step)
    ultimately show ?thesis
      using less.IH [of "bits - bb" 0 "mag + bb" "Suc idx" "w + cur"] less.prems bb
      by (cases "bits - bb = 0") (auto simp: extract_loop.simps)
  qed
qed

text \<open>
  A field of the message, sign-extended if it has a sign.
\<close>

lemma extract_field_bits:
  assumes "0 < fld_size f" "fld_size f \<le> 64" "start + fld_size f \<le> 8 * length data"
  shows "\<exists>v. ExtractNumberField f data start = Inr (v,
      if hasSign f then signed_drop_bit 1 (mask (fld_size f)) else mask (fld_size f)) \<and>
    (\<forall>i<64. bit v i \<longleftrightarrow> (if i < fld_size f then stream_bit data (start + i)
        else hasSign f \<and> stream_bit data (start + fld_size f - 1)))"
proof -
  let ?n = "fld_size f"
  obtain w where w: "extract_loop data (start div 8) (start mod 8) ?n 0 0 0 = Inr (w, mask ?n, ?n)"
    "slice data start ?n w"
    using extract_loop_slice [of "start mod 8" start 0 "start div 8" ?n data 0] assms
    by (auto simp: slice_def)
  show ?thesis
  proof (cases "hasSign f")
    case False
    with w show ?thesis by (auto simp: ExtractNumberField_def slice_def)
  next
    case True
    define mv :: "64 word" where "mv = signed_drop_bit 1 (mask ?n)"
    have mv: "bit mv i \<longleftrightarrow> i < ?n - 1 \<or> ?n = 64" if "i < 64" for i
      using that assms(1,2) by (auto simp: mv_def bit_signed_drop_bit_iff bit_mask_iff)
    have top: "signed_drop_bit (?n - 1) w \<noteq> 0 \<longleftrightarrow> stream_bit data (start + ?n - 1)"
    proof -
      have "bit (signed_drop_bit (?n - 1) w) i \<longleftrightarrow> bit w (?n - 1) \<and> (i = 0 \<or> ?n = 64)" if "i < 64" for i
        using w(2) that assms(1,2) by (cases "i = 0"; cases "?n = 64") (auto simp: bit_signed_drop_bit_iff slice_def)
      moreover have "bit w (?n - 1) \<longleftrightarrow> stream_bit data (start + ?n - 1)"
        using w(2) assms(1,2) by (simp add: slice_def)
      ultimately have "bit (signed_drop_bit (?n - 1) w) i \<longleftrightarrow> stream_bit data (start + ?n - 1) \<and> (i = 0 \<or> ?n = 64)"
        if "i < 64" for i using that by simp
      then have "stream_bit data (start + ?n - 1) \<Longrightarrow> bit (signed_drop_bit (?n - 1) w) 0"
        and "\<not> stream_bit data (start + ?n - 1) \<Longrightarrow> signed_drop_bit (?n - 1) w = 0"
        by (simp, intro bit_word_eqI) (simp add: word_size)
      then show ?thesis by (metis bit_0_eq bot_apply bot_bool_def)
    qed
    have res: "ExtractNumberField f data start =
        Inr (if signed_drop_bit (?n - 1) w \<noteq> 0 then w OR NOT mv else w, mv)"
      using True w(1) assms(1) by (simp add: ExtractNumberField_def Let_def mv_def)
    have "bit (if signed_drop_bit (?n - 1) w \<noteq> 0 then w OR NOT mv else w) i \<longleftrightarrow>
        (if i < ?n then stream_bit data (start + i) else stream_bit data (start + ?n - 1))" if "i < 64" for i
    proof -
      have w_i: "bit w i \<longleftrightarrow> i < ?n \<and> stream_bit data (start + i)" using w(2) that by (simp add: slice_def)
      have last: "i < ?n \<Longrightarrow> \<not> i < ?n - 1 \<Longrightarrow> start + ?n - 1 = start + i" using assms(1) by linarith
      show ?thesis
        using that assms mv [OF that] w_i last unfolding top
        by (cases "i < ?n - 1"; cases "i < ?n"; cases "?n = 64") (auto simp: bit_or_iff bit_not_iff)
    qed
    with True res show ?thesis by (auto simp: mv_def)
  qed
qed

section \<open>Numbers in bytes\<close>






lemma sint_word_small:
  assumes "0 \<le> n" "n < 2 ^ 63"
  shows "sint (word_of_int n :: 64 word) = n"
proof -
  have "sint (word_of_int n :: 64 word) = signed_take_bit 63 n"
    by (simp add: signed_of_int)
  with assms show ?thesis by (simp add: signed_take_bit_int_eq_self)
qed

lemma sint_mask: "n < 64 \<Longrightarrow> sint (mask n :: 64 word) = 2 ^ n - 1"
proof -
  assume n: "n < 64"
  then have "(2 :: int) ^ n \<le> 2 ^ 63" by (intro power_increasing) auto
  then have "sint (word_of_int (2 ^ n - 1) :: 64 word) = 2 ^ n - 1"
    by (intro sint_word_small) auto
  moreover have "(mask n :: 64 word) = word_of_int (2 ^ n - 1)"
    by (simp add: mask_eq_exp_minus_1)
  ultimately show ?thesis by (simp only:)
qed




section \<open>A message on the wire\<close>


definition bytes_of :: "Field list \<Rightarrow> nat" where
  "bytes_of fs = sum_list (map (\<lambda>f. fld_size f div 8) fs)"

lemma bytes_of_simps [simp]: "bytes_of [] = 0" "bytes_of (f # fs) = fld_size f div 8 + bytes_of fs"
  by (simp_all add: bytes_of_def)








section \<open>Frames\<close>

lemma copy_loop_ok:
  assumes "i \<le> n" "off + n \<le> length src" "start + n \<le> length dst"
  shows "copy_loop dst start src off i n =
    Inr (take (start + i) dst @ take (n - i) (drop (off + i) src) @ drop (start + n) dst)"
  using assms
proof (induction "n - i" arbitrary: i dst)
  case 0
  then show ?case by (simp add: copy_loop.simps)
next
  case (Suc k)
  let ?dst = "dst[start + i := src ! (off + i)]"
  have i: "i < n" using Suc.hyps(2) by simp
  have "copy_loop dst start src off i n = copy_loop ?dst start src off (Suc i) n"
    using i Suc.prems by (subst copy_loop.simps) simp
  also have "\<dots> = Inr (take (start + Suc i) ?dst @ take (n - Suc i) (drop (off + Suc i) src) @ drop (start + n) ?dst)"
    using Suc.hyps(1) [of "Suc i" ?dst] Suc.hyps(2) Suc.prems i by simp
  also have "take (start + Suc i) ?dst = take (start + i) dst @ [src ! (off + i)]"
    using i Suc.prems by (simp add: take_Suc_conv_app_nth)
  also have "drop (start + n) ?dst = drop (start + n) dst" using i by simp
  finally have "copy_loop dst start src off i n = Inr (take (start + i) dst @
      (src ! (off + i) # take (n - Suc i) (drop (off + Suc i) src)) @ drop (start + n) dst)" by simp
  moreover have "drop (off + i) src = src ! (off + i) # drop (off + Suc i) src"
    using i Suc.prems by (simp add: Cons_nth_drop_Suc)
  moreover have "n - i = Suc (n - Suc i)" using i by simp
  ultimately show ?case by simp
qed


text \<open>
  A fast packet: the payload is cut into six bytes for the first frame, after the sequence
  byte and the length, and seven for each of the others, after the sequence byte.
\<close>

definition fast_frame :: "32 word \<Rightarrow> byte \<Rightarrow> byte \<Rightarrow> bytes \<Rightarrow> nat \<Rightarrow> can_frame" where
  "fast_frame ident base len payload k =
     \<lparr>can_id = ident, can_dlc = 8,
      frame_data = (if k = 0 then [base, len] @ take 6 payload
                    else [base OR of_nat k] @ take 7 (drop (7 * k - 1) payload))\<rparr>"

fun receive_frames :: "CANMessage \<Rightarrow> can_frame list \<Rightarrow> (CANMessage \<times> bool list) res" where
  "receive_frames msg [] = Inr (msg, [])"
| "receive_frames msg (fr # frs) =
     bindr (receive_frame msg fr) (\<lambda>(msg', at_end).
       bindr (receive_frames msg' frs) (\<lambda>(msg'', ends). Inr (msg'', at_end # ends)))"

lemma sequence_byte:
  assumes "base AND 0x1F = (0 :: byte)" "k < 32"
  shows "unat ((base OR of_nat k) AND 0x1F) = k"
proof -
  have "(0x1F :: byte) = mask 5" by (simp add: mask_eq_exp_minus_1)
  moreover have "(of_nat k :: byte) AND mask 5 = of_nat k"
  proof -
    have "(of_nat k :: byte) AND mask 5 = take_bit 5 (of_nat k)" by (simp add: take_bit_eq_mask)
    also have "\<dots> = of_nat (take_bit 5 k)" by (simp add: take_bit_of_nat)
    also have "take_bit 5 k = k" using assms(2) by (simp add: take_bit_nat_eq_self)
    finally show ?thesis .
  qed
  ultimately have "(base OR of_nat k) AND 0x1F = of_nat k"
    using assms(1) by (simp add: word_ao_dist)
  then show ?thesis using assms(2) by (simp add: unat_of_nat)
qed

lemma receive_fast_frame:
  assumes long: "is_long msg" and base: "base AND 0x1F = 0" and k: "k < 32"
    and pl: "6 + 7 * k \<le> length payload" and buf: "6 + 7 * k \<le> length (cm_data msg)"
    and pre: "take (7 * k - 1) (cm_data msg) = take (7 * k - 1) payload"
  shows "\<exists>msg'. receive_frame msg (fast_frame ident base len payload k) =
      Inr (msg', cm_len msg \<le> 8 * (6 + 7 * k)) \<and>
    is_long msg' \<and> cm_len msg' = cm_len msg \<and> length (cm_data msg') = length (cm_data msg) \<and>
    take (6 + 7 * k) (cm_data msg') = take (6 + 7 * k) payload \<and> cm_pgn msg' = cm_pgn msg"
proof (cases "k = 0")
  case True
  let ?fr = "fast_frame ident base len payload k"
  have src: "frame_data ?fr = [base, len] @ take 6 payload" "length (frame_data ?fr) = 8" "can_dlc ?fr = 8"
    using True pl by (simp_all add: fast_frame_def)
  have "copy_loop (cm_data msg) 0 (frame_data ?fr) 2 0 6 = Inr (take 6 payload @ drop 6 (cm_data msg))"
    using copy_loop_ok [of 0 6 2 "frame_data ?fr" 0 "cm_data msg"] src buf True by simp
  then show ?thesis
    using True long base src pl buf by (simp add: receive_frame_def Let_def size_dec_def)
next
  case False
  let ?fr = "fast_frame ident base len payload k"
  have src: "frame_data ?fr = (base OR of_nat k) # take 7 (drop (7 * k - 1) payload)"
    "length (frame_data ?fr) = 8" "can_dlc ?fr = 8"
    using False pl by (simp_all add: fast_frame_def)
  have st: "k * 7 - 1 + 7 = 6 + 7 * k" using False by (cases k) auto
  have "copy_loop (cm_data msg) (k * 7 - 1) (frame_data ?fr) 1 0 7 =
      Inr (take (k * 7 - 1) (cm_data msg) @ take 7 (drop (7 * k - 1) payload) @ drop (6 + 7 * k) (cm_data msg))"
    using copy_loop_ok [of 0 7 1 "frame_data ?fr" "k * 7 - 1" "cm_data msg"] src buf st
    by (simp add: mult.commute)
  moreover have "take (k * 7 - 1) (cm_data msg) @ take 7 (drop (7 * k - 1) payload) = take (6 + 7 * k) payload"
    using pre st by (metis mult.commute take_add)
  ultimately have "copy_loop (cm_data msg) (k * 7 - 1) (frame_data ?fr) 1 0 7 =
      Inr (take (6 + 7 * k) payload @ drop (6 + 7 * k) (cm_data msg))" by simp
  moreover have "cm_len msg \<le> 8 * (k * 7 - Suc 0) + 56 \<longleftrightarrow> cm_len msg \<le> 48 + 56 * k"
    using False by (cases k) auto
  ultimately show ?thesis
    using False long sequence_byte [OF base k] src pl buf st
    by (simp add: receive_frame_def Let_def size_dec_def)
qed

lemma receive_fast_frames:
  assumes "is_long msg" "base AND 0x1F = 0" "k + n \<le> 32"
    and "n = 0 \<or> 6 + 7 * (k + n - 1) \<le> length payload" "n = 0 \<or> 6 + 7 * (k + n - 1) \<le> length (cm_data msg)"
    and "take (7 * k - 1) (cm_data msg) = take (7 * k - 1) payload"
  shows "\<exists>msg'. receive_frames msg (map (fast_frame ident base len payload) [k..<k + n]) =
      Inr (msg', map (\<lambda>j. cm_len msg \<le> 8 * (6 + 7 * j)) [k..<k + n]) \<and>
    take (7 * (k + n) - 1) (cm_data msg') = take (7 * (k + n) - 1) payload"
  using assms
proof (induction n arbitrary: k msg)
  case (Suc n)
  obtain msg1 where m1: "receive_frame msg (fast_frame ident base len payload k) =
      Inr (msg1, cm_len msg \<le> 8 * (6 + 7 * k))"
    "is_long msg1" "cm_len msg1 = cm_len msg" "length (cm_data msg1) = length (cm_data msg)"
    "take (6 + 7 * k) (cm_data msg1) = take (6 + 7 * k) payload"
    using receive_fast_frame [OF Suc.prems(1,2), of k payload ident len] Suc.prems by auto
  have "\<exists>msg'. receive_frames msg1 (map (fast_frame ident base len payload) [Suc k..<Suc k + n]) =
      Inr (msg', map (\<lambda>j. cm_len msg1 \<le> 8 * (6 + 7 * j)) [Suc k..<Suc k + n]) \<and>
    take (7 * (Suc k + n) - 1) (cm_data msg') = take (7 * (Suc k + n) - 1) payload"
    using Suc.prems m1 by (intro Suc.IH) auto
  moreover have "[k..<k + Suc n] = k # [Suc k..<Suc k + n]" by (simp add: upt_rec)
  ultimately show ?case using m1(1,3) by auto
qed simp

section \<open>The table\<close>

text \<open>The numbers of the fields of the protobuf message \<^verbatim>\<open>CANMaster\<close> (\<^verbatim>\<open>can/can.proto\<close>).\<close>

definition can_numbers :: "nat list" where
  "can_numbers = [126992, 127250, 127251, 127257, 129025, 129026, 129029, 129033, 129539, 130306,
     65281, 65282, 65283, 65284, 65285, 65296, 65297, 65312]"

text \<open>Every field that is read lies within \<open>avail\<close> bits.\<close>

definition extracted :: "Field \<Rightarrow> bool" where
  "extracted f \<longleftrightarrow> 0 < resolution f \<or> resolution f = RES_LOOKUP"

fun fits :: "nat \<Rightarrow> nat \<Rightarrow> Field list \<Rightarrow> bool" where
  "fits avail cur [] \<longleftrightarrow> True"
| "fits avail cur (f # fs) \<longleftrightarrow>
     cur + fld_size f \<le> avail \<and> 0 < fld_size f \<and> (extracted f \<longrightarrow> fld_size f \<le> 64) \<and>
     (resolution f = RES_DATE \<longrightarrow> 16 \<le> fld_size f) \<and> (resolution f = RES_TIME \<longrightarrow> 32 \<le> fld_size f) \<and>
     fits avail (cur + fld_size f) fs"

lemma set_number_cases: "(\<exists>m'. SetProtoNumberField D m k x = Inr m') \<or> SetProtoNumberField D m k x = Inl BadCast"
proof (cases "D k")
  case (Some t)
  then show ?thesis
    by (cases t) (auto simp: SetProtoNumberField_def to_int32_def to_uint32_def to_int64_def to_uint64_def to_int_def)
qed (simp add: SetProtoNumberField_def)

definition only_bad_cast :: "'a res \<Rightarrow> bool" where
  "only_bad_cast r \<longleftrightarrow> (\<exists>x. r = Inr x) \<or> r = Inl BadCast"

lemma only_bad_cast_simps [simp]:
  "only_bad_cast (Inr x)" "only_bad_cast (SetProtoNumberField D m k y)"
  using set_number_cases [of D m k y] by (auto simp: only_bad_cast_def)

lemma only_bad_cast_bindr:
  "r = Inr a \<Longrightarrow> only_bad_cast (f a) \<Longrightarrow> only_bad_cast (bindr r f)"
  by simp

lemma read_le_fits:
  assumes "cur + 8 * n \<le> 8 * length data"
  shows "\<exists>v. read_le data (cur div 8) n = Inr v"
proof -
  have "cur div 8 + n \<le> length data" using assms by linarith
  then show ?thesis by (simp add: read_le_def)
qed

lemma decode_lat_lon_fits:
  assumes "cur + fld_size f \<le> 8 * length data"
  shows "decode_lat_lon f data cur \<noteq> Inl e"
proof -
  consider "fld_size f = 32" | "fld_size f = 64" | "fld_size f \<noteq> 32" "fld_size f \<noteq> 64" by blast
  then show ?thesis
  proof cases
    case 1
    then obtain v where "read_le data (cur div 8) 4 = Inr v" using assms read_le_fits [of cur 4 data] by auto
    with 1 show ?thesis by (simp add: decode_lat_lon_def Let_def)
  next
    case 2
    then obtain v where "read_le data (cur div 8) 8 = Inr v" using assms read_le_fits [of cur 8 data] by auto
    with 2 show ?thesis by (simp add: decode_lat_lon_def Let_def)
  qed (simp add: decode_lat_lon_def)
qed

lemma decode_field_fits:
  assumes "fits (8 * length data) cur (f # fs)"
  shows "only_bad_cast (decode_field D data cur i f m)"
proof -
  have ext: "\<exists>v mx. ExtractNumberField f data cur = Inr (v, mx)" if "extracted f"
    using extract_field_bits [of f cur data] assms that by auto
  obtain lv lr where ll: "decode_lat_lon f data cur = Inr (lv, lr)"
    using decode_lat_lon_fits [of cur f data] assms by (cases "decode_lat_lon f data cur") auto
  have date: "\<exists>v. read_le data (cur div 8) 2 = Inr v" if "resolution f = RES_DATE"
    using assms that by (intro read_le_fits) auto
  have time: "\<exists>v. read_le data (cur div 8) 4 = Inr v" if "resolution f = RES_TIME"
    using assms that by (intro read_le_fits) auto
  consider "extracted f" | "resolution f = RES_DATE" | "resolution f = RES_TIME"
    | "\<not> extracted f" "resolution f \<noteq> RES_DATE" "resolution f \<noteq> RES_TIME" by blast
  then show ?thesis
  proof cases
    case 1
    with ext obtain v mx where "ExtractNumberField f data cur = Inr (v, mx)" by blast
    with 1 show ?thesis by (auto simp: decode_field_def Let_def extracted_def RES_defs)
  next
    case 2
    with date obtain v where "read_le data (cur div 8) 2 = Inr v" by blast
    with 2 show ?thesis by (simp add: decode_field_def Let_def RES_defs)
  next
    case 3
    with time obtain v where "read_le data (cur div 8) 4 = Inr v" by blast
    with 3 show ?thesis by (simp add: decode_field_def Let_def RES_defs)
  next
    case 4
    with ll show ?thesis by (simp add: decode_field_def Let_def extracted_def)
  qed
qed

lemma decode_fields_fit: "fits (8 * length data) cur fs \<Longrightarrow> only_bad_cast (decode_fields D data cur i fs m)"
proof (induction fs arbitrary: cur i m)
  case (Cons f fs)
  have "only_bad_cast (decode_field D data cur i f m)" by (rule decode_field_fits) (rule Cons.prems)
  then consider m' where "decode_field D data cur i f m = Inr m'" | "decode_field D data cur i f m = Inl BadCast"
    by (auto simp: only_bad_cast_def)
  then show ?case
    using Cons by cases (auto simp: only_bad_cast_def)
qed simp

lemma debug_dump_short: "5 * length bs \<le> room \<Longrightarrow> debug_dump bs room = Inr ()"
  by (induction bs room rule: debug_dump.induct) (auto simp: hex_chars_def)

lemma table_fits:
  "\<forall>p\<in>set pgnList. pgn p \<in> set can_numbers \<longrightarrow>
     fits (8 * ((pgn_size p div 8 + 1) * 8)) 0 (fieldList p) \<and> (pgn_size p + 7) div 8 \<le> 8"
  unfolding pgnList_def can_numbers_def
  by (simp add: pgn_defs extracted_def RES_defs)





section \<open>Properties\<close>

text \<open>
  the 29-bit identifier round-trips: building the raw identifier from its members and
  taking it apart again are inverse to each other, and the message number set in an
  identifier is the one read from it, up to 17 bits and, when its format byte is below 240,
  without its lower byte, which is then an address.
\<close>

theorem can_id_roundtrip:
  "RetrieveID (ConstructID i) = i \<and> ConstructID (RetrieveID raw) = raw \<and>
   GetPGN (RetrieveID (ConstructID (SetPGN i n))) =
     n AND (if ucast (drop_bit 8 n) < (240 :: byte) then 0x1FF00 else 0x1FFFF)"
  by (simp add: RetrieveID_ConstructID ConstructID_RetrieveID GetPGN_SetPGN)





text \<open>
  C29: the frames of a fast packet, received in order, put the payload together in the
  message's buffer.  The decision that the message is complete compares eight times the
  number of bytes with the size in bytes: the 51-byte position message counts as complete,
  and is decoded and sent, from its second frame on, when 13 bytes have arrived.
\<close>

theorem fast_packet_reassembly:
  assumes "is_long msg" and "base AND 0x1F = 0" and "0 < n" and "n \<le> 32"
    and "7 * n - 1 \<le> length payload" and "7 * n - 1 \<le> length (cm_data msg)"
  shows "\<exists>msg'. receive_frames msg (map (fast_frame ident base len payload) [0..<n]) =
      Inr (msg', map (\<lambda>k. cm_len msg \<le> 8 * (6 + 7 * k)) [0..<n]) \<and>
    take (7 * n - 1) (cm_data msg') = take (7 * n - 1) payload"
  using receive_fast_frames [OF assms(1,2), where k = 0 and n = n and payload = payload and ident = ident
      and len = len] assms(3-6) by simp

theorem fast_packet_reassembly_witness:
  "\<exists>msg'. receive_frames (CANMessage_new pgn_GNSS_Position_Data)
        (map (fast_frame 0x8DF80503 0x40 51 (replicate 55 9)) [0..<8]) =
      Inr (msg', [False, True, True, True, True, True, True, True]) \<and>
    take 55 (cm_data msg') = replicate 55 9"
proof -
  have "is_long (CANMessage_new pgn_GNSS_Position_Data)" "cm_len (CANMessage_new pgn_GNSS_Position_Data) = 51"
    "length (cm_data (CANMessage_new pgn_GNSS_Position_Data)) = 56"
    by (simp_all add: CANMessage_new_def pgn_GNSS_Position_Data_def)
  then show ?thesis
    using fast_packet_reassembly [where msg = "CANMessage_new pgn_GNSS_Position_Data" and base = "0x40"
        and n = 8 and payload = "replicate 55 9" and ident = "0x8DF80503" and len = 51]
    by (simp add: upt_rec)
qed

text \<open>
  C38: decoding a message of the table that the program handles reads only bytes of the
  message's buffer, whatever they hold, and shifts by less than the width of a word; the only
  fault left is a number that does not fit the integer type of its protobuf field.
\<close>

theorem table_decoding_in_bounds:
  assumes "p \<in> set pgnList" and "pgn p \<in> set can_numbers" and "cm_pgn msg = p"
    and "cm_len msg = pgn_size p" and "length (cm_data msg) = (pgn_size p div 8 + 1) * 8"
  shows "(\<exists>r. DecodeAndSend D msg = Inr r) \<or> DecodeAndSend D msg = Inl BadCast"
proof -
  have fit: "fits (8 * length (cm_data msg)) 0 (fieldList p)" "(pgn_size p + 7) div 8 \<le> 8"
    using table_fits assms(1,2,5) by auto
  have "debug_dump (take ((pgn_size p + 7) div 8) (cm_data msg)) 128 = Inr ()"
    using fit(2) by (intro debug_dump_short) simp
  moreover have "(pgn_size p + 7) div 8 \<le> length (cm_data msg)" using assms(5) by simp
  moreover have "only_bad_cast (decode_fields (D (pgn p)) (cm_data msg) 0 0 (fieldList p) (store_msg msg))"
    using fit(1) by (rule decode_fields_fit)
  ultimately show ?thesis
    using assms(3,4) by (auto simp: DecodeAndSend_def Let_def only_bad_cast_def)
qed

theorem table_decoding_in_bounds_witness:
  "(\<exists>r. DecodeAndSend (\<lambda>_ _. Some T_float) (CANMessage_new pgn_Wind_Data) = Inr r) \<or>
   DecodeAndSend (\<lambda>_ _. Some T_float) (CANMessage_new pgn_Wind_Data) = Inl BadCast"
proof (rule table_decoding_in_bounds [of pgn_Wind_Data])
  show "pgn_Wind_Data \<in> set pgnList" by (simp only: pgnList_def set_simps insert_iff simp_thms)
qed (simp_all add: CANMessage_new_def pgn_Wind_Data_def can_numbers_def)

text \<open>
  for a signed field of 64 bits, such as the altitude, the largest value is computed as
  -1, and the code 0x7FFFFFFFFFFFFFFF for an absent value is not recognised as one.
\<close>

theorem absent_64_bit_value_not_recognised:
  assumes "hasSign f" and "fld_size f = 64"
  shows "\<exists>v mx. ExtractNumberField f [0xFF, 0xFF, 0xFF, 0xFF, 0xFF, 0xFF, 0xFF, 0x7F] 0 = Inr (v, mx) \<and>
    sint v = 2 ^ 63 - 1 \<and> sint mx = -1 \<and> \<not> IsReserved (sint v) (sint mx)"
proof -
  let ?d = "[0xFF, 0xFF, 0xFF, 0xFF, 0xFF, 0xFF, 0xFF, 0x7F] :: bytes"
  obtain v where v: "ExtractNumberField f ?d 0 = Inr (v, signed_drop_bit 1 (mask 64))"
    "\<forall>i<64. bit v i = stream_bit ?d i"
    using extract_field_bits [of f 0 ?d] assms by auto
  have d: "?d = replicate 7 (mask 8) @ [mask 7]"
    by (simp add: mask_eq_exp_minus_1 numeral_eq_Suc)
  have "stream_bit ?d i \<longleftrightarrow> i \<noteq> 63" if "i < 64" for i
  proof (cases "i div 8 < 7")
    case True
    then have "i \<noteq> 63" by auto
    with True show ?thesis unfolding d by (simp add: stream_bit_def bit_mask_iff nth_append)
  next
    case False
    with that have "i div 8 = 7" by simp
    moreover from this have "i mod 8 < 7 \<longleftrightarrow> i \<noteq> 63" by presburger
    ultimately show ?thesis unfolding d by (simp add: stream_bit_def bit_mask_iff nth_append)
  qed
  then have "v = mask 63"
    using v(2) by (intro bit_word_eqI) (auto simp: bit_mask_iff)
  then have "sint v = 2 ^ 63 - 1" using sint_mask [of 63] by simp
  moreover have "signed_drop_bit 1 (mask 64 :: 64 word) = -1"
    by (rule bit_word_eqI) (auto simp: bit_signed_drop_bit_iff bit_mask_iff)
  ultimately show ?thesis using v(1) by (simp add: IsReserved_def)
qed

theorem absent_64_bit_value_not_recognised_witness:
  "\<exists>v mx. ExtractNumberField (fieldList pgn_GNSS_Position_Data ! 5) [0xFF, 0xFF, 0xFF, 0xFF, 0xFF, 0xFF, 0xFF, 0x7F] 0 =
      Inr (v, mx) \<and> sint v = 2 ^ 63 - 1 \<and> sint mx = -1 \<and> \<not> IsReserved (sint v) (sint mx)"
  by (rule absent_64_bit_value_not_recognised) (simp_all add: pgn_GNSS_Position_Data_def)

end
