(* ===== verification/Logging.thy ===== *)
theory Logging
  imports Boat_Prelude
begin

text \<open>
  The log: \<^verbatim>\<open>util/logger.cc\<close> writes every message of every queue to a file,
  \<^verbatim>\<open>util/log-replay.cc\<close> reads such a file and sends the messages again at the time they were
  logged, and \<^verbatim>\<open>util/log_deprecation.cc\<close> converts messages of an old form.
\<close>

section \<open>Writing\<close>

definition MAX_BUF :: nat where
  "MAX_BUF = 1024"


definition log_message :: "bytes \<Rightarrow> bytes \<Rightarrow> bytes" where
  "log_message out buf = out @ le_bytes 2 (int (length buf) mod 2 ^ 16) @ buf"

text \<open>\<^verbatim>\<open>RunLogHandler\<close>: each turn looks at the shutdown flag and receives a message or times out.\<close>

fun RunLogHandler :: "(bool \<times> bytes option) list \<Rightarrow> bytes \<Rightarrow> bytes" where
  "RunLogHandler [] out = out"
| "RunLogHandler ((shutdown, r) # turns) out =
     (if shutdown then out
      else RunLogHandler turns (case r of None \<Rightarrow> out | Some buf \<Rightarrow> log_message out buf))"

section \<open>Reading\<close>

text \<open>
  Reading \<open>n\<close> bytes of a stream: reaching the end of the file before they are complete sets
  its end-of-file flag.
\<close>

definition stream_read :: "nat \<Rightarrow> bytes \<Rightarrow> (bytes \<times> bytes) option" where
  "stream_read n input = (if n \<le> length input then Some (take n input, drop n input) else None)"

text \<open>\<open>None\<close> is the result -1.\<close>

definition ReadLogMessage :: "nat \<Rightarrow> bytes \<Rightarrow> (bytes \<times> bytes) option res" where
  "ReadLogMessage buf_len input =
     (case stream_read 2 input of
        None \<Rightarrow> Inr None
      | Some (l, input1) \<Rightarrow>
          (let len = nat (le_value l)
           in if \<not> len < buf_len then Inl Fatal
              else Inr (stream_read len input1)))"

lemma ReadLogMessage_shorter [simp]:
  "ReadLogMessage n input = Inr (Some (buf, rest)) \<Longrightarrow> length rest < length input"
  by (auto simp: ReadLogMessage_def stream_read_def Let_def split: if_splits)




text \<open>\<^verbatim>\<open>ReadFile\<close> reads the entries from the very first byte of the file.\<close>

function ReadFile :: "bytes \<Rightarrow> bytes list res" where
  "ReadFile input =
     (case stream_read 2 input of
        None \<Rightarrow> Inr []
      | Some (l, input1) \<Rightarrow>
          (let len = nat (le_value l)
           in case stream_read len input1 of
                None \<Rightarrow> if MAX_BUF < length input1 then Inl OutOfBounds else Inr []
              | Some (buf, rest) \<Rightarrow>
                  if len > MAX_BUF then Inl OutOfBounds
                  else bindr (ReadFile rest) (\<lambda>ms. Inr (buf # ms))))"
  by auto
termination
  by (relation "measure length") (auto simp: stream_read_def split: if_splits)

declare ReadFile.simps [simp del]

section \<open>Replaying\<close>

text \<open>
  What a replay knows of an entry: generated protobuf code, hence parameters.  \<open>le_fields\<close>
  lists the names of the fields that are set, in the order of the schema; \<open>le_move\<close> moves a
  field to another name; \<open>le_process\<close> are the registered handlers of old forms.
\<close>

record 'e entry_ops =
  le_parse :: "bytes \<Rightarrow> 'e"
  le_fields :: "'e \<Rightarrow> string list"
  le_time :: "'e \<Rightarrow> int"
  le_serialize :: "'e \<Rightarrow> bytes"
  le_move :: "string \<Rightarrow> string \<Rightarrow> 'e \<Rightarrow> 'e"
  le_process :: "string \<Rightarrow> 'e \<times> bytes \<Rightarrow> 'e \<times> bytes"

record replay =
  rp_cur_time :: int
  rp_msg_time :: int
  rp_queue_name :: string
  rp_queues :: "string \<Rightarrow> string option"
  rp_sent :: "(int \<times> string \<times> bytes) list"

record replay_cfg =
  rc_rename :: "string \<Rightarrow> string option"
  rc_default_ignore :: bool
  rc_start :: real
  rc_schema :: "string list"

text \<open>The loop over the fields of an entry.\<close>

definition replay_field :: "'e entry_ops \<Rightarrow> replay_cfg \<Rightarrow> string \<Rightarrow> 'e \<times> bytes \<times> replay \<Rightarrow> 'e \<times> bytes \<times> replay" where
  "replay_field E cfg f = (\<lambda>(e, b, st).
     if f = ''time'' then (e, b, st\<lparr>rp_msg_time := le_time E e\<rparr>)
     else let (e', b') = le_process E f (e, b);
              qname = (case rc_rename cfg f of Some r \<Rightarrow> r | None \<Rightarrow> (if rc_default_ignore cfg then '''' else f));
              qs = (if rp_queues st f = None \<and> qname \<noteq> '''' then (rp_queues st)(f \<mapsto> qname) else rp_queues st)
          in (e', b', st\<lparr>rp_queue_name := f, rp_queues := qs\<rparr>))"

definition replay_entry :: "'e entry_ops \<Rightarrow> replay_cfg \<Rightarrow> bytes \<Rightarrow> replay \<Rightarrow> replay res" where
  "replay_entry E cfg buf st =
     (let e = le_parse E buf
      in if length (le_fields E e) > 2 then Inl Fatal
         else let (e1, b1, st1) = fold (replay_field E cfg) (le_fields E e) (e, buf, st)
              in if of_int (rp_msg_time st1) / 10 ^ 9 < rc_start cfg then Inr st1
                 else let st2 = (if rp_msg_time st1 > rp_cur_time st1
                                 then st1\<lparr>rp_cur_time := rp_msg_time st1\<rparr> else st1);
                          q = rp_queue_name st2
                      in bindr (case rc_rename cfg q of
                                  Some r \<Rightarrow>
                                    (if r \<noteq> q
                                     then (if q \<in> set (rc_schema cfg) \<and> r \<in> set (rc_schema cfg)
                                           then Inr (le_serialize E (le_move E q r e1)) else Inl Fatal)
                                     else Inr b1)
                                | None \<Rightarrow> Inr b1) (\<lambda>b2.
                           case rp_queues st2 q of
                             None \<Rightarrow> Inr st2
                           | Some qname \<Rightarrow>
                               (if q = '''' then Inr st2
                                else if length b2 > 1024 then Inl SizeError
                                else Inr (st2\<lparr>rp_sent := rp_sent st2 @ [(rp_cur_time st2, qname, b2)]\<rparr>))))"


text \<open>The loop of \<^verbatim>\<open>Run\<close>, and a whole file; one shorter than its header shuts the process down.\<close>

function replay_loop :: "'e entry_ops \<Rightarrow> replay_cfg \<Rightarrow> bytes \<Rightarrow> replay \<Rightarrow> replay res" where
  "replay_loop E cfg input st =
     (case ReadLogMessage MAX_BUF input of
        Inl e \<Rightarrow> Inl e
      | Inr None \<Rightarrow> Inr st
      | Inr (Some (buf, rest)) \<Rightarrow> bindr (replay_entry E cfg buf st) (replay_loop E cfg rest))"
  by auto
termination
  by (relation "measure (\<lambda>(E, cfg, input, st). length input)") auto

declare replay_loop.simps [simp del]


section \<open>Old positions\<close>

record boat_pos =
  bp_pos :: "(real \<times> real \<times> real) option"
  bp_pos_float :: "(real \<times> real \<times> real) option"

text \<open>
  \<^verbatim>\<open>HandleOldPos\<close> on an entry with an optional boat state; the result is the entry, its
  serialised form and length as far as they change.
\<close>

definition HandleOldPos :: "(boat_pos option \<Rightarrow> bytes) \<Rightarrow> boat_pos option \<times> bytes \<Rightarrow> boat_pos option \<times> bytes" where
  "HandleOldPos serialize = (\<lambda>(entry, buf).
     case entry of
       None \<Rightarrow> (entry, buf)
     | Some s \<Rightarrow>
         (case (bp_pos s, bp_pos_float s) of
            (None, Some p) \<Rightarrow>
              (let entry' = Some (s\<lparr>bp_pos := Some p\<rparr>)
               in if length (serialize entry') > MAX_BUF then (entry', buf) else (entry', serialize entry'))
          | _ \<Rightarrow> (entry, buf)))"

section \<open>Files\<close>

definition log_frame :: "bytes \<Rightarrow> bytes" where
  "log_frame m = le_bytes 2 (int (length m) mod 2 ^ 16) @ m"




lemma stream_read_append: "length a = n \<Longrightarrow> stream_read n (a @ b) = Some (a, b)"
  by (simp add: stream_read_def)

lemma log_length: "length m < 65536 \<Longrightarrow> le_value (le_bytes 2 (int (length m) mod 2 ^ 16)) = int (length m)"
  by (simp only: le_value_le_bytes) simp

lemma read_frame_header:
  "stream_read 2 (log_frame m @ rest) = Some (le_bytes 2 (int (length m) mod 2 ^ 16), m @ rest)"
  unfolding log_frame_def append_assoc by (rule stream_read_append) simp





section \<open>Replays in order\<close>



definition plain_cfg :: "replay_cfg \<Rightarrow> bool" where
  "plain_cfg cfg \<longleftrightarrow> rc_rename cfg = Map.empty \<and> \<not> rc_default_ignore cfg"



section \<open>Properties\<close>




text \<open>Entries that hold their own queue, for which the laws hold.\<close>

definition byte_entries :: "bytes entry_ops" where
  "byte_entries = \<lparr>le_parse = id, le_fields = (\<lambda>b. [''time'', ''imu'']), le_time = (\<lambda>b. int (length b)),
     le_serialize = id, le_move = (\<lambda>x y e. e), le_process = (\<lambda>x eb. eb)\<rparr>"


text \<open>
  two entries that the logger and the queues produce do not replay: a message that fills
  the 1024 bytes of a queue slot stops the replay with a failed check, and an entry with a
  time stamp and no message is sent on the queue of the entry before it.
\<close>

theorem entries_that_do_not_replay:
  "(length m = 1024 \<longrightarrow> replay_loop E cfg (log_frame m @ rest) st = Inl Fatal) \<and>
   (plain_cfg cfg \<and> le_fields E (le_parse E b) = [''time''] \<and> length b < 1024 \<and>
      rc_start cfg \<le> of_int (le_time E (le_parse E b)) / 10 ^ 9 \<and>
      rp_queues st (rp_queue_name st) = Some q \<and> rp_queue_name st \<noteq> '''' \<longrightarrow>
    (\<exists>st' t. replay_entry E cfg b st = Inr st' \<and> rp_sent st' = rp_sent st @ [(t, q, b)]))"
proof (intro conjI impI)
  assume "length m = 1024"
  then have "ReadLogMessage MAX_BUF (log_frame m @ rest) = Inl Fatal"
    using log_length [of m] read_frame_header [of m rest]
    by (simp only: ReadLogMessage_def option.case prod.case Let_def) (simp add: MAX_BUF_def)
  then show "replay_loop E cfg (log_frame m @ rest) st = Inl Fatal"
    by (subst replay_loop.simps) simp
next
  assume *: "plain_cfg cfg \<and> le_fields E (le_parse E b) = [''time''] \<and> length b < 1024 \<and>
      rc_start cfg \<le> of_int (le_time E (le_parse E b)) / 10 ^ 9 \<and>
      rp_queues st (rp_queue_name st) = Some q \<and> rp_queue_name st \<noteq> ''''"
  then show "\<exists>st' t. replay_entry E cfg b st = Inr st' \<and> rp_sent st' = rp_sent st @ [(t, q, b)]"
    by (auto simp: replay_entry_def replay_field_def Let_def plain_cfg_def)
qed

theorem entries_that_do_not_replay_witness:
  "let cfg = \<lparr>rc_rename = Map.empty, rc_default_ignore = False, rc_start = 0, rc_schema = []\<rparr>;
       E = byte_entries\<lparr>le_fields := \<lambda>b. [''time'']\<rparr>;
       st = \<lparr>rp_cur_time = 0, rp_msg_time = 0, rp_queue_name = ''imu'', rp_queues = [''imu'' \<mapsto> ''imu''], rp_sent = []\<rparr>
   in replay_loop E cfg (log_frame (replicate 1024 5) @ []) st = Inl Fatal \<and>
      (\<exists>st' t. replay_entry E cfg [7] st = Inr st' \<and> rp_sent st' = [(t, ''imu'', [7])])"
  using entries_that_do_not_replay [of "replicate 1024 5" "byte_entries\<lparr>le_fields := \<lambda>b. [''time'']\<rparr>"
      "\<lparr>rc_rename = Map.empty, rc_default_ignore = False, rc_start = 0, rc_schema = []\<rparr>" "[]"
      "\<lparr>rp_cur_time = 0, rp_msg_time = 0, rp_queue_name = ''imu'', rp_queues = [''imu'' \<mapsto> ''imu''], rp_sent = []\<rparr>"
      "[7]" "''imu''"]
  by (simp add: plain_cfg_def byte_entries_def Let_def)

end
