(* ===== verification/Nav_Util.thy ===== *)
theory Nav_Util
  imports Boat_Prelude
begin

text \<open>
  The mathematical helpers of \<^verbatim>\<open>control/util.cc\<close>: angles, roll-pitch-yaw matrices, the
  Runge-Kutta step and the functions on GPS coordinates.  Floating values are real numbers
  here, without rounding; Eigen's vectors and matrices are tuples with the coefficientwise
  operations that Eigen documents.
\<close>

type_synonym vec2 = "real \<times> real"
type_synonym vec3 = "real \<times> real \<times> real"
type_synonym mat3 = "vec3 \<times> vec3 \<times> vec3"

section \<open>Angles\<close>

text \<open>\<^verbatim>\<open>std::atan2\<close>, without the distinction of signed zeros.\<close>

definition atan2 :: "real \<Rightarrow> real \<Rightarrow> real" where
  "atan2 y x =
     (if x > 0 then arctan (y / x)
      else if x < 0 then (if y \<ge> 0 then arctan (y / x) + pi else arctan (y / x) - pi)
      else if y > 0 then pi / 2 else if y < 0 then - pi / 2 else 0)"

definition atan2_vec :: "vec2 \<Rightarrow> real" where
  "atan2_vec diff = atan2 (snd diff) (fst diff)"

definition norm_angle :: "real \<Rightarrow> real" where
  "norm_angle a =
     (let tau = 2 * pi
      in if a > pi then a - of_int (trunc (a / tau + 1 / 2)) * tau
         else if a < - pi then a - of_int (trunc (a / tau - 1 / 2)) * tau
         else a)"

text \<open>
  The number of turns is converted to an \<^verbatim>\<open>int\<close>, which is only defined when it fits; a call that is checked for this
  gives a fault otherwise.
\<close>

definition norm_angle_fits :: "real \<Rightarrow> bool" where
  "norm_angle_fits a =
     (let tau = 2 * pi
      in if a > pi then trunc (a / tau + 1 / 2) < 2 ^ 31
         else if a < - pi then - (2 ^ 31) \<le> trunc (a / tau - 1 / 2)
         else True)"

definition norm_angle_checked :: "real \<Rightarrow> real res" where
  "norm_angle_checked a = (if norm_angle_fits a then Inr (norm_angle a) else Inl BadCast)"

definition Sign :: "real \<Rightarrow> int" where
  "Sign val = of_bool (0 < val) - of_bool (val < 0)"

definition ToRad :: "real \<Rightarrow> real" where
  "ToRad a = a * pi / 180"

definition ToDeg :: "real \<Rightarrow> real" where
  "ToDeg a = a * 180 / pi"

definition Clip :: "real \<Rightarrow> real \<Rightarrow> real \<Rightarrow> real" where
  "Clip a lo hi = max (min a hi) lo"

definition ReverseClip :: "real \<Rightarrow> real \<Rightarrow> real" where
  "ReverseClip a lo = (if a > 0 then max a lo else min a (- lo))"

section \<open>Vectors and matrices\<close>

fun vadd :: "vec3 \<Rightarrow> vec3 \<Rightarrow> vec3" where
  "vadd (a, b, c) (x, y, z) = (a + x, b + y, c + z)"

fun vscale :: "real \<Rightarrow> vec3 \<Rightarrow> vec3" where
  "vscale k (x, y, z) = (k * x, k * y, k * z)"

fun vdot :: "vec3 \<Rightarrow> vec3 \<Rightarrow> real" where
  "vdot (a, b, c) (x, y, z) = a * x + b * y + c * z"

fun vcross :: "vec3 \<Rightarrow> vec3 \<Rightarrow> vec3" where
  "vcross (a, b, c) (x, y, z) = (b * z - c * y, c * x - a * z, a * y - b * x)"

fun mrow :: "mat3 \<Rightarrow> nat \<Rightarrow> vec3" where
  "mrow (r0, r1, r2) i = (if i = 0 then r0 else if i = 1 then r1 else r2)"

definition mapply :: "mat3 \<Rightarrow> vec3 \<Rightarrow> vec3" where
  "mapply R x = (vdot (mrow R 0) x, vdot (mrow R 1) x, vdot (mrow R 2) x)"

fun mcol :: "mat3 \<Rightarrow> nat \<Rightarrow> vec3" where
  "mcol ((a0, a1, a2), (b0, b1, b2), (c0, c1, c2)) j =
     (if j = 0 then (a0, b0, c0) else if j = 1 then (a1, b1, c1) else (a2, b2, c2))"

definition mmul :: "mat3 \<Rightarrow> mat3 \<Rightarrow> mat3" where
  "mmul A B =
     ((vdot (mrow A 0) (mcol B 0), vdot (mrow A 0) (mcol B 1), vdot (mrow A 0) (mcol B 2)),
      (vdot (mrow A 1) (mcol B 0), vdot (mrow A 1) (mcol B 1), vdot (mrow A 1) (mcol B 2)),
      (vdot (mrow A 2) (mcol B 0), vdot (mrow A 2) (mcol B 1), vdot (mrow A 2) (mcol B 2)))"

definition identity3 :: mat3 where
  "identity3 = ((1, 0, 0), (0, 1, 0), (0, 0, 1))"

definition Trans :: "vec3 \<Rightarrow> mat3 \<Rightarrow> vec3 \<Rightarrow> vec3" where
  "Trans x R o3 = vadd (mapply R x) o3"

fun Skew :: "vec3 \<Rightarrow> mat3" where
  "Skew (x0, x1, x2) = ((0, - x2, x1), (x2, 0, - x0), (- x1, x0, 0))"

definition Orthogonalize :: "mat3 \<Rightarrow> mat3" where
  "Orthogonalize R =
     (let err = vdot (mrow R 0) (mrow R 1);
          n2 = vadd (mrow R 2) (vscale (- (err / 2)) (mrow R 1));
          n1 = vadd (mrow R 1) (vscale (- (err / 2)) (mrow R 2));
          n0 = vcross n2 n1
      in (vscale (1 / 2 * (3 - vdot n0 n0)) n0, vscale (1 / 2 * (3 - vdot n1 n1)) n1,
          vscale (1 / 2 * (3 - vdot n2 n2)) n2))"

text \<open>Rotations about the axes, Eigen's \<^verbatim>\<open>AngleAxisd\<close> about a unit vector.\<close>

definition rotX :: "real \<Rightarrow> mat3" where
  "rotX a = ((1, 0, 0), (0, cos a, - sin a), (0, sin a, cos a))"

definition rotY :: "real \<Rightarrow> mat3" where
  "rotY a = ((cos a, 0, sin a), (0, 1, 0), (- sin a, 0, cos a))"

definition rotZ :: "real \<Rightarrow> mat3" where
  "rotZ a = ((cos a, - sin a, 0), (sin a, cos a, 0), (0, 0, 1))"

fun mentry :: "mat3 \<Rightarrow> nat \<Rightarrow> nat \<Rightarrow> real" where
  "mentry R i j = (let (a, b, c) = mrow R i in if j = 0 then a else if j = 1 then b else c)"

definition GetRollPitchYaw :: "mat3 \<Rightarrow> vec3" where
  "GetRollPitchYaw R =
     (let yaw = atan2 (mentry R 1 0) (mentry R 0 0);
          R1 = mmul (rotZ (- yaw)) R;
          pitch = atan2 (- mentry R1 2 0) (mentry R1 0 0);
          R2 = mmul (rotY (- pitch)) R1;
          roll = atan2 (mentry R2 2 1) (mentry R2 1 1)
      in (roll, pitch, yaw))"

definition RollPitchYawToMatrix :: "vec3 \<Rightarrow> mat3" where
  "RollPitchYawToMatrix angles =
     (let (roll, pitch, yaw) = angles;
          R = mmul (rotX roll) identity3;
          R1 = mmul (rotY pitch) R
      in mmul (rotZ yaw) R1)"

section \<open>Integration\<close>

definition RungeKutta4 :: "(real \<Rightarrow> real \<Rightarrow> real) \<Rightarrow> real \<Rightarrow> real \<Rightarrow> real \<Rightarrow> real" where
  "RungeKutta4 f y t0 h =
     (let k1 = f t0 y;
          k2 = f (t0 + h / 2) (y + k1 * h / 2);
          k3 = f (t0 + h / 2) (y + k2 * h / 2);
          k4 = f (t0 + h) (y + k3 * h)
      in y + h / 6 * (k1 + 2 * k2 + 2 * k3 + k4))"

section \<open>GPS coordinates\<close>

definition GPSDistanceRad :: "real \<Rightarrow> real \<Rightarrow> real \<Rightarrow> real \<Rightarrow> real" where
  "GPSDistanceRad lat1 lon1 lat2 lon2 =
     (let a = (sin ((lat2 - lat1) / 2))\<^sup>2 + cos lat1 * cos lat2 * (sin ((lon2 - lon1) / 2))\<^sup>2;
          c = 2 * atan2 (sqrt a) (sqrt (1 - a))
      in 6371000 * c)"

definition GPSBearingRad :: "real \<Rightarrow> real \<Rightarrow> real \<Rightarrow> real \<Rightarrow> real" where
  "GPSBearingRad lat1 lon1 lat2 lon2 =
     (let y = sin (lon2 - lon1) * cos lat2;
          x = cos lat1 * sin lat2 - sin lat1 * cos lat2 * cos (lon2 - lon1)
      in atan2 x y)"

definition GPSDistance :: "real \<Rightarrow> real \<Rightarrow> real \<Rightarrow> real \<Rightarrow> real" where
  "GPSDistance lat1 lon1 lat2 lon2 = GPSDistanceRad (ToRad lat1) (ToRad lon1) (ToRad lat2) (ToRad lon2)"

definition GPSBearing :: "real \<Rightarrow> real \<Rightarrow> real \<Rightarrow> real \<Rightarrow> real" where
  "GPSBearing lat1 lon1 lat2 lon2 = GPSBearingRad (ToRad lat1) (ToRad lon1) (ToRad lat2) (ToRad lon2)"

definition GPSLatLonScale :: "real \<Rightarrow> real \<times> real" where
  "GPSLatLonScale lat =
     (let clat = cos (ToRad lat);
          clat2 = clat * clat;
          denom = sqrt (1 + 67394967565868823004 / 10 ^ 22 * clat2)
      in (11169397955992134774 / 10 ^ 14 / (denom * denom * denom),
          11169397955992134774 / 10 ^ 14 * clat / denom))"

section \<open>Facts on angles\<close>

lemma pi_ge_three: "3 \<le> pi"
  using sin_x_le_x [of "pi / 6"] pi_gt_zero by (simp add: sin_30)

lemma atan2_bounds: "\<bar>atan2 y x\<bar> \<le> pi"
  using arctan_bounded [of "y / x"] pi_gt_zero
  by (auto simp: atan2_def abs_le_iff zero_le_divide_iff divide_le_0_iff divide_less_0_iff)

lemma atan2_polar:
  assumes "0 < r" "- pi < a" "a \<le> pi"
  shows "atan2 (r * sin a) (r * cos a) = a"
proof -
  consider "- (pi / 2) < a" "a < pi / 2" | "a = pi / 2" | "a = - (pi / 2)" | "pi / 2 < a" | "a < - (pi / 2)"
    by linarith
  then show ?thesis
  proof cases
    case 1
    then have "0 < r * cos a" using assms(1) by (simp add: cos_gt_zero_pi)
    moreover have "r * sin a / (r * cos a) = tan a" using assms(1) by (simp add: tan_def)
    ultimately show ?thesis using 1 by (simp add: atan2_def arctan_tan)
  next
    case 2
    show ?thesis unfolding 2 using assms(1) by (simp add: atan2_def)
  next
    case 3
    show ?thesis unfolding 3 using assms(1) by (simp add: atan2_def)
  next
    case 4
    have c: "cos (a - pi) > 0" using 4 assms(3) by (intro cos_gt_zero_pi) auto
    then have "r * cos a < 0" using assms(1) by (simp add: cos_diff mult_pos_neg)
    moreover have "0 \<le> r * sin a" using 4 assms by (intro mult_nonneg_nonneg sin_ge_zero) auto
    moreover have "r * sin a / (r * cos a) = tan (a - pi)"
      using assms(1) by (simp add: tan_def sin_diff cos_diff)
    moreover have "arctan (tan (a - pi)) = a - pi" using 4 assms(3) by (intro arctan_tan) auto
    ultimately show ?thesis by (simp add: atan2_def)
  next
    case 5
    have c: "cos (a + pi) > 0" using 5 assms(2) by (intro cos_gt_zero_pi) auto
    then have "r * cos a < 0" using assms(1) by (simp add: cos_add mult_pos_neg)
    moreover have "\<not> 0 \<le> r * sin a"
    proof -
      have "0 < sin (- a)" using 5 assms(2) by (intro sin_gt_zero) auto
      with assms(1) show ?thesis by (simp add: mult_pos_neg not_le)
    qed
    moreover have "r * sin a / (r * cos a) = tan (a + pi)"
      using assms(1) by (simp add: tan_def sin_add cos_add)
    moreover have "arctan (tan (a + pi)) = a + pi" using 5 assms(2) by (intro arctan_tan) auto
    ultimately show ?thesis by (simp add: atan2_def)
  qed
qed

lemma norm_angle_in_range: "\<bar>norm_angle a\<bar> \<le> pi"
proof -
  define q where "q = a / (2 * pi)"
  have a: "a = q * (2 * pi)" by (simp add: q_def)
  have bound: "\<bar>a - of_int k * (2 * pi)\<bar> \<le> pi" if "\<bar>q - of_int k\<bar> \<le> 1 / 2" for k :: int
  proof -
    have "\<bar>a - of_int k * (2 * pi)\<bar> = \<bar>q - of_int k\<bar> * (2 * pi)"
      by (simp add: a abs_mult flip: left_diff_distrib)
    also have "\<dots> \<le> 1 / 2 * (2 * pi)" using that by (intro mult_right_mono) auto
    finally show ?thesis by simp
  qed
  consider "a > pi" | "a < - pi" | "\<bar>a\<bar> \<le> pi" by linarith
  then show ?thesis
  proof cases
    case 1
    then have "0 \<le> a" using pi_gt_zero by linarith
    then have "0 \<le> q + 1 / 2" by (simp add: q_def)
    then have "\<bar>q - of_int (trunc (q + 1 / 2))\<bar> \<le> 1 / 2" using trunc_nonneg [of "q + 1 / 2"] by linarith
    from bound [OF this] 1 show ?thesis by (simp add: norm_angle_def Let_def flip: q_def)
  next
    case 2
    then have neg: "a < 0" "\<not> pi < a" using pi_gt_zero by linarith+
    then have "q < 0" by (simp add: q_def divide_neg_pos)
    then have "q - 1 / 2 < 0" by simp
    then have "\<bar>q - of_int (trunc (q - 1 / 2))\<bar> \<le> 1 / 2" using trunc_neg [of "q - 1 / 2"] by linarith
    from bound [OF this] 2 neg show ?thesis by (simp add: norm_angle_def Let_def flip: q_def)
  qed (auto simp: norm_angle_def Let_def)
qed

lemma norm_angle_turns: "\<exists>k :: int. norm_angle a = a - of_int k * (2 * pi)"
  unfolding norm_angle_def Let_def by (auto intro: exI [of _ 0])

lemma norm_angle_id: "\<bar>a\<bar> \<le> pi \<Longrightarrow> norm_angle a = a"
  unfolding norm_angle_def Let_def by auto

lemma norm_angle_local:
  assumes "\<bar>norm_angle a\<bar> < 1"
  obtains k :: int where "norm_angle a = a - of_int k * (2 * pi)"
    "\<And>b. \<bar>b - of_int k * (2 * pi)\<bar> < 1 \<Longrightarrow> norm_angle b = b - of_int k * (2 * pi)"
proof -
  obtain k :: int where k: "norm_angle a = a - of_int k * (2 * pi)" using norm_angle_turns by blast
  moreover have "norm_angle b = b - of_int k * (2 * pi)" if b: "\<bar>b - of_int k * (2 * pi)\<bar> < 1" for b
  proof -
    obtain j :: int where j: "norm_angle b = b - of_int j * (2 * pi)" using norm_angle_turns by blast
    have "\<bar>real_of_int (k - j) * (2 * pi)\<bar> = \<bar>norm_angle b - (b - of_int k * (2 * pi))\<bar>"
      by (simp add: j algebra_simps)
    also have "\<dots> < pi + 1" using norm_angle_in_range [of b] b by linarith
    also have "\<dots> < 2 * pi" using pi_ge_two by simp
    finally have "\<bar>real_of_int (k - j)\<bar> < 1" using pi_gt_zero by (simp add: abs_mult)
    then have "k = j" by linarith
    with j show ?thesis by simp
  qed
  ultimately show ?thesis using that by blast
qed

lemma norm_angle_sin_cos: "sin (norm_angle a) = sin a" "cos (norm_angle a) = cos a"
proof -
  obtain k :: int where k: "norm_angle a = a - of_int k * (2 * pi)" using norm_angle_turns by blast
  have "sin (2 * pi * of_int k) = 0" "cos (2 * pi * of_int k) = 1"
    using sin_int_2pin [of k] cos_int_2pin [of k] by simp_all
  then show "sin (norm_angle a) = sin a" "cos (norm_angle a) = cos a"
    unfolding k by (simp_all add: sin_diff cos_diff mult.commute)
qed

lemma arctan_polar:
  assumes "0 < x"
  shows "sqrt (x\<^sup>2 + y\<^sup>2) * cos (arctan (y / x)) = x" and "sqrt (x\<^sup>2 + y\<^sup>2) * sin (arctan (y / x)) = y"
proof -
  have "1 + (y / x)\<^sup>2 = (x\<^sup>2 + y\<^sup>2) / x\<^sup>2" using assms by (simp add: field_simps)
  then have r: "sqrt (1 + (y / x)\<^sup>2) = sqrt (x\<^sup>2 + y\<^sup>2) / x" using assms by (simp add: real_sqrt_divide)
  have "sqrt (x\<^sup>2 + y\<^sup>2) > 0" using assms by (simp add: add_pos_nonneg)
  then show "sqrt (x\<^sup>2 + y\<^sup>2) * cos (arctan (y / x)) = x" "sqrt (x\<^sup>2 + y\<^sup>2) * sin (arctan (y / x)) = y"
    unfolding cos_arctan sin_arctan r using assms by simp_all
qed

lemma atan2_cartesian:
  "sqrt (x\<^sup>2 + y\<^sup>2) * cos (atan2 y x) = x \<and> sqrt (x\<^sup>2 + y\<^sup>2) * sin (atan2 y x) = y"
proof -
  consider "0 < x" | "x < 0" | "x = 0" by linarith
  then show ?thesis
  proof cases
    case 1
    then show ?thesis using arctan_polar [OF 1, of y] by (simp add: atan2_def)
  next
    case 2
    then have "0 < - x" by simp
    from arctan_polar [OF this, of "- y"] 2 show ?thesis
      by (simp add: atan2_def sin_add cos_add sin_diff cos_diff algebra_simps)
  qed (simp add: atan2_def)
qed

section \<open>Facts on rotations\<close>

lemmas mat_simps = mmul_def mapply_def identity3_def rotX_def rotY_def rotZ_def

lemma rot_inverse:
  "mmul (rotZ (- a)) (mmul (rotZ a) M) = M"
  "mmul (rotY (- a)) (mmul (rotY a) M) = M"
proof -
  obtain a0 a1 a2 b0 b1 b2 c0 c1 c2 where M: "M = ((a0, a1, a2), (b0, b1, b2), (c0, c1, c2))"
    by (metis surj_pair)
  have sc: "sin a * sin a + cos a * cos a = 1"
    using sin_cos_squared_add [of a] by (simp add: power2_eq_square)
  have cs: "cos a * (cos a * x - sin a * y) + sin a * (sin a * x + cos a * y) = x"
    "cos a * (sin a * x + cos a * y) - sin a * (cos a * x - sin a * y) = y" for x y
    using sc by algebra+
  show "mmul (rotZ (- a)) (mmul (rotZ a) M) = M" "mmul (rotY (- a)) (mmul (rotY a) M) = M"
    using cs by (simp_all add: M mat_simps algebra_simps)
qed

lemma mmul_identity: "mmul M identity3 = M"
proof -
  obtain a0 a1 a2 b0 b1 b2 c0 c1 c2 where M: "M = ((a0, a1, a2), (b0, b1, b2), (c0, c1, c2))"
    by (metis surj_pair)
  show ?thesis by (simp add: M mat_simps)
qed

lemma rpy_recovered:
  assumes "- pi < roll" and "roll \<le> pi" and "- (pi / 2) < pitch" and "pitch < pi / 2"
    and "- pi < yaw" and "yaw \<le> pi"
  shows "GetRollPitchYaw (RollPitchYawToMatrix (roll, pitch, yaw)) = (roll, pitch, yaw)"
proof -
  define R where "R = RollPitchYawToMatrix (roll, pitch, yaw)"
  have R: "R = mmul (rotZ yaw) (mmul (rotY pitch) (rotX roll))"
    by (simp add: R_def RollPitchYawToMatrix_def Let_def mmul_identity)
  have cp: "0 < cos pitch" using assms(3,4) by (intro cos_gt_zero_pi) auto
  have "mentry R 1 0 = cos pitch * sin yaw" "mentry R 0 0 = cos pitch * cos yaw"
    by (simp_all add: R mat_simps)
  then have yaw: "atan2 (mentry R 1 0) (mentry R 0 0) = yaw"
    using atan2_polar [OF cp assms(5,6)] by simp
  have R1: "mmul (rotZ (- yaw)) R = mmul (rotY pitch) (rotX roll)" by (simp add: R rot_inverse)
  have "mentry (mmul (rotY pitch) (rotX roll)) 2 0 = - sin pitch"
    "mentry (mmul (rotY pitch) (rotX roll)) 0 0 = cos pitch"
    by (simp_all add: mat_simps)
  then have pitch: "atan2 (- mentry (mmul (rotY pitch) (rotX roll)) 2 0)
      (mentry (mmul (rotY pitch) (rotX roll)) 0 0) = pitch"
    using atan2_polar [of 1 pitch] assms(3,4) by simp
  have R2: "mmul (rotY (- pitch)) (mmul (rotY pitch) (rotX roll)) = rotX roll" by (rule rot_inverse)
  have "atan2 (mentry (rotX roll) 2 1) (mentry (rotX roll) 1 1) = roll"
    using atan2_polar [of 1 roll] assms(1,2) by (simp add: rotX_def)
  then show ?thesis
    unfolding R_def [symmetric] GetRollPitchYaw_def Let_def yaw R1 pitch R2 by simp
qed

section \<open>Properties\<close>

text \<open>
  \<^verbatim>\<open>norm_angle\<close> brings every angle into the range from \<open>-\<pi>\<close> to \<open>\<pi>\<close> by taking away whole turns,
  as long as their number fits the type \<^verbatim>\<open>int\<close>, and leaves an angle in that range alone.
\<close>

theorem norm_angle_correct:
  assumes "\<bar>a\<bar> / (2 * pi) + 1 / 2 < 2 ^ 31"
  shows "\<bar>norm_angle a\<bar> \<le> pi \<and> (\<exists>k :: int. \<bar>k\<bar> \<le> 2 ^ 31 \<and> norm_angle a = a - of_int k * (2 * pi)) \<and>
    (\<bar>a\<bar> \<le> pi \<longrightarrow> norm_angle a = a) \<and> sin (norm_angle a) = sin a \<and> cos (norm_angle a) = cos a"
proof -
  define q where "q = a / (2 * pi)"
  have q: "\<bar>q\<bar> + 1 / 2 < 2 ^ 31" using assms by (simp add: q_def)
  have "\<exists>k :: int. \<bar>k\<bar> \<le> 2 ^ 31 \<and> norm_angle a = a - of_int k * (2 * pi)"
  proof -
    consider "a > pi" | "a < - pi" | "\<bar>a\<bar> \<le> pi" by linarith
    then show ?thesis
    proof cases
      case 1
      have "real_of_int \<bar>trunc (q + 1 / 2)\<bar> \<le> real_of_int (2 ^ 31)"
        using q abs_trunc_le [of "q + 1 / 2"] by simp
      then have "\<bar>trunc (q + 1 / 2)\<bar> \<le> 2 ^ 31" by (simp only: of_int_le_iff)
      with 1 show ?thesis
        by (intro exI [of _ "trunc (q + 1 / 2)"]) (simp add: norm_angle_def Let_def q_def)
    next
      case 2
      have "real_of_int \<bar>trunc (q - 1 / 2)\<bar> \<le> real_of_int (2 ^ 31)"
        using q abs_trunc_le [of "q - 1 / 2"] by simp
      then have "\<bar>trunc (q - 1 / 2)\<bar> \<le> 2 ^ 31" by (simp only: of_int_le_iff)
      moreover have "\<not> pi < a" using 2 pi_gt_zero by linarith
      ultimately show ?thesis
        using 2 by (intro exI [of _ "trunc (q - 1 / 2)"]) (simp add: norm_angle_def Let_def q_def)
    next
      case 3
      then show ?thesis by (intro exI [of _ 0]) (simp add: norm_angle_id)
    qed
  qed
  then show ?thesis
    using norm_angle_in_range norm_angle_id norm_angle_sin_cos by blast
qed

theorem norm_angle_correct_witness:
  "\<bar>norm_angle 100\<bar> \<le> pi \<and> sin (norm_angle 100) = sin 100"
proof -
  have "\<bar>100 :: real\<bar> / (2 * pi) \<le> 100 / 4" using pi_ge_two by (intro frac_le) auto
  then have "\<bar>100 :: real\<bar> / (2 * pi) + 1 / 2 < 2 ^ 31" by simp
  from norm_angle_correct [OF this] show ?thesis by simp
qed

text \<open>
  roll, pitch and yaw are recovered from the rotation matrix built from them, for every
  roll and yaw from \<open>-\<pi>\<close> (exclusive) to \<open>\<pi>\<close> and every pitch between \<open>-\<pi>/2\<close> and \<open>\<pi>/2\<close>.
\<close>

theorem roll_pitch_yaw_roundtrip:
  assumes "- pi < roll" and "roll \<le> pi" and "- (pi / 2) < pitch" and "pitch < pi / 2"
    and "- pi < yaw" and "yaw \<le> pi"
  shows "GetRollPitchYaw (RollPitchYawToMatrix (roll, pitch, yaw)) = (roll, pitch, yaw)"
  using assms by (rule rpy_recovered)

theorem roll_pitch_yaw_roundtrip_witness:
  "GetRollPitchYaw (RollPitchYawToMatrix (-1, 1 / 10, 2)) = (-1, 1 / 10, 2)"
  using pi_ge_two by (intro roll_pitch_yaw_roundtrip) auto

text \<open>
  two points on a meridian: the bearing from the southern to the northern one is \<open>\<pi>/2\<close>
  and their distance is the Earth's radius times the difference of their latitudes.  On the
  equator the bearing to a point further east is 0: angles are counted from the east.
\<close>

theorem gps_north_and_east:
  assumes "0 < d" and "d < pi"
  shows "GPSBearingRad lat lon (lat + d) lon = pi / 2 \<and>
    GPSDistanceRad lat lon (lat + d) lon = 6371000 * d \<and>
    GPSBearingRad 0 lon 0 (lon + d) = 0"
proof -
  have "cos lat * sin (lat + d) - sin lat * cos (lat + d) = sin d"
    using sin_diff [of "lat + d" lat] by (simp add: mult.commute)
  moreover have "0 < sin d" using assms by (rule sin_gt_zero)
  ultimately have "GPSBearingRad lat lon (lat + d) lon = pi / 2"
    by (simp add: GPSBearingRad_def Let_def atan2_def)
  moreover have "GPSDistanceRad lat lon (lat + d) lon = 6371000 * d"
  proof -
    have "0 \<le> sin (d / 2)" using assms by (intro sin_ge_zero) auto
    moreover have "0 \<le> cos (d / 2)" using assms by (intro cos_ge_zero) auto
    moreover have "1 - (sin (d / 2))\<^sup>2 = (cos (d / 2))\<^sup>2" by (simp add: sin_squared_eq)
    ultimately have "sqrt ((sin (d / 2))\<^sup>2) = sin (d / 2)" "sqrt (1 - (sin (d / 2))\<^sup>2) = cos (d / 2)"
      by (simp_all only: real_sqrt_abs abs_of_nonneg)
    moreover have "atan2 (sin (d / 2)) (cos (d / 2)) = d / 2"
      using atan2_polar [of 1 "d / 2"] assms by simp
    ultimately show ?thesis by (simp add: GPSDistanceRad_def Let_def)
  qed
  moreover have "GPSBearingRad 0 lon 0 (lon + d) = 0"
    using \<open>0 < sin d\<close> by (simp add: GPSBearingRad_def Let_def atan2_def)
  ultimately show ?thesis by blast
qed

theorem gps_north_and_east_witness:
  "GPSBearingRad 1 2 (1 + 1 / 10) 2 = pi / 2 \<and> GPSDistanceRad 1 2 (1 + 1 / 10) 2 = 6371000 * (1 / 10) \<and>
   GPSBearingRad 0 2 0 (2 + 1 / 10) = 0"
  using pi_ge_two by (intro gps_north_and_east) auto

text \<open>
  \<^verbatim>\<open>Orthogonalize\<close> does not keep rotations: given a rotation matrix, whose rows are
  orthonormal with the first the cross product of the other two, it negates the first row.
\<close>

theorem orthogonalize_flips_rotation:
  assumes "mrow R 0 = vcross (mrow R 1) (mrow R 2)"
    and "vdot (mrow R 0) (mrow R 0) = 1" and "vdot (mrow R 1) (mrow R 1) = 1" and "vdot (mrow R 2) (mrow R 2) = 1"
    and "vdot (mrow R 0) (mrow R 1) = 0"
  shows "Orthogonalize R = (vscale (-1) (mrow R 0), mrow R 1, mrow R 2)"
proof -
  obtain r0 r1 r2 where R: "R = (r0, r1, r2)" by (metis surj_pair)
  obtain a b c x y z where rs: "r1 = (a, b, c)" "r2 = (x, y, z)" by (metis surj_pair)
  have flip: "vcross r2 r1 = vscale (-1) (vcross r1 r2)" by (simp add: rs)
  have norm: "vdot (vscale (-1) v) (vscale (-1) v) = vdot v v" for v by (cases v) auto
  have one: "vscale 1 v = v" and zero: "vadd v (vscale 0 w) = v" for v w
    by (cases v; cases w; simp)+
  show ?thesis
    using assms by (simp add: R Orthogonalize_def Let_def one zero flip norm)
qed

theorem orthogonalize_flips_rotation_witness:
  "Orthogonalize identity3 = ((-1, 0, 0), (0, 1, 0), (0, 0, 1))"
  using orthogonalize_flips_rotation [of identity3] by (simp add: identity3_def)

text \<open>
  Angles as quaternions: the conversions between matrices and quaternions are Eigen's and parameters, and
  the angles are recovered when those agree on rotations.
\<close>

definition GetRollPitchYawFromQuat :: "('q \<Rightarrow> mat3) \<Rightarrow> 'q \<Rightarrow> vec3" where
  "GetRollPitchYawFromQuat toRotationMatrix q = GetRollPitchYaw (toRotationMatrix q)"

definition RollPitchYawToQuat :: "(mat3 \<Rightarrow> 'q) \<Rightarrow> vec3 \<Rightarrow> 'q" where
  "RollPitchYawToQuat of_matrix angles = of_matrix (RollPitchYawToMatrix angles)"

lemma quat_recovered:
  assumes "\<And>a. toRotationMatrix (of_matrix (RollPitchYawToMatrix a)) = RollPitchYawToMatrix a"
    and "- pi < roll" "roll \<le> pi" "- (pi / 2) < pitch" "pitch < pi / 2" "- pi < yaw" "yaw \<le> pi"
  shows "GetRollPitchYawFromQuat toRotationMatrix (RollPitchYawToQuat of_matrix (roll, pitch, yaw)) = (roll, pitch, yaw)"
  using rpy_recovered [OF assms(2-)] by (simp add: GetRollPitchYawFromQuat_def RollPitchYawToQuat_def assms(1))

text \<open>Every angle of up to eight thousand million radians has a number of turns that fits.\<close>

lemma norm_angle_fits_small: "\<bar>a\<bar> \<le> 8 * 10 ^ 9 \<Longrightarrow> norm_angle_fits a"
proof -
  assume "\<bar>a\<bar> \<le> 8 * 10 ^ 9"
  then have "\<bar>a\<bar> / (2 * pi) \<le> 8 * 10 ^ 9 / 4" using pi_ge_two by (intro frac_le) simp_all
  then have "\<bar>a / (2 * pi)\<bar> \<le> 2 * 10 ^ 9" by (simp add: abs_divide)
  then have "\<bar>a / (2 * pi) + 1 / 2\<bar> < 2 ^ 31" "\<bar>a / (2 * pi) - 1 / 2\<bar> < 2 ^ 31"
    unfolding abs_le_iff abs_less_iff by simp_all
  then have "real_of_int \<bar>trunc (a / (2 * pi) + 1 / 2)\<bar> < real_of_int (2 ^ 31)" "real_of_int \<bar>trunc (a / (2 * pi) - 1 / 2)\<bar> < real_of_int (2 ^ 31)"
    using le_less_trans [OF abs_trunc_le] by simp_all
  then have "\<bar>trunc (a / (2 * pi) + 1 / 2)\<bar> < 2 ^ 31" "\<bar>trunc (a / (2 * pi) - 1 / 2)\<bar> < 2 ^ 31"
    unfolding of_int_less_iff .
  then show ?thesis by (auto simp: norm_angle_fits_def Let_def abs_less_iff)
qed

text \<open>The check is the conversion of the code: it fails exactly when one of the two casts does.\<close>

lemma norm_angle_checked_casts:
  "norm_angle_checked a =
     (if a > pi then bindr (to_int32 (a / (2 * pi) + 1 / 2)) (\<lambda>n. Inr (a - of_int n * (2 * pi)))
      else if a < - pi then bindr (to_int32 (a / (2 * pi) - 1 / 2)) (\<lambda>n. Inr (a - of_int n * (2 * pi)))
      else Inr a)"
proof -
  have "0 \<le> trunc (a / (2 * pi) + 1 / 2)" if "a > pi"
    using less_trans [OF pi_gt_zero that] by (intro trunc_nonneg(3) add_nonneg_nonneg divide_nonneg_pos) simp_all
  moreover have "trunc (a / (2 * pi) - 1 / 2) \<le> 0" if "a < - pi"
  proof (rule trunc_neg(3))
    have "a < pi" using that pi_gt_zero by linarith
    then show "a / (2 * pi) - 1 / 2 < 0" by (simp add: field_simps)
  qed
  ultimately show ?thesis
    by (auto simp: norm_angle_checked_def norm_angle_fits_def norm_angle_def to_int32_def to_int_def Let_def)
qed

section \<open>Vectors in messages\<close>

record Vector3_msg =
  msg_x :: "real option"
  msg_y :: "real option"
  msg_z :: "real option"

fun EigenToProto :: "vec3 \<Rightarrow> Vector3_msg \<Rightarrow> Vector3_msg" where
  "EigenToProto (x, y, z) m = m\<lparr>msg_x := Some x, msg_y := Some y, msg_z := Some z\<rparr>"

fun EigenToProtod :: "vec3 \<Rightarrow> Vector3_msg \<Rightarrow> Vector3_msg" where
  "EigenToProtod (x, y, z) m = m\<lparr>msg_x := Some x, msg_y := Some y, msg_z := Some z\<rparr>"

definition proto_vector :: "Vector3_msg \<Rightarrow> vec3" where
  "proto_vector m = (let rd = (\<lambda>f. case f of None \<Rightarrow> 0 | Some v \<Rightarrow> v) in (rd (msg_x m), rd (msg_y m), rd (msg_z m)))"

lemma EigenToProto_read: "proto_vector (EigenToProto v m) = v" "proto_vector (EigenToProtod v m) = v"
  by (cases v; simp add: proto_vector_def)+

text \<open>Random numbers: the generator's state is passed on, and the distribution is the library's.\<close>

definition util_Normal :: "(real \<Rightarrow> real \<Rightarrow> 'g \<Rightarrow> real \<times> 'g) \<Rightarrow> real \<Rightarrow> real \<Rightarrow> 'g \<Rightarrow> real \<times> 'g" where
  "util_Normal normal_distribution mean std generator = normal_distribution mean std generator"

end
