(* ===== verification/Sensors.thy ===== *)
theory Sensors
  imports Nav_Util
begin

text \<open>
  Two byte protocols: the radio receiver's SBUS frames (\<^verbatim>\<open>sensor/read-sbus.cc\<close>) and the text
  messages exchanged with the rigid wing (\<^verbatim>\<open>rigid_wing/rigid_wing.cc\<close>).
\<close>

section \<open>SBUS\<close>

record SBUS =
  channels :: "32 word list"
  ch17 :: bool
  ch18 :: bool
  frame_lost :: bool
  failsafe :: bool

text \<open>The message after \<^verbatim>\<open>Init\<close>.\<close>

definition sbus_init :: SBUS where
  "sbus_init = \<lparr>channels = replicate 16 0, ch17 = False, ch18 = False, frame_lost = False, failsafe = False\<rparr>"

text \<open>The bits of one channel, in the type \<^verbatim>\<open>int\<close>, from the byte the channel starts in and the next two.\<close>

definition channel_bits :: "nat \<Rightarrow> byte \<Rightarrow> byte \<Rightarrow> byte \<Rightarrow> 32 word" where
  "channel_bits start_bit b0 b1 b2 =
     (let end_bit = (start_bit + 11) mod 8;
          bits0 = drop_bit start_bit (ucast b0) AND 0xFF;
          (bits1, cur) = (if end_bit < 3 then (bits0 + push_bit (8 - start_bit) (ucast b1), b2) else (bits0, b1))
      in if end_bit \<noteq> 0 then bits1 + push_bit 3 (push_bit (8 - end_bit) (ucast cur) AND 0xFF) else bits1)"

definition sbus_channel :: "bytes \<Rightarrow> nat \<Rightarrow> 32 word res" where
  "sbus_channel data i =
     (let cur_bit = 11 * i; cur_byte = cur_bit div 8; start_bit = cur_bit mod 8
      in bindr (nth_checked data cur_byte) (\<lambda>b0.
         bindr (nth_checked data (cur_byte + 1)) (\<lambda>b1.
         bindr (if (start_bit + 11) mod 8 < 3 \<and> (start_bit + 11) mod 8 \<noteq> 0
                then nth_checked data (cur_byte + 2) else Inr 0) (\<lambda>b2.
           Inr (channel_bits start_bit b0 b1 b2)))))"

fun sbus_channels :: "bytes \<Rightarrow> nat \<Rightarrow> nat \<Rightarrow> 32 word list res" where
  "sbus_channels data i 0 = Inr []"
| "sbus_channels data i (Suc n) =
     bindr (sbus_channel data i) (\<lambda>c. bindr (sbus_channels data (Suc i) n) (\<lambda>cs. Inr (c # cs)))"

text \<open>
  Looking for the start byte: each turn reads at most one byte into \<^verbatim>\<open>start_byte\<close> (\<open>None\<close> is a
  failed read, which is fatal; reading nothing leaves the old byte, which is not the start byte)
  and then looks at the shutdown flag.  \<open>False\<close> is a node that was shut down or is still looking.
\<close>

fun sbus_sync :: "(bytes option \<times> bool) list \<Rightarrow> bool res" where
  "sbus_sync [] = Inr False"
| "sbus_sync ((None, shutdown) # turns) = Inl Fatal"
| "sbus_sync ((Some r, shutdown) # turns) =
     (if shutdown then Inr False
      else if r \<noteq> [] \<and> hd r = 0x0F then Inr True else sbus_sync turns)"

text \<open>
  What \<^verbatim>\<open>Iterate\<close> sends, if anything, when the read of the 24 bytes that follow the start byte
  gives \<open>data\<close> (\<open>None\<close> when it fails).
\<close>

definition sbus_iterate :: "(bytes option \<times> bool) list \<Rightarrow> bytes option \<Rightarrow> SBUS option res" where
  "sbus_iterate turns data_read =
     bindr (sbus_sync turns) (\<lambda>synced.
       if \<not> synced then Inr None
       else case data_read of
         None \<Rightarrow> Inl Fatal
       | Some data \<Rightarrow>
           if length data < 24 then Inr None
           else bindr (sbus_channels data 0 16) (\<lambda>cs.
                bindr (nth_checked data 22) (\<lambda>flags.
                  Inr (Some \<lparr>channels = cs, ch17 = (0x80 AND flags \<noteq> 0), ch18 = (0x40 AND flags \<noteq> 0),
                             frame_lost = (0x20 AND flags \<noteq> 0), failsafe = (0x10 AND flags \<noteq> 0)\<rparr>))))"

section \<open>The rigid wing\<close>

text \<open>Decimal numbers as \<^verbatim>\<open>printf\<close> writes them, padded with zeros to a width.\<close>

function nat_digits :: "nat \<Rightarrow> string" where
  "nat_digits n = (if n < 10 then [char_of (48 + n)] else nat_digits (n div 10) @ [char_of (48 + n mod 10)])"
  by auto
termination
  by (relation "measure id") auto

declare nat_digits.simps [simp del]

definition zero_pad :: "nat \<Rightarrow> string \<Rightarrow> string" where
  "zero_pad w s = replicate (w - length s) (CHR ''0'') @ s"

definition printf_d :: "nat \<Rightarrow> int \<Rightarrow> string" where
  "printf_d w n =
     (if n < 0 then CHR ''-'' # zero_pad (w - 1) (nat_digits (nat (- n))) else zero_pad w (nat_digits (nat n)))"

record wing_cmd =
  wc_state :: int
  wc_heel :: real
  wc_max_heel :: real
  wc_servo_pos :: int

text \<open>\<^verbatim>\<open>snprintf\<close>: what is left in the buffer, and the length the whole text would have.\<close>

definition wing_text :: "int \<Rightarrow> int \<Rightarrow> int \<Rightarrow> int \<Rightarrow> string" where
  "wing_text state heel max_heel aoa =
     ''['' @ printf_d 1 state @ '' '' @ printf_d 3 heel @ '' '' @ printf_d 2 max_heel @ '' '' @ printf_d 3 aoa @ '']''"

definition snprintf :: "nat \<Rightarrow> string \<Rightarrow> string \<times> nat" where
  "snprintf buf_len s = (take (buf_len - 1) s @ [CHR 0x00], length s)"

definition wing_ConstructMessage :: "wing_cmd \<Rightarrow> nat \<Rightarrow> (string \<times> nat) res" where
  "wing_ConstructMessage cmd buf_len =
     bindr (to_int32 (ToDeg (wc_heel cmd))) (\<lambda>heel.
     bindr (to_int32 (ToDeg (wc_max_heel cmd))) (\<lambda>max_heel.
       Inr (snprintf buf_len (wing_text (wc_state cmd) heel max_heel (wc_servo_pos cmd)))))"

text \<open>
  The bytes written to the connection, if there is one: \<open>n\<close> bytes of a buffer of 16, whose
  content beyond the text is \<open>garbage\<close>.
\<close>

definition ConstructAndSend :: "string \<Rightarrow> wing_cmd \<Rightarrow> int \<Rightarrow> string option res" where
  "ConstructAndSend garbage cmd conn_fd =
     bindr (wing_ConstructMessage cmd 16) (\<lambda>(text, n).
       if conn_fd = -1 then Inr None
       else if n \<le> 16 then Inr (Some (take n (text @ garbage))) else Inl OutOfBounds)"

record wing_feedback =
  wf_angle_of_attack :: "real option"
  wf_servo_pos :: "int option"
  wf_battery :: "real option"

text \<open>The type \<^verbatim>\<open>char\<close> is signed.\<close>

definition char_value :: "char \<Rightarrow> int" where
  "char_value c = (if of_char c < (128 :: int) then of_char c else of_char c - 256)"

definition wing_atoi :: "string \<Rightarrow> int" where
  "wing_atoi s = fold (\<lambda>c r. r * 10 + (char_value c - 0x30)) s 0"

definition kBufLen :: nat where
  "kBufLen = 13"

definition ParseMessage :: "string \<Rightarrow> nat \<Rightarrow> wing_feedback" where
  "ParseMessage buf n =
     (let cleared = \<lparr>wf_angle_of_attack = None, wf_servo_pos = None, wf_battery = None\<rparr>
      in if n \<noteq> kBufLen \<or> buf ! 0 \<noteq> CHR ''['' then cleared
         else \<lparr>wf_angle_of_attack = Some (norm_angle (ToRad (of_int (wing_atoi (take 3 (drop 1 buf)))))),
               wf_servo_pos = Some (wing_atoi (take 3 (drop 5 buf))),
               wf_battery = Some (of_int (wing_atoi (take 3 (drop 9 buf))) / 1000)\<rparr>)"

text \<open>
  \<^verbatim>\<open>WaitForChange\<close> puts the descriptor into a set of descriptors, which is an array access.
\<close>

definition WaitForChange :: "int \<Rightarrow> unit res" where
  "WaitForChange fd = (if fd < 0 \<or> 1024 \<le> fd then Inl OutOfBounds else Inr ())"

text \<open>
  \<^verbatim>\<open>AcceptConnection\<close> in turns: what \<^verbatim>\<open>select\<close> and \<^verbatim>\<open>accept4\<close> return and the shutdown flag after a
  timeout.  \<open>None\<close> is a node that gave up or is still waiting.
\<close>

fun accept_loop :: "int \<Rightarrow> (int \<times> int \<times> bool) list \<Rightarrow> int option res" where
  "accept_loop sock_fd [] = Inr None"
| "accept_loop sock_fd ((sel, fd, shutdown) # turns) =
     bindr (WaitForChange sock_fd) (\<lambda>_.
       if sel = 0 then (if shutdown then Inr None else accept_loop sock_fd turns) else Inr (Some fd))"

text \<open>The read loop: each turn is a result of \<^verbatim>\<open>read\<close>, the bytes read, and the shutdown flag.\<close>

datatype wing_read = Wing_data string | Wing_eof | Wing_stopped

fun read_loop :: "int \<Rightarrow> (int \<times> string \<times> bool) list \<Rightarrow> wing_read res" where
  "read_loop conn_fd [] = Inr Wing_stopped"
| "read_loop conn_fd ((n, buf, shutdown) # turns) =
     (if n > 0 then Inr (Wing_data (take (nat n) buf))
      else if n = 0 then Inr Wing_eof
      else bindr (WaitForChange conn_fd) (\<lambda>_. if shutdown then Inr Wing_stopped else read_loop conn_fd turns))"

text \<open>One iteration: the connection afterwards and the feedback that is sent.\<close>

definition wing_iterate :: "int \<Rightarrow> int \<Rightarrow> (int \<times> int \<times> bool) list \<Rightarrow> (int \<times> string \<times> bool) list \<Rightarrow>
    (int \<times> wing_feedback option) res" where
  "wing_iterate sock_fd conn_fd accepts reads =
     bindr (if conn_fd = -1 then accept_loop sock_fd accepts else Inr (Some conn_fd)) (\<lambda>c.
       case c of
         None \<Rightarrow> Inr (conn_fd, None)
       | Some fd \<Rightarrow>
           bindr (read_loop fd reads) (\<lambda>r. Inr (case r of
             Wing_data buf \<Rightarrow> (fd, Some (ParseMessage buf (length buf)))
           | Wing_eof \<Rightarrow> (-1, None)
           | Wing_stopped \<Rightarrow> (fd, None))))"

section \<open>Channels\<close>

text \<open>A channel is an eleven-bit slice, whichever bit it starts at.\<close>

lemma add_disjoint_bits:
  fixes v w :: "32 word"
  assumes "\<And>i. bit v i \<Longrightarrow> i < n" "\<And>i. bit w i \<Longrightarrow> n \<le> i"
  shows "bit (v + w) k \<longleftrightarrow> bit v k \<or> bit w k"
proof -
  have "v AND w = 0"
    by (rule bit_eqI) (use assms in \<open>fastforce simp: bit_and_iff\<close>)
  then show ?thesis by (simp add: disjunctive_add_eq_or bit_or_iff)
qed

lemma nth3: "[b0, b1, b2] ! j = (if j = 0 then b0 else if j = 1 then b1 else b2)" if "j < 3"
  using that by (auto simp: nth_Cons split: nat.splits)

lemma byte_position:
  "m < 8 \<Longrightarrow> m div 8 = 0 \<and> m mod 8 = m"
  "8 \<le> m \<Longrightarrow> m < 16 \<Longrightarrow> m div 8 = 1 \<and> m mod 8 = m - 8"
  "16 \<le> m \<Longrightarrow> m < 24 \<Longrightarrow> m div 8 = 2 \<and> m mod 8 = m - 16" for m :: nat
  by (auto simp: div_if mod_if)

text \<open>The three parts of a channel, from its first, middle and last byte.\<close>

lemma channel_parts:
  fixes b :: byte
  assumes "sb < 8" "e \<le> 8"
  shows "bit (drop_bit sb (ucast b) AND 0xFF :: 32 word) i \<longleftrightarrow> sb + i < 8 \<and> bit b (sb + i)"
    and "bit (push_bit (8 - sb) (ucast b) :: 32 word) i \<longleftrightarrow> 8 \<le> sb + i \<and> sb + i < 16 \<and> bit b (sb + i - 8)"
    and "bit (push_bit 3 (push_bit (8 - e) (ucast b) AND 0xFF) :: 32 word) i \<longleftrightarrow>
      11 \<le> e + i \<and> i < 11 \<and> bit b (e + i - 11)"
proof -
  note bits = bit_and_iff bit_drop_bit_eq bit_push_bit_iff bit_ucast_iff bit_mask_iff
  show "bit (drop_bit sb (ucast b) AND 0xFF :: 32 word) i \<longleftrightarrow> sb + i < 8 \<and> bit b (sb + i)"
    using assms(1) bit_beyond(1) [of "sb + i" b] unfolding masks_32
    by (cases "sb + i < 8") (auto simp: bits)
  have "i - (8 - sb) = sb + i - 8" if "8 \<le> sb + i" using that assms(1) by linarith
  then show "bit (push_bit (8 - sb) (ucast b) :: 32 word) i \<longleftrightarrow> 8 \<le> sb + i \<and> sb + i < 16 \<and> bit b (sb + i - 8)"
    using assms(1) bit_beyond(1) [of "sb + i - 8" b]
    by (cases "sb + i < 16"; cases "8 \<le> sb + i") (auto simp: bits)
  have "i - 3 - (8 - e) = e + i - 11" if "11 \<le> e + i" using that assms(2) by linarith
  then show "bit (push_bit 3 (push_bit (8 - e) (ucast b) AND 0xFF) :: 32 word) i \<longleftrightarrow>
      11 \<le> e + i \<and> i < 11 \<and> bit b (e + i - 11)"
    using assms(2) unfolding masks_32 by (cases "11 \<le> e + i"; cases "i < 11") (auto simp: bits)
qed

lemma bit_channel_bits:
  assumes "sb < 8" "k < 32"
  shows "bit (channel_bits sb b0 b1 b2) k \<longleftrightarrow>
    k < 11 \<and> bit ([b0, b1, b2] ! ((sb + k) div 8)) ((sb + k) mod 8)"
proof -
  define e where "e = (sb + 11) mod 8"
  define x :: "32 word" where "x = drop_bit sb (ucast b0) AND 0xFF"
  define y :: "32 word" where "y = push_bit (8 - sb) (ucast b1)"
  define z :: "byte \<Rightarrow> 32 word" where "z b = push_bit 3 (push_bit (8 - e) (ucast b) AND 0xFF)" for b
  have e: "e = (if sb < 5 then sb + 3 else sb - 5)" using assms(1) by (auto simp: e_def mod_if)
  then have e8: "e \<le> 8" using assms(1) by auto
  note p = channel_parts [OF assms(1) e8]
  have bx: "bit x i \<longleftrightarrow> sb + i < 8 \<and> bit b0 (sb + i)" for i unfolding x_def by (rule p(1))
  have byy: "bit y i \<longleftrightarrow> 8 \<le> sb + i \<and> sb + i < 16 \<and> bit b1 (sb + i - 8)" for i unfolding y_def by (rule p(2))
  have bz: "bit (z b) i \<longleftrightarrow> 11 \<le> e + i \<and> i < 11 \<and> bit b (e + i - 11)" for b i unfolding z_def by (rule p(3))
  have ch: "channel_bits sb b0 b1 b2 =
      (if e = 0 then x + y else if e < 3 then (x + y) + z b2 else x + z b1)"
    by (simp add: channel_bits_def Let_def x_def y_def z_def flip: e_def)
  have xy: "bit (x + y) i \<longleftrightarrow> bit x i \<or> bit y i" for i
    by (rule add_disjoint_bits [of _ "8 - sb"]) (auto simp: bx byy)
  have sum: "bit (channel_bits sb b0 b1 b2) k \<longleftrightarrow> bit x k \<or>
      (if e = 0 then bit y k else if e < 3 then bit y k \<or> bit (z b2) k else bit (z b1) k)"
  proof -
    have "bit ((x + y) + z b2) k \<longleftrightarrow> bit (x + y) k \<or> bit (z b2) k" if "e < 3" "e \<noteq> 0"
      using that e assms(1) by (intro add_disjoint_bits [of _ "16 - sb"]) (auto simp: xy bx byy bz split: if_splits)
    moreover have "bit (x + z b1) k \<longleftrightarrow> bit x k \<or> bit (z b1) k" if "\<not> e < 3"
      using that e assms(1) by (intro add_disjoint_bits [of _ "8 - sb"]) (auto simp: bx bz split: if_splits)
    ultimately show ?thesis unfolding ch using xy by auto
  qed
  consider "sb + k < 8" | "8 \<le> sb + k" "sb + k < 16" | "16 \<le> sb + k" by linarith
  then show ?thesis
  proof cases
    case 1
    then show ?thesis using e assms(1) byte_position(1) [OF 1] by (auto simp: sum bx byy bz split: if_splits)
  next
    case 2
    have "sb < 5 \<Longrightarrow> e + k - 11 = sb + k - 8" using e by simp
    with 2 show ?thesis
      using e assms(1) byte_position(2) [OF 2] by (auto simp: sum bx byy bz split: if_splits)
  next
    case 3
    show ?thesis
    proof (cases "k < 11")
      case True
      have "e + k - 11 = sb + k - 16" "5 \<le> sb" using e 3 True by auto
      with 3 True show ?thesis
        using e assms(1) byte_position(3) [OF 3] by (auto simp: sum bx byy bz split: if_splits)
    qed (use 3 e assms(1) in \<open>auto simp: sum bx byy bz split: if_splits\<close>)
  qed
qed

lemma bit_sbus_channel:
  assumes "length data = 24" "i < 16"
  shows "\<exists>c. sbus_channel data i = Inr c \<and> (\<forall>k. bit c k \<longleftrightarrow> k < 11 \<and> stream_bit data (11 * i + k))"
proof -
  define q where "q = 11 * i div 8"
  define s where "s = 11 * i mod 8"
  have pos: "11 * i = 8 * q + s" "s < 8" by (simp_all add: q_def s_def)
  then have le: "8 * q + s \<le> 165" using assms(2) by simp
  then have q: "q + 1 < 24" "q + 2 < 24" using pos by simp_all
  define b2 where "b2 = (if (s + 11) mod 8 < 3 \<and> (s + 11) mod 8 \<noteq> 0 then data ! (q + 2) else 0)"
  have ch: "sbus_channel data i = Inr (channel_bits s (data ! q) (data ! (q + 1)) b2)"
    using assms(1) q by (simp add: sbus_channel_def nth_checked_def b2_def flip: q_def s_def)
  have "bit (channel_bits s (data ! q) (data ! (q + 1)) b2) k \<longleftrightarrow> k < 11 \<and> stream_bit data (11 * i + k)" for k
  proof (cases "k < 32")
    case True
    have "([data ! q, data ! (q + 1), b2]) ! ((s + k) div 8) = data ! ((11 * i + k) div 8)" if "k < 11"
    proof -
      have d: "(11 * i + k) div 8 = q + (s + k) div 8" unfolding pos(1) by (simp add: add.assoc)
      have "(s + k) div 8 < 3" using that pos(2) by linarith
      moreover have "b2 = data ! (q + 2)" if two: "(s + k) div 8 = 2"
      proof -
        have "5 < s" using two \<open>k < 11\<close> by linarith
        then have "s = 6 \<or> s = 7" using pos(2) by linarith
        then show ?thesis by (auto simp: b2_def)
      qed
      ultimately show ?thesis
        unfolding d by (cases "(s + k) div 8 = 0"; cases "(s + k) div 8 = 1"; cases "(s + k) div 8 = 2") auto
    qed
    moreover have "(11 * i + k) mod 8 = (s + k) mod 8" unfolding pos(1) by (simp add: add.assoc)
    moreover have "k < 11 \<Longrightarrow> (11 * i + k) div 8 < length data" using assms by simp
    ultimately show ?thesis
      unfolding bit_channel_bits [OF pos(2) True] stream_bit_def by auto
  qed (auto dest: bit_imp_le_length)
  with ch show ?thesis by blast
qed

lemma sbus_channels_spec:
  assumes "length data = 24" "i + n \<le> 16"
  shows "\<exists>cs. sbus_channels data i n = Inr cs \<and> length cs = n \<and>
    (\<forall>j<n. \<forall>k. bit (cs ! j) k \<longleftrightarrow> k < 11 \<and> stream_bit data (11 * (i + j) + k))"
  using assms(2)
proof (induction n arbitrary: i)
  case (Suc n)
  obtain c where c: "sbus_channel data i = Inr c"
    "\<forall>k. bit c k \<longleftrightarrow> k < 11 \<and> stream_bit data (11 * i + k)"
    using bit_sbus_channel [OF assms(1), of i] Suc.prems by auto
  obtain cs where cs: "sbus_channels data (Suc i) n = Inr cs" "length cs = n"
    "\<forall>j<n. \<forall>k. bit (cs ! j) k \<longleftrightarrow> k < 11 \<and> stream_bit data (11 * (Suc i + j) + k)"
    using Suc.IH [of "Suc i"] Suc.prems by auto
  have "\<forall>j<Suc n. \<forall>k. bit ((c # cs) ! j) k \<longleftrightarrow> k < 11 \<and> stream_bit data (11 * (i + j) + k)"
    using c(2) cs(3) by (auto simp: nth_Cons algebra_simps split: nat.splits)
  with c(1) cs(1, 2) show ?case by (intro exI [of _ "c # cs"]) simp
qed simp

lemma and_single_bit: "(push_bit n 1 AND w \<noteq> 0) = bit w n" if "n < 8" for w :: byte
proof -
  have "bit (push_bit n 1 AND w) n = bit w n" using that by (simp add: bit_and_iff bit_exp_iff)
  moreover have "push_bit n 1 AND w = 0" if "\<not> bit w n"
    using that by (intro bit_eqI) (auto simp: bit_and_iff bit_exp_iff)
  ultimately show ?thesis by (metis bit_0_eq bot_apply bot_bool_def)
qed

lemma flag_bits:
  "(0x80 AND w \<noteq> 0) = bit w 7" "(0x40 AND w \<noteq> 0) = bit w 6"
  "(0x20 AND w \<noteq> 0) = bit w 5" "(0x10 AND w \<noteq> 0) = bit w 4" for w :: byte
  using and_single_bit [of 7 w] and_single_bit [of 6 w] and_single_bit [of 5 w] and_single_bit [of 4 w]
  by (simp_all add: push_bit_eq_mult)

section \<open>What the wing is told and what it answers\<close>

text \<open>Digits, and the number they stand for.\<close>

lemma char_value_digit: "d < 10 \<Longrightarrow> char_value (char_of (48 + d)) = int (48 + d)" for d :: nat
proof -
  assume "d < 10"
  then have "of_char (char_of (48 + d)) = int (48 + d)"
    using of_nat_of_char [of "char_of (48 + d)", where ?'a = int] by simp
  with \<open>d < 10\<close> show ?thesis by (simp add: char_value_def)
qed

lemma wing_atoi_append: "wing_atoi (s @ [c]) = wing_atoi s * 10 + (char_value c - 0x30)"
  by (simp add: wing_atoi_def)

lemma wing_atoi_digits: "wing_atoi (nat_digits n) = int n"
proof (induction n rule: nat_digits.induct)
  case (1 n)
  show ?case
  proof (cases "n < 10")
    case True
    then show ?thesis
      using char_value_digit [of n] by (simp add: nat_digits.simps [of n] wing_atoi_def)
  next
    case False
    then have "wing_atoi (nat_digits n) = int (n div 10) * 10 + int (n mod 10)"
      using char_value_digit [of "n mod 10"] 1
      by (simp add: nat_digits.simps [of n] wing_atoi_append del: of_nat_div of_nat_mod)
    also have "\<dots> = int (n div 10 * 10 + n mod 10)" by (simp only: of_nat_mult of_nat_add of_nat_numeral)
    finally show ?thesis by (simp only: div_mult_mod_eq)
  qed
qed

lemma wing_atoi_zero_pad: "wing_atoi (zero_pad w s) = wing_atoi s"
proof -
  have "fold (\<lambda>c r. r * 10 + (char_value c - 0x30)) (replicate k (CHR ''0'')) 0 = 0" for k
    by (induction k) (auto simp: char_value_def)
  then show ?thesis by (simp add: zero_pad_def wing_atoi_def)
qed

lemma length_nat_digits: "n < 10 ^ k \<Longrightarrow> 0 < k \<Longrightarrow> length (nat_digits n) \<le> k"
proof (induction n arbitrary: k rule: nat_digits.induct)
  case (1 n)
  show ?case
  proof (cases "n < 10")
    case False
    then obtain j where j: "k = Suc j" "0 < j"
      using "1.prems" by (cases k; cases "k = 1") auto
    then have "n div 10 < 10 ^ j" using "1.prems" by (simp add: less_mult_imp_div_less mult.commute)
    with j False 1(1) [of j] show ?thesis by (simp add: nat_digits.simps [of n])
  qed (use 1 in \<open>simp add: nat_digits.simps [of n]\<close>)
qed

lemma length_zero_pad: "length s \<le> w \<Longrightarrow> length (zero_pad w s) = w"
  by (simp add: zero_pad_def)

lemma length_printf_d:
  assumes "0 < w" "- (10 ^ (w - 1)) < n" "n < 10 ^ w" "n < 0 \<Longrightarrow> 1 < w"
  shows "length (printf_d w n) = w"
proof (cases "n < 0")
  case True
  then have "nat (- n) < 10 ^ (w - 1)" using assms(2) by (simp add: nat_less_iff)
  then have "length (nat_digits (nat (- n))) \<le> w - 1" using True assms(4) by (intro length_nat_digits) simp_all
  then show ?thesis using True assms(1) by (simp add: printf_d_def length_zero_pad)
next
  case False
  then have "nat n < 10 ^ w" using assms(3) by (simp add: nat_less_iff)
  then have "length (nat_digits (nat n)) \<le> w" using assms(1) by (intro length_nat_digits)
  then show ?thesis using False by (simp add: printf_d_def length_zero_pad)
qed

lemma wing_atoi_printf_d: "0 \<le> n \<Longrightarrow> wing_atoi (printf_d w n) = n"
  by (simp add: printf_d_def wing_atoi_zero_pad wing_atoi_digits)

section \<open>Properties\<close>

text \<open>
  C9: Once the start byte has been seen and the 24 bytes behind it are read, the receiver sends a
  message with sixteen channels.  Channel \<open>i\<close> is the eleven-bit little-endian slice at bit \<open>11 i\<close>
  of the frame, for each of the eight ways a channel can lie across its bytes, and the flags are
  the upper four bits of byte 22.
\<close>

theorem sbus_frame_decoding:
  assumes "sbus_sync turns = Inr True" "length data = 24"
  shows "\<exists>msg. sbus_iterate turns (Some data) = Inr (Some msg) \<and> length (channels msg) = 16 \<and>
    (\<forall>i<16. \<forall>k. bit (channels msg ! i) k \<longleftrightarrow> k < 11 \<and> stream_bit data (11 * i + k)) \<and>
    (ch17 msg, ch18 msg, frame_lost msg, failsafe msg) =
      (bit (data ! 22) 7, bit (data ! 22) 6, bit (data ! 22) 5, bit (data ! 22) 4)"
proof -
  obtain cs where cs: "sbus_channels data 0 16 = Inr cs" "length cs = 16"
    "\<forall>j<16. \<forall>k. bit (cs ! j) k \<longleftrightarrow> k < 11 \<and> stream_bit data (11 * (0 + j) + k)"
    using sbus_channels_spec [OF assms(2), of 0 16] by auto
  show ?thesis
    using assms cs by (simp add: sbus_iterate_def nth_checked_def flag_bits)
qed

theorem sbus_frame_decoding_witness:
  "\<exists>msg. sbus_iterate [(Some [0x33], False), (Some [], False), (Some [0x0F], False)] (Some (replicate 22 0xFF @ [0x90, 0])) =
      Inr (Some msg) \<and> length (channels msg) = 16 \<and> bit (channels msg ! 3) 10 \<and> \<not> bit (channels msg ! 3) 11 \<and> ch17 msg"
proof -
  have "sbus_sync [(Some [0x33], False), (Some [], False), (Some [0x0F], False)] = Inr True"
    "length (replicate 22 0xFF @ [0x90, 0 :: byte]) = 24" by simp_all
  from sbus_frame_decoding [OF this] obtain msg where msg:
    "sbus_iterate [(Some [0x33], False), (Some [], False), (Some [0x0F], False)] (Some (replicate 22 0xFF @ [0x90, 0])) =
      Inr (Some msg)" "length (channels msg) = 16"
    "\<forall>i<16. \<forall>k. bit (channels msg ! i) k \<longleftrightarrow> k < 11 \<and> stream_bit (replicate 22 0xFF @ [0x90, 0]) (11 * i + k)"
    "ch17 msg = bit ((replicate 22 0xFF @ [0x90, 0 :: byte]) ! 22) 7" by auto
  have "stream_bit (replicate 22 0xFF @ [0x90, 0]) (11 * 3 + 10)"
    by (simp add: stream_bit_def nth_append)
  moreover have "bit ((replicate 22 0xFF @ [0x90, 0 :: byte]) ! 22) 7"
    by (simp add: nth_append)
  ultimately show ?thesis using msg by (intro exI [of _ msg]) simp
qed

text \<open>
  What the wing reports is what the feedback message says: a thirteen-character report of an
  angle of attack in degrees, a servo position and a battery charge, each a three-digit number, is
  parsed into the normalised angle in radians, the position and the charge in thousandths.
\<close>

theorem wing_report_roundtrip:
  assumes "0 \<le> a" "a < 1000" "0 \<le> s" "s < 1000" "0 \<le> b" "b < 1000"
    and "buf = ''['' @ printf_d 3 a @ '' '' @ printf_d 3 s @ '' '' @ printf_d 3 b @ '']''"
  shows "ParseMessage buf (length buf) =
    \<lparr>wf_angle_of_attack = Some (norm_angle (ToRad (of_int a))), wf_servo_pos = Some s,
     wf_battery = Some (of_int b / 1000)\<rparr>"
proof -
  have len: "length (printf_d 3 a) = 3" "length (printf_d 3 s) = 3" "length (printf_d 3 b) = 3"
    using assms by (simp_all add: length_printf_d)
  have "buf ! 0 = CHR ''[''" "length buf = 13" "take 3 (drop 1 buf) = printf_d 3 a"
    "take 3 (drop 5 buf) = printf_d 3 s" "take 3 (drop 9 buf) = printf_d 3 b"
    unfolding assms(7) using len by simp_all
  then show ?thesis
    using assms(1, 3, 5) by (simp add: ParseMessage_def kBufLen_def wing_atoi_printf_d)
qed

theorem wing_report_roundtrip_witness:
  "ParseMessage ''[015 042 987]'' 13 =
    \<lparr>wf_angle_of_attack = Some (norm_angle (ToRad 15)), wf_servo_pos = Some 42, wf_battery = Some (987 / 1000)\<rparr>"
proof -
  have "printf_d 3 15 = ''015''" "printf_d 3 42 = ''042''" "printf_d 3 987 = ''987''"
    by (simp_all add: printf_d_def nat_digits.simps zero_pad_def char_of_def bit_0)
  then show ?thesis using wing_report_roundtrip [of 15 42 987 "''[015 042 987]''"] by (simp add: eval_nat_numeral)
qed

text \<open>
  A command whose numbers fit their columns is written to the connection as exactly fourteen
  characters, the first a bracket, the last a bracket, with nothing of the buffer behind the text;
  a command whose text is longer than the sixteen bytes of the buffer makes the node write bytes
  from beyond its buffer.
\<close>

theorem wing_command_length:
  assumes "to_int32 (ToDeg (wc_heel cmd)) = Inr heel" "to_int32 (ToDeg (wc_max_heel cmd)) = Inr max_heel"
    "conn_fd \<noteq> -1"
  shows "(0 \<le> wc_state cmd \<and> wc_state cmd < 10 \<and> -100 < heel \<and> heel < 1000 \<and> -10 < max_heel \<and> max_heel < 100 \<and>
      -100 < wc_servo_pos cmd \<and> wc_servo_pos cmd < 1000 \<longrightarrow>
      (\<exists>body. length body = 12 \<and> ConstructAndSend garbage cmd conn_fd = Inr (Some (''['' @ body @ '']'')))) \<and>
    (16 < length (wing_text (wc_state cmd) heel max_heel (wc_servo_pos cmd)) \<longrightarrow>
      ConstructAndSend garbage cmd conn_fd = Inl OutOfBounds)"
proof (intro conjI impI)
  define msg where "msg = wing_text (wc_state cmd) heel max_heel (wc_servo_pos cmd)"
  have send: "ConstructAndSend garbage cmd conn_fd =
      (if length msg \<le> 16 then Inr (Some (take (length msg) (take 15 msg @ [CHR 0x00] @ garbage))) else Inl OutOfBounds)"
    using assms by (simp add: ConstructAndSend_def wing_ConstructMessage_def snprintf_def msg_def)
  {
    assume "16 < length (wing_text (wc_state cmd) heel max_heel (wc_servo_pos cmd))"
    with send show "ConstructAndSend garbage cmd conn_fd = Inl OutOfBounds" by (simp add: msg_def)
  }
  assume r: "0 \<le> wc_state cmd \<and> wc_state cmd < 10 \<and> -100 < heel \<and> heel < 1000 \<and> -10 < max_heel \<and> max_heel < 100 \<and>
    -100 < wc_servo_pos cmd \<and> wc_servo_pos cmd < 1000"
  define body where "body = printf_d 1 (wc_state cmd) @ '' '' @ printf_d 3 heel @ '' '' @ printf_d 2 max_heel @ '' '' @
    printf_d 3 (wc_servo_pos cmd)"
  have "length (printf_d 1 (wc_state cmd)) = 1" "length (printf_d 3 heel) = 3" "length (printf_d 2 max_heel) = 2"
    "length (printf_d 3 (wc_servo_pos cmd)) = 3"
    using r by (auto intro!: length_printf_d)
  then have "length body = 12" by (simp add: body_def)
  moreover have "msg = ''['' @ body @ '']''" by (simp add: msg_def wing_text_def body_def)
  ultimately show "\<exists>body. length body = 12 \<and> ConstructAndSend garbage cmd conn_fd = Inr (Some (''['' @ body @ '']''))"
    by (intro exI [of _ body]) (simp add: send)
qed

theorem wing_command_length_witness:
  "ConstructAndSend [] \<lparr>wc_state = 0, wc_heel = 0, wc_max_heel = 0, wc_servo_pos = 1234567\<rparr> 5 = Inl OutOfBounds"
proof -
  have "to_int32 (ToDeg 0) = Inr 0" by (simp add: ToDeg_def to_int32_def to_int_def trunc_def)
  with wing_command_length [of "\<lparr>wc_state = 0, wc_heel = 0, wc_max_heel = 0, wc_servo_pos = 1234567\<rparr>" 0 0 5 "[]"]
  show ?thesis
    by (simp add: wing_text_def printf_d_def nat_digits.simps zero_pad_def)
qed

text \<open>
  A connection attempt that fails is taken for a connection: when \<^verbatim>\<open>accept4\<close> gives -1 the node
  goes on to read from descriptor -1, and the failing read makes it put that descriptor into a
  descriptor set, outside the set's array.
\<close>

theorem failed_accept_is_used:
  assumes "0 \<le> sock_fd" "sock_fd < 1024" "sel \<noteq> 0" "n < 0"
  shows "wing_iterate sock_fd (-1) ((sel, -1, sd) # accepts) ((n, buf, sd') # reads) = Inl OutOfBounds"
  using assms by (simp add: wing_iterate_def WaitForChange_def)

theorem failed_accept_is_used_witness:
  "wing_iterate 3 (-1) [(1, -1, False)] [(-1, [], False)] = Inl OutOfBounds"
  by (rule failed_accept_is_used) simp_all

end
