(* ===== verification/Control_Msgs.thy ===== *)
theory Control_Msgs
  imports Nav_Util
begin

text \<open>
  The messages the control nodes exchange (\<^verbatim>\<open>control/actuator_cmd.proto\<close>): a field that need not
  be set is an option, and clearing a message unsets all of its fields.
\<close>

datatype MODE = MANUAL_RC | AUTO | MANUAL_WIFI | DISABLE | FILTERED_RC

datatype TACKER = TACKER_NONE | LINE | REWARD | TACKER_DISABLED | LINE_PLAN

record ControlMode =
  winch_mode :: "MODE option"
  tacker :: "TACKER option"
  rudder_mode :: "MODE option"
  rigid_mode :: "MODE option"
  ballast_mode :: "MODE option"

definition clear_mode :: ControlMode where
  "clear_mode = \<lparr>winch_mode = None, tacker = None, rudder_mode = None, rigid_mode = None, ballast_mode = None\<rparr>"

record HeadingCmd =
  heading :: "real option"
  extra_sail :: "real option"

definition clear_heading :: HeadingCmd where
  "clear_heading = \<lparr>heading = None, extra_sail = None\<rparr>"

datatype SearchState = NO_TARGET | GOING_TO_BUOY | AT_BUOY

datatype ChallengeType = STATION_KEEP | CH_WAYPOINT | VISION | OBSTACLE

text \<open>Times are nanoseconds, as in \<^verbatim>\<open>util/clock.h\<close>.\<close>

abbreviation seconds :: "int \<Rightarrow> int" where
  "seconds n \<equiv> n * 10 ^ 9"

text \<open>An unset field of a message reads as its default.\<close>

definition get_or :: "'a \<Rightarrow> 'a option \<Rightarrow> 'a" where
  "get_or d v = (case v of None \<Rightarrow> d | Some a \<Rightarrow> a)"

lemma get_or_simps [simp]: "get_or d None = d" "get_or d (Some a) = a"
  by (simp_all add: get_or_def)

text \<open>Waypoints, in degrees of longitude and latitude, and what the tackers report.\<close>

record WaypointList =
  points :: "vec2 list"
  restart :: bool
  defined_start :: bool
  repeat :: bool

record TackerState =
  finished :: "bool option"
  last_waypoint :: "int option"
  near_waypoint :: "bool option"

end
