(* ===== verification/Waypoint_Manager.thy ===== *)
theory Waypoint_Manager
  imports Control_Msgs
begin

text \<open>
  The waypoint manager (\<^verbatim>\<open>control/waypoint_manager.cc\<close>): it takes the boat through a challenge by
  switching the controllers' modes and sending heading commands.  Handlers and the periodic
  iteration are events of one state machine; what the node sends is appended to \<open>wm_sent\<close>.
\<close>

section \<open>The node\<close>

datatype StationStates = GOTO_START | WAIT | BACK | FORTH | LEAVE
datatype VisionStates = FOLLOW_WAYPOINTS | FOLLOW_VISION
datatype ObstacleState = OB_WAYPOINT | OB_AVOID

datatype wm_out = Out_mode ControlMode | Out_heading HeadingCmd | Out_search SearchState

record WaypointManager =
  tacker_done :: bool
  last_waypoint :: int
  last_sbus_manual :: bool
  near_waypoint :: bool
  upwind_dir :: real
  vision_confidence :: int
  obs_cnt :: int
  vision_abs_heading :: real
  boat_yaw :: real
  initial_avoid_diff_heading :: real
  station_keep_state :: StationStates
  vision_state :: VisionStates
  obstacle_state :: ObstacleState
  station_keep_end :: int
  wm_mode :: ChallengeType
  control_mode_msg :: ControlMode
  search_state_msg :: SearchState
  heading_cmd_msg :: HeadingCmd
  wm_sent :: "wm_out list"

definition kVisionConfidenceThreshold :: int where
  "kVisionConfidenceThreshold = 250"

definition kVisionFoundThreshold :: int where
  "kVisionFoundThreshold = 700"

definition kVisionObstacleThreshold :: int where
  "kVisionObstacleThreshold = 200"

definition send_mode :: "WaypointManager \<Rightarrow> WaypointManager" where
  "send_mode w = w\<lparr>wm_sent := wm_sent w @ [Out_mode (control_mode_msg w)]\<rparr>"

definition send_heading :: "WaypointManager \<Rightarrow> WaypointManager" where
  "send_heading w = w\<lparr>wm_sent := wm_sent w @ [Out_heading (heading_cmd_msg w)]\<rparr>"

definition send_search :: "WaypointManager \<Rightarrow> WaypointManager" where
  "send_search w = w\<lparr>wm_sent := wm_sent w @ [Out_search (search_state_msg w)]\<rparr>"

definition set_heading :: "real \<Rightarrow> WaypointManager \<Rightarrow> WaypointManager" where
  "set_heading h w = w\<lparr>heading_cmd_msg := (heading_cmd_msg w)\<lparr>heading := Some h\<rparr>\<rparr>"

definition set_extra_sail :: "real \<Rightarrow> WaypointManager \<Rightarrow> WaypointManager" where
  "set_extra_sail x w = w\<lparr>heading_cmd_msg := (heading_cmd_msg w)\<lparr>extra_sail := Some x\<rparr>\<rparr>"

definition set_tacker :: "TACKER \<Rightarrow> WaypointManager \<Rightarrow> WaypointManager" where
  "set_tacker t w = w\<lparr>control_mode_msg := (control_mode_msg w)\<lparr>tacker := Some t\<rparr>\<rparr>"

definition only_tacker :: "TACKER \<Rightarrow> WaypointManager \<Rightarrow> WaypointManager" where
  "only_tacker t w = set_tacker t (w\<lparr>control_mode_msg := clear_mode\<rparr>)"

lemmas wm_msg_defs = send_mode_def send_heading_def send_search_def set_heading_def set_extra_sail_def
  set_tacker_def only_tacker_def

definition WaypointManager_new :: "int \<Rightarrow> WaypointManager" where
  "WaypointManager_new now =
     send_search \<lparr>tacker_done = False, last_waypoint = 0, last_sbus_manual = False, near_waypoint = False,
       upwind_dir = 0, vision_confidence = 0, obs_cnt = 0, vision_abs_heading = 0, boat_yaw = 0,
       initial_avoid_diff_heading = 0, station_keep_state = GOTO_START, vision_state = FOLLOW_WAYPOINTS,
       obstacle_state = OB_WAYPOINT, station_keep_end = now, wm_mode = CH_WAYPOINT, control_mode_msg = clear_mode,
       search_state_msg = NO_TARGET, heading_cmd_msg = clear_heading, wm_sent = []\<rparr>"

section \<open>Handlers\<close>

definition wm_handle_sbus :: "int list \<Rightarrow> WaypointManager \<Rightarrow> WaypointManager" where
  "wm_handle_sbus ch w =
     (if length ch \<ge> 3
      then let w1 = w\<lparr>control_mode_msg := clear_mode\<rparr>;
               cur_sbus_manual = (ch ! 2 < 1000)
           in if (ch ! 2 < 800 \<or> ch ! 2 > 1200) \<and> cur_sbus_manual \<noteq> last_sbus_manual w1
              then let m = (if cur_sbus_manual then FILTERED_RC else AUTO);
                       w2 = w1\<lparr>control_mode_msg := (control_mode_msg w1)\<lparr>rudder_mode := Some m, winch_mode := Some m\<rparr>\<rparr>
                   in (send_mode w2)\<lparr>last_sbus_manual := cur_sbus_manual\<rparr>
              else w1
      else w)"

definition wm_handle_tacker :: "bool \<Rightarrow> int \<Rightarrow> bool \<Rightarrow> WaypointManager \<Rightarrow> WaypointManager" where
  "wm_handle_tacker fin lst near w = w\<lparr>tacker_done := fin, last_waypoint := lst, near_waypoint := near\<rparr>"

definition auto_line_plan :: "WaypointManager \<Rightarrow> WaypointManager" where
  "auto_line_plan w = w\<lparr>control_mode_msg :=
     (control_mode_msg w)\<lparr>rudder_mode := Some AUTO, winch_mode := Some AUTO, tacker := Some LINE_PLAN\<rparr>\<rparr>"

definition wm_handle_challenge :: "ChallengeType option \<Rightarrow> WaypointManager \<Rightarrow> WaypointManager" where
  "wm_handle_challenge c w =
     (let w1 = send_heading (set_extra_sail 0 w)
      in case c of
           None \<Rightarrow> w1
         | Some ch \<Rightarrow>
             (let w2 = w1\<lparr>wm_mode := ch\<rparr>
              in case ch of
                   STATION_KEEP \<Rightarrow> send_mode (auto_line_plan (w2\<lparr>station_keep_state := GOTO_START\<rparr>))
                 | CH_WAYPOINT \<Rightarrow> auto_line_plan w2
                 | VISION \<Rightarrow> send_mode (auto_line_plan (w2\<lparr>vision_state := FOLLOW_WAYPOINTS\<rparr>))
                 | OBSTACLE \<Rightarrow> send_mode (auto_line_plan (w2\<lparr>obstacle_state := OB_WAYPOINT\<rparr>))))"

definition wm_handle_wind :: "real \<Rightarrow> real \<Rightarrow> WaypointManager \<Rightarrow> WaypointManager" where
  "wm_handle_wind x y w = w\<lparr>upwind_dir := atan2 (- y) (- x)\<rparr>"

definition wm_handle_vision :: "real option \<Rightarrow> real option \<Rightarrow> WaypointManager \<Rightarrow> WaypointManager res" where
  "wm_handle_vision h c w =
     (case (h, c) of
        (Some dir, Some conf) \<Rightarrow>
          bindr (norm_angle_checked (dir + boat_yaw w)) (\<lambda>abs_heading.
          bindr (to_int32 conf) (\<lambda>n.
            Inr (w\<lparr>vision_abs_heading := abs_heading, vision_confidence := n\<rparr>)))
      | _ \<Rightarrow> Inr w)"

definition wm_handle_boat :: "real \<Rightarrow> WaypointManager \<Rightarrow> WaypointManager" where
  "wm_handle_boat yaw w = w\<lparr>boat_yaw := yaw\<rparr>"

section \<open>The iteration\<close>

text \<open>\<open>t1\<close> and \<open>t2\<close> are the first and the second look at the clock.\<close>

definition DoStationKeep :: "int \<Rightarrow> int \<Rightarrow> WaypointManager \<Rightarrow> WaypointManager" where
  "DoStationKeep t1 t2 w =
     (case station_keep_state w of
        GOTO_START \<Rightarrow>
          (if tacker_done w
           then send_mode (only_tacker TACKER_DISABLED
                  (w\<lparr>station_keep_end := t1 + seconds 280, station_keep_state := WAIT\<rparr>))
           else w)
      | WAIT \<Rightarrow>
          (let w1 = send_heading (set_extra_sail (3 / 2) (set_heading (upwind_dir w) w));
               w2 = w1\<lparr>heading_cmd_msg := clear_heading\<rparr>
           in if t1 > station_keep_end w2
              then send_mode (set_tacker TACKER_DISABLED
                     (w2\<lparr>station_keep_state := LEAVE, station_keep_end := t2 + seconds 20\<rparr>))
              else w2)
      | BACK \<Rightarrow>
          (let w1 = send_heading (set_heading (norm_angle (upwind_dir w - pi * (1 / 2))) (set_extra_sail 0 w))
           in if t1 > station_keep_end w1
              then w1\<lparr>station_keep_state := LEAVE, station_keep_end := t2 + seconds 90\<rparr> else w1)
      | FORTH \<Rightarrow>
          (let w1 = send_heading (set_extra_sail (3 / 2) (set_heading (upwind_dir w + pi / 8) w));
               w2 = w1\<lparr>heading_cmd_msg := clear_heading\<rparr>
           in if t1 > station_keep_end w2 then w2\<lparr>station_keep_state := LEAVE\<rparr> else w2)
      | LEAVE \<Rightarrow>
          send_heading (set_heading (norm_angle (upwind_dir w + pi * (3 / 4))) (set_extra_sail 0 w)))"

definition DoVisionSearch :: "WaypointManager \<Rightarrow> WaypointManager" where
  "DoVisionSearch w =
     (case vision_state w of
        FOLLOW_WAYPOINTS \<Rightarrow>
          (let w1 = w\<lparr>search_state_msg := NO_TARGET\<rparr>
           in send_search
                (if (tacker_done w1 \<or> last_waypoint w1 \<ge> 1) \<and> vision_confidence w1 > kVisionConfidenceThreshold
                 then (send_mode (only_tacker TACKER_DISABLED (w1\<lparr>search_state_msg := GOING_TO_BUOY\<rparr>)))
                        \<lparr>vision_state := FOLLOW_VISION\<rparr>
                 else w1))
      | FOLLOW_VISION \<Rightarrow>
          (let w1 = send_heading (set_heading (vision_abs_heading w) w)
           in send_search
                (if vision_confidence w1 > kVisionFoundThreshold
                 then let w2 = w1\<lparr>search_state_msg := AT_BUOY\<rparr>;
                          w3 = send_heading (set_extra_sail (3 / 2) (set_heading (upwind_dir w2) w2));
                          w4 = w3\<lparr>heading_cmd_msg := clear_heading\<rparr>
                      in send_mode (set_tacker TACKER_DISABLED w4)
                 else if vision_confidence w1 < kVisionConfidenceThreshold
                 then send_mode (only_tacker LINE_PLAN w1)
                 else w1)))"

definition DoObstacleAvoid :: "WaypointManager \<Rightarrow> WaypointManager" where
  "DoObstacleAvoid w =
     (case obstacle_state w of
        OB_WAYPOINT \<Rightarrow>
          (if \<not> near_waypoint w \<and> vision_confidence w > kVisionObstacleThreshold
           then (send_mode (only_tacker TACKER_DISABLED (w\<lparr>obs_cnt := 0\<rparr>)))
                  \<lparr>initial_avoid_diff_heading :=
                     pi / 2 * (if norm_angle (vision_abs_heading w - boat_yaw w) > 0 then 1 else -1),
                   obstacle_state := OB_AVOID\<rparr>
           else w)
      | OB_AVOID \<Rightarrow>
          (let w1 = w\<lparr>obs_cnt := obs_cnt w + 1\<rparr>;
               w2 = send_heading (set_heading (norm_angle (initial_avoid_diff_heading w1 + boat_yaw w1)) w1)
           in if obs_cnt w2 > 50 \<and> vision_confidence w2 < kVisionObstacleThreshold
              then (send_mode (only_tacker LINE_PLAN w2))\<lparr>obstacle_state := OB_WAYPOINT\<rparr>
              else w2))"

definition wm_iterate :: "int \<Rightarrow> int \<Rightarrow> WaypointManager \<Rightarrow> WaypointManager" where
  "wm_iterate t1 t2 w =
     (case wm_mode w of
        STATION_KEEP \<Rightarrow> DoStationKeep t1 t2 w
      | CH_WAYPOINT \<Rightarrow> w
      | VISION \<Rightarrow> DoVisionSearch w
      | OBSTACLE \<Rightarrow> DoObstacleAvoid w)"

text \<open>The angles that an iteration normalises; the step of the node checks that their turns fit an \<^verbatim>\<open>int\<close>.\<close>

definition wm_angles :: "WaypointManager \<Rightarrow> real list" where
  "wm_angles w =
     (case wm_mode w of
        STATION_KEEP \<Rightarrow>
          (case station_keep_state w of
             BACK \<Rightarrow> [upwind_dir w - pi * (1 / 2)] | LEAVE \<Rightarrow> [upwind_dir w + pi * (3 / 4)] | _ \<Rightarrow> [])
      | OBSTACLE \<Rightarrow>
          (case obstacle_state w of
             OB_WAYPOINT \<Rightarrow>
               (if \<not> near_waypoint w \<and> vision_confidence w > kVisionObstacleThreshold
                then [vision_abs_heading w - boat_yaw w] else [])
           | OB_AVOID \<Rightarrow> [initial_avoid_diff_heading w + boat_yaw w])
      | _ \<Rightarrow> [])"

datatype wm_event =
    Wm_sbus "int list"
  | Wm_tacker bool int bool
  | Wm_challenge "ChallengeType option"
  | Wm_wind real real
  | Wm_vision "real option" "real option"
  | Wm_boat real
  | Wm_iterate int int

fun wm_step :: "wm_event \<Rightarrow> WaypointManager \<Rightarrow> WaypointManager res" where
  "wm_step (Wm_sbus ch) w = Inr (wm_handle_sbus ch w)"
| "wm_step (Wm_tacker d l n) w = Inr (wm_handle_tacker d l n w)"
| "wm_step (Wm_challenge c) w = Inr (wm_handle_challenge c w)"
| "wm_step (Wm_wind x y) w = Inr (wm_handle_wind x y w)"
| "wm_step (Wm_vision h c) w = wm_handle_vision h c w"
| "wm_step (Wm_boat yaw) w = Inr (wm_handle_boat yaw w)"
| "wm_step (Wm_iterate t1 t2) w =
     (if list_all norm_angle_fits (wm_angles w) then Inr (wm_iterate t1 t2 w) else Inl BadCast)"

section \<open>What the node sends\<close>

definition heading_ok :: "HeadingCmd \<Rightarrow> bool" where
  "heading_ok m \<longleftrightarrow> (case heading m of None \<Rightarrow> True | Some h \<Rightarrow> \<bar>h\<bar> \<le> pi) \<and> extra_sail m \<in> {None, Some 0, Some (3 / 2)}"

definition mode_ok :: "ControlMode \<Rightarrow> bool" where
  "mode_ok m \<longleftrightarrow> rudder_mode m = winch_mode m \<and> rudder_mode m \<in> {None, Some AUTO, Some FILTERED_RC} \<and>
     tacker m \<in> {None, Some TACKER_DISABLED, Some LINE_PLAN} \<and> rigid_mode m = None \<and> ballast_mode m = None"

fun out_ok :: "wm_out \<Rightarrow> bool" where
  "out_ok (Out_mode m) = mode_ok m"
| "out_ok (Out_heading m) = heading_ok m"
| "out_ok (Out_search s) = True"

definition wm_inv :: "WaypointManager \<Rightarrow> bool" where
  "wm_inv w \<longleftrightarrow> station_keep_state w \<in> {GOTO_START, WAIT, LEAVE} \<and> \<bar>upwind_dir w\<bar> \<le> pi \<and> \<bar>vision_abs_heading w\<bar> \<le> pi \<and>
     \<bar>boat_yaw w\<bar> \<le> 10 ^ 9 \<and> \<bar>initial_avoid_diff_heading w\<bar> \<le> pi \<and>
     mode_ok (control_mode_msg w) \<and> heading_ok (heading_cmd_msg w) \<and> list_all out_ok (wm_sent w)"

fun wm_event_ok :: "wm_event \<Rightarrow> bool" where
  "wm_event_ok (Wm_vision h c) = (\<bar>get_or 0 h\<bar> \<le> 10 ^ 9 \<and> \<bar>get_or 0 c\<bar> < 2 ^ 31)"
| "wm_event_ok (Wm_boat yaw) = (\<bar>yaw\<bar> \<le> 10 ^ 9)"
| "wm_event_ok _ = True"

lemma heading_ok_simps [simp]:
  "heading_ok clear_heading"
  "heading_ok m \<Longrightarrow> \<bar>h\<bar> \<le> pi \<Longrightarrow> heading_ok (m\<lparr>heading := Some h\<rparr>)"
  "heading_ok m \<Longrightarrow> x = 0 \<or> x = 3 / 2 \<Longrightarrow> heading_ok (m\<lparr>extra_sail := Some x\<rparr>)"
  by (auto simp: heading_ok_def clear_heading_def)

lemma mode_ok_simps [simp]:
  "mode_ok clear_mode"
  "mode_ok m \<Longrightarrow> t \<in> {TACKER_DISABLED, LINE_PLAN} \<Longrightarrow> mode_ok (m\<lparr>tacker := Some t\<rparr>)"
  "mode_ok m \<Longrightarrow> r \<in> {AUTO, FILTERED_RC} \<Longrightarrow> mode_ok (m\<lparr>rudder_mode := Some r, winch_mode := Some r\<rparr>)"
  by (auto simp: mode_ok_def clear_mode_def)

lemma wm_inv_msgs:
  "wm_inv w \<Longrightarrow> wm_inv (send_mode w)"
  "wm_inv w \<Longrightarrow> wm_inv (send_heading w)"
  "wm_inv w \<Longrightarrow> wm_inv (send_search w)"
  "wm_inv w \<Longrightarrow> \<bar>h\<bar> \<le> pi \<Longrightarrow> wm_inv (set_heading h w)"
  "wm_inv w \<Longrightarrow> x = 0 \<or> x = 3 / 2 \<Longrightarrow> wm_inv (set_extra_sail x w)"
  "wm_inv w \<Longrightarrow> t \<in> {TACKER_DISABLED, LINE_PLAN} \<Longrightarrow> wm_inv (set_tacker t w)"
  "wm_inv w \<Longrightarrow> t \<in> {TACKER_DISABLED, LINE_PLAN} \<Longrightarrow> wm_inv (only_tacker t w)"
  "wm_inv w \<Longrightarrow> wm_inv (auto_line_plan w)"
  "wm_inv w \<Longrightarrow> wm_inv (w\<lparr>heading_cmd_msg := clear_heading\<rparr>)"
  "wm_inv w \<Longrightarrow> wm_inv (w\<lparr>control_mode_msg := clear_mode\<rparr>)"
  by (auto simp: wm_inv_def wm_msg_defs auto_line_plan_def)

text \<open>Assignments that do not touch what the invariant is about.\<close>

lemma wm_inv_plain [simp]:
  "wm_inv (w\<lparr>tacker_done := b1\<rparr>) = wm_inv w"
  "wm_inv (w\<lparr>last_waypoint := b2\<rparr>) = wm_inv w"
  "wm_inv (w\<lparr>last_sbus_manual := b3\<rparr>) = wm_inv w"
  "wm_inv (w\<lparr>near_waypoint := b4\<rparr>) = wm_inv w"
  "wm_inv (w\<lparr>vision_confidence := b5\<rparr>) = wm_inv w"
  "wm_inv (w\<lparr>obs_cnt := b6\<rparr>) = wm_inv w"
  "wm_inv (w\<lparr>vision_state := b9\<rparr>) = wm_inv w"
  "wm_inv (w\<lparr>obstacle_state := b10\<rparr>) = wm_inv w"
  "wm_inv (w\<lparr>station_keep_end := b11\<rparr>) = wm_inv w"
  "wm_inv (w\<lparr>wm_mode := b12\<rparr>) = wm_inv w"
  "wm_inv (w\<lparr>search_state_msg := b13\<rparr>) = wm_inv w"
  by (simp_all add: wm_inv_def)

lemma wm_inv_station: "wm_inv w \<Longrightarrow> st \<in> {GOTO_START, WAIT, LEAVE} \<Longrightarrow> wm_inv (w\<lparr>station_keep_state := st\<rparr>)"
  by (simp add: wm_inv_def)

lemma wm_inv_avoid: "wm_inv w \<Longrightarrow> \<bar>a\<bar> \<le> pi \<Longrightarrow> wm_inv (w\<lparr>initial_avoid_diff_heading := a\<rparr>)"
  by (simp add: wm_inv_def)

lemma wm_angles_fit: "wm_inv w \<Longrightarrow> list_all norm_angle_fits (wm_angles w)"
proof -
  assume inv: "wm_inv w"
  have fits: "norm_angle_fits a" if "\<bar>a\<bar> \<le> 4 * 2 + 10 ^ 9" for a by (rule norm_angle_fits_small) (use that in simp)
  have "\<bar>upwind_dir w - pi * (1 / 2)\<bar> \<le> 4 * 2 + 10 ^ 9" "\<bar>upwind_dir w + pi * (3 / 4)\<bar> \<le> 4 * 2 + 10 ^ 9"
    "\<bar>vision_abs_heading w - boat_yaw w\<bar> \<le> 4 * 2 + 10 ^ 9" "\<bar>initial_avoid_diff_heading w + boat_yaw w\<bar> \<le> 4 * 2 + 10 ^ 9"
    using inv pi_less_4 pi_gt_zero by (auto simp: wm_inv_def abs_le_iff)
  then show ?thesis
    by (auto simp: wm_angles_def fits split: ChallengeType.split StationStates.split ObstacleState.split)
qed

lemma wm_inv_bounds: "wm_inv w \<Longrightarrow> \<bar>upwind_dir w\<bar> \<le> pi" "wm_inv w \<Longrightarrow> \<bar>vision_abs_heading w\<bar> \<le> pi"
  by (simp_all add: wm_inv_def)

lemma wm_fields [simp]:
  "upwind_dir (send_heading w) = upwind_dir w" "upwind_dir (set_heading h w) = upwind_dir w"
  "vision_confidence (send_heading w) = vision_confidence w" "vision_confidence (set_heading h w) = vision_confidence w"
  "station_keep_end (send_heading w) = station_keep_end w" "station_keep_end (set_heading h w) = station_keep_end w"
  "station_keep_end (set_extra_sail x w) = station_keep_end w"
  by (simp_all add: wm_msg_defs)

lemma DoStationKeep_inv: "wm_inv w \<Longrightarrow> wm_inv (DoStationKeep t1 t2 w)"
proof -
  assume inv: "wm_inv w"
  have st: "station_keep_state w \<in> {GOTO_START, WAIT, LEAVE}" using inv by (simp add: wm_inv_def)
  note facts = inv wm_inv_msgs wm_inv_station wm_inv_bounds norm_angle_in_range
  from st show ?thesis
    unfolding DoStationKeep_def Let_def by (auto intro!: facts)
qed

lemma DoVisionSearch_inv: "wm_inv w \<Longrightarrow> wm_inv (DoVisionSearch w)"
  unfolding DoVisionSearch_def Let_def
  by (cases "vision_state w") (auto intro!: wm_inv_msgs wm_inv_bounds)

lemma DoObstacleAvoid_inv: "wm_inv w \<Longrightarrow> wm_inv (DoObstacleAvoid w)"
  unfolding DoObstacleAvoid_def Let_def
  by (cases "obstacle_state w") (auto intro!: wm_inv_msgs wm_inv_avoid norm_angle_in_range)

lemma wm_handle_challenge_inv: "wm_inv w \<Longrightarrow> wm_inv (wm_handle_challenge c w)"
  unfolding wm_handle_challenge_def Let_def
  by (auto intro!: wm_inv_msgs wm_inv_station split: option.split ChallengeType.split)

lemma wm_handle_sbus_inv: "wm_inv w \<Longrightarrow> wm_inv (wm_handle_sbus ch w)"
  by (auto simp: wm_handle_sbus_def Let_def wm_inv_def send_mode_def)

interpretation waypoint: node_machine wm_step wm_inv wm_event_ok
proof
  fix w e
  assume inv: "wm_inv w" and ok: "wm_event_ok e"
  show "\<exists>w'. wm_step e w = Inr w' \<and> wm_inv w'"
  proof (cases e)
    case (Wm_wind x y)
    then show ?thesis using inv by (simp add: wm_handle_wind_def wm_inv_def atan2_bounds)
  next
    case (Wm_vision h c)
    have "norm_angle_fits (get_or 0 h + boat_yaw w)"
      using inv ok Wm_vision by (intro norm_angle_fits_small) (auto simp: wm_inv_def)
    then show ?thesis
      using inv ok Wm_vision norm_angle_in_range
      by (auto simp: wm_handle_vision_def wm_inv_def norm_angle_checked_def to_int32_small split: option.split)
  next
    case (Wm_iterate t1 t2)
    then show ?thesis
      using inv wm_angles_fit [OF inv] DoStationKeep_inv DoVisionSearch_inv DoObstacleAvoid_inv
      by (simp add: wm_iterate_def split: ChallengeType.split)
  next
    case (Wm_boat yaw)
    then show ?thesis using inv ok by (simp add: wm_handle_boat_def wm_inv_def)
  qed (use inv wm_handle_challenge_inv wm_handle_sbus_inv in \<open>simp_all add: wm_handle_tacker_def\<close>)
qed

section \<open>Station keeping\<close>

fun station_run :: "(int \<times> int) list \<Rightarrow> WaypointManager \<Rightarrow> WaypointManager" where
  "station_run [] w = w"
| "station_run ((t1, t2) # ts) w = station_run ts (wm_iterate t1 t2 w)"

lemma station_run_append: "station_run (xs @ ys) w = station_run ys (station_run xs w)"
  by (induction xs w rule: station_run.induct) auto

text \<open>The heading command of a boat that keeps its station, and of one that leaves it.\<close>

definition keep_cmd :: "real \<Rightarrow> wm_out" where
  "keep_cmd upwind = Out_heading \<lparr>heading = Some upwind, extra_sail = Some (3 / 2)\<rparr>"

definition leave_cmd :: "real \<Rightarrow> wm_out" where
  "leave_cmd upwind = Out_heading \<lparr>heading = Some (norm_angle (upwind + pi * (3 / 4))), extra_sail = Some 0\<rparr>"

lemma wait_run:
  assumes "wm_mode w = STATION_KEEP" "station_keep_state w = WAIT" "\<forall>(t1, t2) \<in> set ts. t1 \<le> station_keep_end w"
  shows "\<exists>w'. station_run ts w = w' \<and> wm_mode w' = STATION_KEEP \<and> station_keep_state w' = WAIT \<and>
    station_keep_end w' = station_keep_end w \<and> upwind_dir w' = upwind_dir w \<and> control_mode_msg w' = control_mode_msg w \<and>
    wm_sent w' = wm_sent w @ replicate (length ts) (keep_cmd (upwind_dir w))"
  using assms
proof (induction ts arbitrary: w)
  case (Cons t ts)
  obtain t1 t2 where t: "t = (t1, t2)" by (cases t)
  define w1 where "w1 = wm_iterate t1 t2 w"
  have w1: "wm_mode w1 = STATION_KEEP" "station_keep_state w1 = WAIT" "station_keep_end w1 = station_keep_end w"
    "upwind_dir w1 = upwind_dir w" "control_mode_msg w1 = control_mode_msg w"
    "wm_sent w1 = wm_sent w @ [keep_cmd (upwind_dir w)]"
    using Cons.prems t
    by (simp_all add: w1_def wm_iterate_def DoStationKeep_def wm_msg_defs keep_cmd_def)
  with Cons.prems(3) have "\<forall>(t1, t2) \<in> set ts. t1 \<le> station_keep_end w1" by auto
  from Cons.IH [OF w1(1, 2) this] w1 show ?case by (simp add: t flip: w1_def)
qed simp

lemma leave_run:
  assumes "wm_mode w = STATION_KEEP" "station_keep_state w = LEAVE"
  shows "\<exists>w'. station_run ts w = w' \<and> station_keep_state w' = LEAVE \<and>
    wm_sent w' = wm_sent w @ replicate (length ts) (leave_cmd (upwind_dir w))"
  using assms
proof (induction ts arbitrary: w)
  case (Cons t ts)
  obtain t1 t2 where t: "t = (t1, t2)" by (cases t)
  define w1 where "w1 = wm_iterate t1 t2 w"
  have w1: "wm_mode w1 = STATION_KEEP" "station_keep_state w1 = LEAVE" "upwind_dir w1 = upwind_dir w"
    "wm_sent w1 = wm_sent w @ [leave_cmd (upwind_dir w)]"
    using Cons.prems t
    by (simp_all add: w1_def wm_iterate_def DoStationKeep_def wm_msg_defs leave_cmd_def)
  from Cons.IH [OF w1(1, 2)] w1 show ?case by (simp add: t flip: w1_def)
qed simp

declare WaypointManager_new_def [node_init]

section \<open>Properties\<close>

text \<open>
  C3: For any sequence of messages in which the confidence of the vision system fits an \<^verbatim>\<open>int\<close> and the boat's yaw and
  the direction of what the vision system sees are at most a thousand million radians, the waypoint manager does not fault, in particular no
  count of turns overflows; every heading it commands lies between
  \<open>-\<pi>\<close> and \<open>\<pi>\<close>, every extra sail is 0 or 1.5, rudder and winch are always switched together and
  only between the radio and the autonomous controller, the tacker only between off and the
  line planner, and the states \<^verbatim>\<open>BACK\<close> and \<^verbatim>\<open>FORTH\<close> of station keeping are never entered.
\<close>

theorem waypoint_manager_outputs:
  assumes "list_all wm_event_ok es"
  shows "\<exists>w. run_events wm_step es (WaypointManager_new now) = Inr w \<and> list_all out_ok (wm_sent w) \<and>
    station_keep_state w \<noteq> BACK \<and> station_keep_state w \<noteq> FORTH"
proof -
  have "wm_inv (WaypointManager_new now)"
    by (simp add: wm_inv_def send_search_def node_init)
  from waypoint.run_inv [OF this assms] show ?thesis by (auto simp: wm_inv_def)
qed

theorem waypoint_manager_outputs_witness:
  "\<exists>w. run_events wm_step [Wm_vision (Some 3) (Some 300), Wm_challenge (Some OBSTACLE), Wm_iterate 0 0]
      (WaypointManager_new 0) = Inr w \<and> list_all out_ok (wm_sent w) \<and> station_keep_state w \<noteq> BACK \<and>
    station_keep_state w \<noteq> FORTH"
  by (rule waypoint_manager_outputs) simp

text \<open>
  C34: Station keeping: once the tacker has reached the start, the boat points into the wind with
  the sail eased for 280 seconds, counted from the iteration that notices the arrival; in the
  first iteration after that it switches to leaving, with the tacker off, and from then on
  steers 135 degrees off the wind.
\<close>

theorem station_keeping_timeline:
  assumes "wm_mode w = STATION_KEEP" "station_keep_state w = GOTO_START" "tacker_done w"
    and "\<forall>(t1, t2) \<in> set waits. t1 \<le> t0 + seconds 280" "t0 + seconds 280 < t1"
  shows "wm_sent (station_run ([(t0, t0')] @ waits @ [(t1, t1')] @ leaves) w) =
    wm_sent w @ [Out_mode (clear_mode\<lparr>tacker := Some TACKER_DISABLED\<rparr>)] @
    replicate (Suc (length waits)) (keep_cmd (upwind_dir w)) @
    [Out_mode (clear_mode\<lparr>tacker := Some TACKER_DISABLED\<rparr>)] @
    replicate (length leaves) (leave_cmd (upwind_dir w))"
proof -
  define w1 where "w1 = wm_iterate t0 t0' w"
  have w1: "wm_mode w1 = STATION_KEEP" "station_keep_state w1 = WAIT" "station_keep_end w1 = t0 + seconds 280"
    "upwind_dir w1 = upwind_dir w" "control_mode_msg w1 = clear_mode\<lparr>tacker := Some TACKER_DISABLED\<rparr>"
    "wm_sent w1 = wm_sent w @ [Out_mode (clear_mode\<lparr>tacker := Some TACKER_DISABLED\<rparr>)]"
    using assms(1-3) by (simp_all add: w1_def wm_iterate_def DoStationKeep_def wm_msg_defs)
  define w2 where "w2 = station_run waits w1"
  have w2: "wm_mode w2 = STATION_KEEP" "station_keep_state w2 = WAIT" "station_keep_end w2 = t0 + seconds 280"
    "upwind_dir w2 = upwind_dir w" "control_mode_msg w2 = clear_mode\<lparr>tacker := Some TACKER_DISABLED\<rparr>"
    "wm_sent w2 = wm_sent w1 @ replicate (length waits) (keep_cmd (upwind_dir w))"
    using wait_run [OF w1(1, 2), of waits] assms(4) w1(3-5) by (simp_all add: w2_def)
  define w3 where "w3 = wm_iterate t1 t1' w2"
  have w3: "wm_mode w3 = STATION_KEEP" "station_keep_state w3 = LEAVE" "upwind_dir w3 = upwind_dir w"
    "wm_sent w3 = wm_sent w2 @ [keep_cmd (upwind_dir w), Out_mode (clear_mode\<lparr>tacker := Some TACKER_DISABLED\<rparr>)]"
    using w2 assms(5) by (simp_all add: w3_def wm_iterate_def DoStationKeep_def wm_msg_defs keep_cmd_def)
  have "station_run ([(t0, t0')] @ waits @ [(t1, t1')] @ leaves) w = station_run leaves w3"
    by (simp add: station_run_append w1_def w2_def w3_def)
  then show ?thesis
    using leave_run [OF w3(1, 2), of leaves] w1 w2 w3 by (simp add: replicate_append_same)
qed

theorem station_keeping_timeline_witness:
  "wm_sent (station_run ([(0, 0)] @ [(seconds 1, seconds 1), (seconds 280, seconds 280)] @ [(seconds 281, seconds 281)] @ [(seconds 300, seconds 300)])
      (wm_handle_tacker True 1 True (wm_handle_challenge (Some STATION_KEEP) (WaypointManager_new 0)))) =
    wm_sent (wm_handle_challenge (Some STATION_KEEP) (WaypointManager_new 0)) @
    [Out_mode (clear_mode\<lparr>tacker := Some TACKER_DISABLED\<rparr>)] @ replicate 3 (keep_cmd 0) @
    [Out_mode (clear_mode\<lparr>tacker := Some TACKER_DISABLED\<rparr>)] @ [leave_cmd 0]"
proof -
  define w where "w = wm_handle_tacker True 1 True (wm_handle_challenge (Some STATION_KEEP) (WaypointManager_new 0))"
  have w: "wm_mode w = STATION_KEEP" "station_keep_state w = GOTO_START" "tacker_done w" "upwind_dir w = 0"
    "wm_sent w = wm_sent (wm_handle_challenge (Some STATION_KEEP) (WaypointManager_new 0))"
    by (simp_all add: w_def wm_handle_tacker_def wm_handle_challenge_def WaypointManager_new_def wm_msg_defs auto_line_plan_def)
  show ?thesis
    using station_keeping_timeline [OF w(1-3), where ?t0.0 = 0 and ?t0' = 0 and ?t1.0 = "seconds 281" and ?t1' = "seconds 281"
        and waits = "[(seconds 1, seconds 1), (seconds 280, seconds 280)]" and leaves = "[(seconds 300, seconds 300)]"] w(4, 5)
    by (simp add: numeral_3_eq_3 flip: w_def)
qed

text \<open>
  A boat that follows the vision system never goes back to its waypoints on its own: when the
  target is lost it switches the line planner on again, but stays in the state
  \<^verbatim>\<open>FOLLOW_VISION\<close>, and every further iteration sends the heading of the lost target as well,
  until another challenge is chosen.
\<close>

theorem lost_target_is_still_followed:
  assumes "wm_mode w = VISION" "vision_state w = FOLLOW_VISION" "vision_confidence w < kVisionConfidenceThreshold"
  shows "vision_state (wm_iterate t1 t2 w) = FOLLOW_VISION \<and>
    wm_sent (wm_iterate t1 t2 w) = wm_sent w @
      [Out_heading ((heading_cmd_msg w)\<lparr>heading := Some (vision_abs_heading w)\<rparr>),
       Out_mode (clear_mode\<lparr>tacker := Some LINE_PLAN\<rparr>), Out_search (search_state_msg w)]"
  using assms
  by (simp add: wm_iterate_def DoVisionSearch_def wm_msg_defs kVisionConfidenceThreshold_def kVisionFoundThreshold_def)

theorem lost_target_is_still_followed_witness:
  "vision_state (wm_iterate 5 5 ((WaypointManager_new 0)\<lparr>wm_mode := VISION, vision_state := FOLLOW_VISION, vision_confidence := 10\<rparr>))
    = FOLLOW_VISION"
  using lost_target_is_still_followed
    [of "(WaypointManager_new 0)\<lparr>wm_mode := VISION, vision_state := FOLLOW_VISION, vision_confidence := 10\<rparr>" 5 5]
  by (simp add: kVisionConfidenceThreshold_def)

end
