(* ===== verification/Monitor.thy ===== *)
theory Monitor
  imports Control_Msgs
begin

text \<open>
  The monitor (\<^verbatim>\<open>management/monitor.cc\<close>) puts the controllers' modes and the state of the
  connections on the CAN bus once a second.  Both messages are outgoing: the flag that
  \<^verbatim>\<open>Iterate\<close> sets on the first is true by default, so it is on the second as well.
\<close>

record SailbotState =
  st_rigid :: MODE
  st_ballast :: MODE
  st_winch :: MODE
  st_rudder :: MODE
  st_tacker :: TACKER

datatype ConnectionState = GOOD | BAD | UNKNOWN

record SailbotConn =
  rigid_conn :: ConnectionState
  ui_conn :: ConnectionState
  wifi_conn :: ConnectionState
  radio_conn :: ConnectionState
  jetson_conn :: ConnectionState

record Monitor =
  ui_connection :: bool
  rigid_connection :: bool
  last_rigid_conn :: int
  state_msg :: SailbotState
  mon_sent :: "(SailbotState \<times> SailbotConn) list"

definition kRigidTimeout :: int where
  "kRigidTimeout = 5"

definition Monitor_new :: Monitor where
  "Monitor_new = \<lparr>ui_connection = False, rigid_connection = False, last_rigid_conn = 0,
     state_msg = \<lparr>st_rigid = DISABLE, st_ballast = DISABLE, st_winch = DISABLE, st_rudder = DISABLE, st_tacker = TACKER_NONE\<rparr>,
     mon_sent = []\<rparr>"

definition mon_handle_mode :: "ControlMode \<Rightarrow> Monitor \<Rightarrow> Monitor" where
  "mon_handle_mode m s = s\<lparr>state_msg :=
     \<lparr>st_rigid = get_or (st_rigid (state_msg s)) (rigid_mode m),
      st_ballast = get_or (st_ballast (state_msg s)) (ballast_mode m),
      st_winch = get_or (st_winch (state_msg s)) (winch_mode m),
      st_rudder = get_or (st_rudder (state_msg s)) (rudder_mode m),
      st_tacker = get_or (st_tacker (state_msg s)) (tacker m)\<rparr>\<rparr>"

definition mon_handle_connection :: "bool \<Rightarrow> Monitor \<Rightarrow> Monitor" where
  "mon_handle_connection c s = s\<lparr>ui_connection := c\<rparr>"

definition mon_handle_feedback :: "int \<Rightarrow> Monitor \<Rightarrow> Monitor" where
  "mon_handle_feedback now s = s\<lparr>last_rigid_conn := now, rigid_connection := True\<rparr>"

definition mon_iterate :: "int \<Rightarrow> Monitor \<Rightarrow> Monitor" where
  "mon_iterate now s =
     (let s1 = (if now > last_rigid_conn s + seconds kRigidTimeout then s\<lparr>rigid_connection := False\<rparr> else s);
          conn = \<lparr>rigid_conn = (if rigid_connection s1 then GOOD else BAD),
                  ui_conn = (if ui_connection s1 then GOOD else BAD),
                  wifi_conn = UNKNOWN, radio_conn = UNKNOWN, jetson_conn = UNKNOWN\<rparr>
      in s1\<lparr>mon_sent := mon_sent s1 @ [(state_msg s1, conn)]\<rparr>)"

datatype mon_event = Mon_mode ControlMode | Mon_connection bool | Mon_feedback int | Mon_iterate int

fun mon_step :: "mon_event \<Rightarrow> Monitor \<Rightarrow> Monitor res" where
  "mon_step (Mon_mode m) s = Inr (mon_handle_mode m s)"
| "mon_step (Mon_connection c) s = Inr (mon_handle_connection c s)"
| "mon_step (Mon_feedback t) s = Inr (mon_handle_feedback t s)"
| "mon_step (Mon_iterate t) s = Inr (mon_iterate t s)"

section \<open>Specification\<close>

text \<open>
  What the reports say in terms of the history alone: the last value of each mode that was
  set, the last state of the user interface, and whether the wing was heard of lately.
\<close>

fun last_set :: "('m \<Rightarrow> 'v option) \<Rightarrow> 'v \<Rightarrow> 'm list \<Rightarrow> 'v" where
  "last_set f d [] = d"
| "last_set f d (m # ms) = last_set f (get_or d (f m)) ms"

fun event_time :: "mon_event \<Rightarrow> int option" where
  "event_time (Mon_feedback t) = Some t"
| "event_time (Mon_iterate t) = Some t"
| "event_time _ = None"

fun feedback_time :: "mon_event \<Rightarrow> int option option" where
  "feedback_time (Mon_feedback t) = Some (Some t)"
| "feedback_time _ = None"

fun mode_part :: "(ControlMode \<Rightarrow> 'v option) \<Rightarrow> mon_event \<Rightarrow> 'v option" where
  "mode_part f (Mon_mode m) = f m"
| "mode_part f _ = None"

fun ui_part :: "mon_event \<Rightarrow> bool option" where
  "ui_part (Mon_connection c) = Some c"
| "ui_part _ = None"

definition times_of :: "mon_event list \<Rightarrow> int list" where
  "times_of es = List.map_filter event_time es"

definition wing_heard :: "int \<Rightarrow> mon_event list \<Rightarrow> bool" where
  "wing_heard now es \<longleftrightarrow> (case last_set feedback_time None es of None \<Rightarrow> False | Some t \<Rightarrow> now \<le> t + seconds kRigidTimeout)"

definition report_spec :: "int \<Rightarrow> mon_event list \<Rightarrow> SailbotState \<times> SailbotConn" where
  "report_spec now es =
     (\<lparr>st_rigid = last_set (mode_part rigid_mode) DISABLE es, st_ballast = last_set (mode_part ballast_mode) DISABLE es,
       st_winch = last_set (mode_part winch_mode) DISABLE es, st_rudder = last_set (mode_part rudder_mode) DISABLE es,
       st_tacker = last_set (mode_part tacker) TACKER_NONE es\<rparr>,
      \<lparr>rigid_conn = (if wing_heard now es then GOOD else BAD), ui_conn = (if last_set ui_part False es then GOOD else BAD),
       wifi_conn = UNKNOWN, radio_conn = UNKNOWN, jetson_conn = UNKNOWN\<rparr>)"

lemma last_set_snoc: "last_set f d (es @ [e]) = get_or (last_set f d es) (f e)"
  by (induction es arbitrary: d) auto

lemma times_of_snoc: "times_of (es @ [e]) = times_of es @ (case event_time e of None \<Rightarrow> [] | Some t \<Rightarrow> [t])"
  by (simp add: times_of_def List.map_filter_def split: option.split)

text \<open>
  The state as a function of the history, for a clock that does not go back.  The connection
  flag may still be set when no report was made since the wing fell silent.
\<close>

definition mon_inv :: "mon_event list \<Rightarrow> Monitor \<Rightarrow> bool" where
  "mon_inv es s \<longleftrightarrow>
     state_msg s = fst (report_spec 0 es) \<and> ui_connection s = last_set ui_part False es \<and>
     (\<forall>now. (\<forall>t\<in>set (times_of es). t \<le> now) \<longrightarrow>
        (rigid_connection s \<and> now \<le> last_rigid_conn s + seconds kRigidTimeout) = wing_heard now es)"

lemma mon_inv_new: "mon_inv [] Monitor_new"
  by (simp add: mon_inv_def Monitor_new_def report_spec_def wing_heard_def)

lemma mon_inv_step:
  assumes inv: "mon_inv es s" and sorted: "sorted (times_of (es @ [e]))"
  shows "\<exists>s'. mon_step e s = Inr s' \<and> mon_inv (es @ [e]) s' \<and>
    mon_sent s' = mon_sent s @ (case e of Mon_iterate t \<Rightarrow> [report_spec t es] | _ \<Rightarrow> [])"
proof (cases e)
  case (Mon_mode m)
  then show ?thesis
    using inv by (simp add: mon_inv_def mon_handle_mode_def report_spec_def wing_heard_def last_set_snoc times_of_snoc)
next
  case (Mon_connection c)
  then show ?thesis
    using inv by (simp add: mon_inv_def mon_handle_connection_def report_spec_def wing_heard_def last_set_snoc times_of_snoc)
next
  case (Mon_feedback t)
  then show ?thesis
    using inv by (auto simp: mon_inv_def mon_handle_feedback_def report_spec_def wing_heard_def last_set_snoc times_of_snoc)
next
  case (Mon_iterate t)
  have past: "\<forall>u\<in>set (times_of es). u \<le> t"
    using sorted Mon_iterate by (simp add: times_of_snoc sorted_append)
  then have heard: "(rigid_connection s \<and> t \<le> last_rigid_conn s + seconds kRigidTimeout) = wing_heard t es"
    using inv by (simp add: mon_inv_def)
  show ?thesis
    using inv heard past Mon_iterate
    by (auto simp: mon_inv_def mon_iterate_def report_spec_def Let_def wing_heard_def last_set_snoc times_of_snoc)
qed

fun reports :: "mon_event list \<Rightarrow> mon_event list \<Rightarrow> (SailbotState \<times> SailbotConn) list" where
  "reports past [] = []"
| "reports past (e # es) =
     (case e of Mon_iterate t \<Rightarrow> [report_spec t past] | _ \<Rightarrow> []) @ reports (past @ [e]) es"

lemma monitor_run:
  assumes "mon_inv past s" "sorted (times_of (past @ es))"
  shows "\<exists>s'. run_events mon_step es s = Inr s' \<and> mon_sent s' = mon_sent s @ reports past es"
  using assms
proof (induction es arbitrary: past s)
  case (Cons e es)
  have "sorted (times_of (past @ [e]))"
    using Cons.prems(2) by (auto simp: times_of_def List.map_filter_def sorted_append)
  from mon_inv_step [OF Cons.prems(1) this] obtain s1 where
    s1: "mon_step e s = Inr s1" "mon_inv (past @ [e]) s1"
      "mon_sent s1 = mon_sent s @ (case e of Mon_iterate t \<Rightarrow> [report_spec t past] | _ \<Rightarrow> [])" by blast
  have "sorted (times_of ((past @ [e]) @ es))" using Cons.prems(2) by simp
  from Cons.IH [OF s1(2) this] s1 show ?case by auto
qed simp

section \<open>Properties\<close>

text \<open>
  C33: The reports of the monitor are a function of the history: each gives the mode that was
  last set for each controller (disabled before that), the last known state of the user
  interface, and a good connection to the wing exactly if the wing was heard of and at most
  five seconds ago; the other connections are unknown.  The clock must not go backwards.
\<close>

theorem monitor_reports_history:
  assumes "sorted (times_of es)"
  shows "\<exists>s. run_events mon_step es Monitor_new = Inr s \<and> mon_sent s = reports [] es"
  using monitor_run [OF mon_inv_new, of es] assms by (simp add: Monitor_new_def)

theorem monitor_reports_history_witness:
  "\<exists>s. run_events mon_step [Mon_feedback 3, Mon_mode (clear_mode\<lparr>tacker := Some LINE_PLAN\<rparr>), Mon_iterate (seconds 5), Mon_iterate (seconds 6)]
      Monitor_new = Inr s \<and>
    map (\<lambda>(st, conn). (st_tacker st, rigid_conn conn)) (mon_sent s) = [(LINE_PLAN, GOOD), (LINE_PLAN, BAD)]"
proof -
  have "sorted (times_of [Mon_feedback 3, Mon_mode (clear_mode\<lparr>tacker := Some LINE_PLAN\<rparr>), Mon_iterate (seconds 5), Mon_iterate (seconds 6)])"
    by (simp add: times_of_def List.map_filter_def)
  from monitor_reports_history [OF this] show ?thesis
    by (auto simp: report_spec_def wing_heard_def kRigidTimeout_def)
qed

end
