(* ===== verification/Scamp.thy ===== *)
theory Scamp
  imports Control_Msgs
begin

text \<open>
  The actuator interface (\<^verbatim>\<open>control/scamp.cc\<close>): it turns commands in volts and radians, or the
  positions of the radio's sticks, into the raw values (90 is neutral) of the PWM outputs, and
  the readings of the winch's and the ballast's potentiometers into the internal state.
\<close>

section \<open>The node\<close>

record ZeroingConstants =
  rudder_zero :: int
  winch_0_pot :: int
  winch_90_pot :: int
  ballast_zero :: real
  winch_out_angle :: real

definition default_consts :: ZeroingConstants where
  "default_consts = \<lparr>rudder_zero = 90, winch_0_pot = 392, winch_90_pot = 750, ballast_zero = -1.775, winch_out_angle = pi / 2\<rparr>"

record InternalBoatState =
  ib_sail :: "real option"
  ib_rudder :: "real option"
  ib_ballast :: "real option"

record PWMWrite =
  pwm_winch :: int
  pwm_rudder :: int
  pwm_ballast :: int

record SCAMP =
  zconsts :: ZeroingConstants
  sail_pos :: real
  ballast_pos :: real
  raw_winch :: int
  volts_winch :: int
  raw_rudder :: int
  raw_ballast :: int
  sc_rudder_mode :: MODE
  sc_winch_mode :: MODE
  sc_ballast_mode :: MODE
  is_connected :: bool
  sc_states :: "InternalBoatState list"
  sc_pwm :: "PWMWrite list"
  sc_consts :: "ZeroingConstants list"
  sc_written :: "ZeroingConstants list"

text \<open>
  \<open>sc_states\<close>, \<open>sc_pwm\<close> and \<open>sc_consts\<close> are the messages sent on \<^verbatim>\<open>internal_state\<close>,
  \<^verbatim>\<open>can65282\<close> and \<^verbatim>\<open>zeroing_consts\<close>, \<open>sc_written\<close> what was handed over to be written to the
  constants file, oldest first.  \<open>file\<close> is what the constants file holds, if it can be read.
\<close>

definition SCAMP_new :: "ZeroingConstants option \<Rightarrow> SCAMP" where
  "SCAMP_new file = \<lparr>zconsts = get_or default_consts file, sail_pos = 0, ballast_pos = 0, raw_winch = 90, volts_winch = 90,
     raw_rudder = 90, raw_ballast = 90, sc_rudder_mode = DISABLE, sc_winch_mode = DISABLE, sc_ballast_mode = DISABLE,
     is_connected = True, sc_states = [], sc_pwm = [], sc_consts = [], sc_written = []\<rparr>"

declare default_consts_def [node_init] SCAMP_new_def [node_init]

definition SBUSToRaw :: "int \<Rightarrow> int" where
  "SBUSToRaw sbus = trunc ((of_int sbus - 1023) * 90 / 1000 + 90)"

text \<open>
  The range of the potentiometer is taken in unbounded integers, in the source it is a difference of two \<^verbatim>\<open>int\<close>s; it does not
  overflow unless the two constants are more than \<open>2\<^sup>3\<^sup>1\<close> apart.
\<close>

definition WinchPotToAngle :: "real \<Rightarrow> SCAMP \<Rightarrow> real res" where
  "WinchPotToAngle pot_val s =
     (let kPotRange = winch_90_pot (zconsts s) - winch_0_pot (zconsts s)
      in if kPotRange = 0 then Inl NonFinite
         else Inr ((pot_val - of_int (winch_0_pot (zconsts s))) / of_int kPotRange * winch_out_angle (zconsts s)))"

section \<open>Outputs\<close>

definition sail_volts :: "real \<Rightarrow> SCAMP \<Rightarrow> real" where
  "sail_volts volts s =
     (let v1 = (if sail_pos s \<ge> winch_out_angle (zconsts s) then min volts 0
                else if sail_pos s \<le> 0 then max volts 0 else volts);
          v2 = (if \<bar>v1\<bar> < 1 then 0 else v1)
      in min (max v2 (-12)) 12)"

definition SetRawFromSailCmd :: "real \<Rightarrow> SCAMP \<Rightarrow> SCAMP" where
  "SetRawFromSailCmd volts s =
     s\<lparr>raw_winch := trunc (sail_volts volts s * (if winch_90_pot (zconsts s) > winch_0_pot (zconsts s) then -1 else 1) / 12 * 90 + 90)\<rparr>"

definition SetRawFromRudderCmd :: "real option \<Rightarrow> SCAMP \<Rightarrow> SCAMP res" where
  "SetRawFromRudderCmd pos s =
     bindr (to_int32 (get_or 0 pos / pi * 180 + of_int (rudder_zero (zconsts s)))) (\<lambda>n. Inr (s\<lparr>raw_rudder := n\<rparr>))"

definition SetRawFromBallastCmd :: "real option \<Rightarrow> real option \<Rightarrow> SCAMP \<Rightarrow> SCAMP res" where
  "SetRawFromBallastCmd vel voltage s =
     (case vel of
        Some v \<Rightarrow> bindr (to_int32 (v + 90)) (\<lambda>n. Inr (s\<lparr>raw_ballast := n\<rparr>))
      | None \<Rightarrow>
          (case voltage of
             Some u \<Rightarrow>
               (let volts = Clip u (-12) 12;
                    volts' = (if ballast_pos s \<ge> 1.1 then min volts 0
                              else if ballast_pos s \<le> -1.1 then max volts 0 else volts)
                in Inr (s\<lparr>raw_ballast := trunc (volts' * 90 / 12 + 90)\<rparr>))
           | None \<Rightarrow> Inr s))"

section \<open>Handlers\<close>

text \<open>A message with zeroing constants: the fields it has, and whether they shall be written to the file.\<close>

record ConstsMsg =
  c_winch_0 :: "int option"
  c_winch_90 :: "int option"
  c_rudder :: "int option"
  c_ballast :: "real option"
  c_out :: "real option"
  c_write :: bool

datatype scamp_event =
    Sc_consts ConstsMsg
  | Sc_pot real
  | Sc_ballast "real option"
  | Sc_sail_cmd real
  | Sc_manual_sail_cmd real
  | Sc_rudder_cmd "real option"
  | Sc_manual_rudder_cmd "real option"
  | Sc_ballast_cmd "real option" "real option"
  | Sc_manual_ballast_cmd "real option" "real option"
  | Sc_sbus "int list"
  | Sc_connection bool
  | Sc_mode ControlMode
  | Sc_iterate

definition sc_handle_consts :: "ConstsMsg \<Rightarrow> SCAMP \<Rightarrow> SCAMP" where
  "sc_handle_consts m s =
     (let c = zconsts s;
          c1 = (case (c_winch_0 m, c_winch_90 m) of (Some a, Some b) \<Rightarrow> c\<lparr>winch_0_pot := a, winch_90_pot := b\<rparr> | _ \<Rightarrow> c);
          c2 = c1\<lparr>rudder_zero := get_or (rudder_zero c1) (c_rudder m), ballast_zero := get_or (ballast_zero c1) (c_ballast m),
                  winch_out_angle := get_or (winch_out_angle c1) (c_out m)\<rparr>
      in s\<lparr>zconsts := c2, sc_written := sc_written s @ (if c_write m then [c2] else [])\<rparr>)"

definition sc_handle_pot :: "real \<Rightarrow> SCAMP \<Rightarrow> SCAMP res" where
  "sc_handle_pot val s =
     bindr (WinchPotToAngle val s) (\<lambda>angle.
       Inr (s\<lparr>sail_pos := angle,
              sc_states := sc_states s @ [\<lparr>ib_sail = Some angle,
                ib_rudder = Some ((of_int (raw_rudder s) - of_int (rudder_zero (zconsts s))) * pi / 180), ib_ballast = None\<rparr>]\<rparr>))"

definition sc_handle_ballast :: "real option \<Rightarrow> SCAMP \<Rightarrow> SCAMP" where
  "sc_handle_ballast b s =
     (case b of
        None \<Rightarrow> s
      | Some angle \<Rightarrow>
          (let a = angle - ballast_zero (zconsts s)
           in s\<lparr>ballast_pos := a, sc_states := sc_states s @ [\<lparr>ib_sail = None, ib_rudder = None, ib_ballast = Some a\<rparr>]\<rparr>))"

definition sc_handle_sail :: "MODE \<Rightarrow> real \<Rightarrow> SCAMP \<Rightarrow> SCAMP res" where
  "sc_handle_sail mode voltage s =
     (if sc_winch_mode s = mode then bindr (to_int32 voltage) (\<lambda>n. Inr (s\<lparr>volts_winch := n\<rparr>)) else Inr s)"

definition sc_handle_rudder :: "MODE \<Rightarrow> real option \<Rightarrow> SCAMP \<Rightarrow> SCAMP res" where
  "sc_handle_rudder mode pos s = (if sc_rudder_mode s = mode then SetRawFromRudderCmd pos s else Inr s)"

definition sc_handle_ballast_cmd :: "MODE \<Rightarrow> real option \<Rightarrow> real option \<Rightarrow> SCAMP \<Rightarrow> SCAMP res" where
  "sc_handle_ballast_cmd mode vel voltage s =
     (if sc_ballast_mode s = mode then SetRawFromBallastCmd vel voltage s else Inr s)"

text \<open>The radio: the number of channels is compared with two, but the fourth is read.\<close>

definition sc_handle_sbus :: "int list \<Rightarrow> SCAMP \<Rightarrow> SCAMP res" where
  "sc_handle_sbus ch s =
     (if length ch \<ge> 2
      then bindr (if sc_rudder_mode s = MANUAL_RC
                  then bindr (nth_checked ch 3) (\<lambda>c.
                         Inr (s\<lparr>raw_rudder := trunc ((of_int (SBUSToRaw c) - 90) * (1 / 2) + 90)\<rparr>))
                  else if sc_rudder_mode s = FILTERED_RC
                  then bindr (nth_checked ch 3) (\<lambda>c.
                         Inr (s\<lparr>raw_rudder := trunc (- (of_int (SBUSToRaw c) - 90) * (6 / 10) + of_int (rudder_zero (zconsts s)))\<rparr>))
                  else Inr s) (\<lambda>s1.
           if sc_winch_mode s1 = MANUAL_RC then Inr (s1\<lparr>raw_winch := SBUSToRaw (ch ! 1)\<rparr>)
           else if sc_winch_mode s1 = FILTERED_RC
           then Inr (s1\<lparr>volts_winch := trunc (- (of_int (SBUSToRaw (ch ! 1)) - 90) * 6 / 90)\<rparr>)
           else Inr s1)
      else Inr s)"

definition sc_handle_mode :: "ControlMode \<Rightarrow> SCAMP \<Rightarrow> SCAMP" where
  "sc_handle_mode m s =
     (let s1 = s\<lparr>sc_winch_mode := get_or (sc_winch_mode s) (winch_mode m),
                 sc_rudder_mode := get_or (sc_rudder_mode s) (rudder_mode m),
                 sc_ballast_mode := get_or (sc_ballast_mode s) (ballast_mode m)\<rparr>;
          s2 = (if sc_rudder_mode s1 = DISABLE then s1\<lparr>raw_rudder := 90\<rparr> else s1);
          s3 = (if sc_winch_mode s2 = DISABLE then s2\<lparr>raw_winch := 90\<rparr> else s2)
      in if sc_ballast_mode s3 = DISABLE then s3\<lparr>raw_ballast := 90\<rparr> else s3)"

text \<open>The fields of the PWM message are unsigned: a negative value wraps around.\<close>

definition sc_iterate :: "SCAMP \<Rightarrow> SCAMP" where
  "sc_iterate s =
     (let s1 = (if sc_winch_mode s \<in> {AUTO, MANUAL_WIFI, FILTERED_RC} then SetRawFromSailCmd (of_int (volts_winch s)) s else s)
      in s1\<lparr>sc_pwm := sc_pwm s1 @ [\<lparr>pwm_winch = raw_winch s1 mod 2 ^ 32, pwm_rudder = raw_rudder s1 mod 2 ^ 32,
                                   pwm_ballast = raw_ballast s1 mod 2 ^ 32\<rparr>],
             sc_consts := sc_consts s1 @ [zconsts s1]\<rparr>)"

fun scamp_step :: "scamp_event \<Rightarrow> SCAMP \<Rightarrow> SCAMP res" where
  "scamp_step (Sc_consts m) s = Inr (sc_handle_consts m s)"
| "scamp_step (Sc_pot v) s = sc_handle_pot v s"
| "scamp_step (Sc_ballast b) s = Inr (sc_handle_ballast b s)"
| "scamp_step (Sc_sail_cmd v) s = sc_handle_sail AUTO v s"
| "scamp_step (Sc_manual_sail_cmd v) s = sc_handle_sail MANUAL_WIFI v s"
| "scamp_step (Sc_rudder_cmd p) s = sc_handle_rudder AUTO p s"
| "scamp_step (Sc_manual_rudder_cmd p) s = sc_handle_rudder MANUAL_WIFI p s"
| "scamp_step (Sc_ballast_cmd v u) s = sc_handle_ballast_cmd AUTO v u s"
| "scamp_step (Sc_manual_ballast_cmd v u) s = sc_handle_ballast_cmd MANUAL_WIFI v u s"
| "scamp_step (Sc_sbus ch) s = sc_handle_sbus ch s"
| "scamp_step (Sc_connection c) s = Inr (s\<lparr>is_connected := c\<rparr>)"
| "scamp_step (Sc_mode m) s = Inr (sc_handle_mode m s)"
| "scamp_step Sc_iterate s = Inr (sc_iterate s)"

section \<open>Ranges\<close>

text \<open>
  Events within their usual ranges: stick positions between 23 and 2023 on at least four
  channels, numbers that fit their types, and different potentiometer readings for the two
  ends of the winch.
\<close>

definition small :: "real \<Rightarrow> bool" where
  "small x \<longleftrightarrow> \<bar>x\<bar> \<le> 10 ^ 6"

definition small_opt :: "real option \<Rightarrow> bool" where
  "small_opt v \<longleftrightarrow> (case v of None \<Rightarrow> True | Some x \<Rightarrow> small x)"

fun scamp_event_ok :: "scamp_event \<Rightarrow> bool" where
  "scamp_event_ok (Sc_consts m) =
     ((case (c_winch_0 m, c_winch_90 m) of (Some a, Some b) \<Rightarrow> a \<noteq> b | _ \<Rightarrow> True) \<and> (case c_rudder m of None \<Rightarrow> True | Some z \<Rightarrow> \<bar>z\<bar> \<le> 10 ^ 6))"
| "scamp_event_ok (Sc_sail_cmd v) = small v"
| "scamp_event_ok (Sc_manual_sail_cmd v) = small v"
| "scamp_event_ok (Sc_rudder_cmd p) = small_opt p"
| "scamp_event_ok (Sc_manual_rudder_cmd p) = small_opt p"
| "scamp_event_ok (Sc_ballast_cmd v u) = small_opt v"
| "scamp_event_ok (Sc_manual_ballast_cmd v u) = small_opt v"
| "scamp_event_ok (Sc_sbus ch) = (length ch \<ge> 4 \<and> list_all (\<lambda>c. 23 \<le> c \<and> c \<le> 2023) ch)"
| "scamp_event_ok _ = True"

definition consts_ok :: "ZeroingConstants \<Rightarrow> bool" where
  "consts_ok c \<longleftrightarrow> winch_0_pot c \<noteq> winch_90_pot c \<and> \<bar>rudder_zero c\<bar> \<le> 10 ^ 6"

definition scamp_inv :: "SCAMP \<Rightarrow> bool" where
  "scamp_inv s \<longleftrightarrow> consts_ok (zconsts s) \<and> 0 \<le> raw_winch s \<and> raw_winch s \<le> 180 \<and>
     (sc_winch_mode s = DISABLE \<longrightarrow> raw_winch s = 90) \<and>
     (sc_rudder_mode s = DISABLE \<longrightarrow> raw_rudder s = 90) \<and> (sc_ballast_mode s = DISABLE \<longrightarrow> raw_ballast s = 90) \<and>
     list_all (\<lambda>p. 0 \<le> pwm_winch p \<and> pwm_winch p \<le> 180) (sc_pwm s)"

lemma trunc_range: "of_int a \<le> x \<Longrightarrow> x \<le> of_int b \<Longrightarrow> a \<le> trunc x \<and> trunc x \<le> b"
proof -
  assume "of_int a \<le> x" "x \<le> of_int b"
  then have "a \<le> \<lfloor>x\<rfloor>" "\<lfloor>x\<rfloor> \<le> b" "a \<le> \<lceil>x\<rceil>" "\<lceil>x\<rceil> \<le> b" by linarith+
  then show ?thesis by (simp add: trunc_def)
qed

lemma SBUSToRaw_range: "23 \<le> c \<Longrightarrow> c \<le> 2023 \<Longrightarrow> 0 \<le> SBUSToRaw c \<and> SBUSToRaw c \<le> 180"
  unfolding SBUSToRaw_def by (rule trunc_range) (simp_all add: field_simps)

lemma sail_volts_range: "-12 \<le> sail_volts v s \<and> sail_volts v s \<le> 12"
  by (simp add: sail_volts_def Let_def)

lemma raw_from_volts:
  assumes "-12 \<le> v" "v \<le> 12"
  shows "0 \<le> trunc (v / 12 * 90 + 90)" "trunc (v / 12 * 90 + 90) \<le> 180"
    "0 \<le> v \<Longrightarrow> 90 \<le> trunc (v / 12 * 90 + 90)" "v \<le> 0 \<Longrightarrow> trunc (v / 12 * 90 + 90) \<le> 90"
  using trunc_range [of 0 "v / 12 * 90 + 90" 180] trunc_range [of 90 "v / 12 * 90 + 90" 180]
    trunc_range [of 0 "v / 12 * 90 + 90" 90] assms by simp_all

lemma SetRawFromSailCmd_range:
  "0 \<le> raw_winch (SetRawFromSailCmd v s)" "raw_winch (SetRawFromSailCmd v s) \<le> 180"
  using raw_from_volts(1, 2) [of "sail_volts v s"] raw_from_volts(1, 2) [of "- sail_volts v s"] sail_volts_range [of v s]
  by (simp_all add: SetRawFromSailCmd_def)

lemma rudder_pos_fits:
  assumes "small_opt p" "\<bar>z\<bar> \<le> 10 ^ 6"
  shows "\<bar>get_or 0 p / pi * 180 + of_int z\<bar> < 2 ^ 31"
proof -
  have "\<bar>get_or 0 p\<bar> \<le> 10 ^ 6" using assms(1) by (cases p) (simp_all add: small_opt_def small_def)
  then have "\<bar>get_or 0 p\<bar> / pi \<le> 10 ^ 6 / 2" using pi_ge_two by (intro frac_le) simp_all
  then have q: "\<bar>get_or 0 p / pi\<bar> \<le> 500000" by (simp add: abs_divide)
  have r: "\<bar>real_of_int z\<bar> \<le> 1000000" using assms(2) by simp
  have "\<bar>q * 180 + r\<bar> < 2 ^ 31" if "\<bar>q\<bar> \<le> 500000" "\<bar>r\<bar> \<le> 1000000" for q r :: real
    using that by (simp add: abs_le_iff abs_less_iff)
  from this [OF q r] show ?thesis .
qed

lemma small_fits: "small x \<Longrightarrow> \<bar>x\<bar> < 2 ^ 31" "small x \<Longrightarrow> \<bar>x + 90\<bar> < 2 ^ 31"
  by (auto simp: small_def)

text \<open>What the handlers keep.\<close>

lemma sc_inv_iterate: "scamp_inv s \<Longrightarrow> scamp_inv (sc_iterate s)"
  using SetRawFromSailCmd_range [of "of_int (volts_winch s)" s]
  by (auto simp: scamp_inv_def sc_iterate_def Let_def SetRawFromSailCmd_def)

lemma sc_inv_mode: "scamp_inv s \<Longrightarrow> scamp_inv (sc_handle_mode m s)"
  by (auto simp: scamp_inv_def sc_handle_mode_def Let_def)

lemma sc_inv_consts:
  "scamp_inv s \<Longrightarrow> scamp_event_ok (Sc_consts m) \<Longrightarrow> scamp_inv (sc_handle_consts m s)"
  by (cases "c_winch_0 m"; cases "c_winch_90 m"; cases "c_rudder m") (auto simp: scamp_inv_def sc_handle_consts_def consts_ok_def Let_def)

lemma sc_inv_sbus:
  assumes "scamp_inv s" "scamp_event_ok (Sc_sbus ch)"
  shows "\<exists>s'. sc_handle_sbus ch s = Inr s' \<and> scamp_inv s'"
proof -
  have len: "3 < length ch" "2 \<le> length ch" using assms(2) by auto
  have "\<forall>i<length ch. 23 \<le> ch ! i \<and> ch ! i \<le> 2023" using assms(2) by (auto simp: list_all_length)
  then have "23 \<le> ch ! 1 \<and> ch ! 1 \<le> 2023" using len by simp
  then have raw: "0 \<le> SBUSToRaw (ch ! 1) \<and> SBUSToRaw (ch ! 1) \<le> 180" using SBUSToRaw_range by blast
  show ?thesis
    using assms(1) len raw
    by (cases "sc_rudder_mode s"; cases "sc_winch_mode s") (simp_all add: sc_handle_sbus_def scamp_inv_def)
qed

lemma sc_inv_rudder:
  assumes "scamp_inv s" "small_opt p" "mode \<noteq> DISABLE"
  shows "\<exists>s'. sc_handle_rudder mode p s = Inr s' \<and> scamp_inv s'"
proof -
  have "\<bar>rudder_zero (zconsts s)\<bar> \<le> 10 ^ 6" using assms(1) by (simp add: scamp_inv_def consts_ok_def)
  from to_int32_small [OF rudder_pos_fits [OF assms(2) this]] show ?thesis
    using assms(1, 3) by (simp add: sc_handle_rudder_def SetRawFromRudderCmd_def scamp_inv_def)
qed

lemma sc_inv_ballast_cmd:
  assumes "scamp_inv s" "small_opt v" "mode \<noteq> DISABLE"
  shows "\<exists>s'. sc_handle_ballast_cmd mode v u s = Inr s' \<and> scamp_inv s'"
  using assms small_fits(2)
  by (cases v; cases u)
    (auto simp: sc_handle_ballast_cmd_def SetRawFromBallastCmd_def scamp_inv_def small_opt_def to_int32_small Let_def)

lemma sc_inv_sail:
  assumes "scamp_inv s" "small v"
  shows "\<exists>s'. sc_handle_sail mode v s = Inr s' \<and> scamp_inv s'"
  using assms small_fits(1) by (auto simp: sc_handle_sail_def scamp_inv_def to_int32_small)

lemma sc_inv_pot: "scamp_inv s \<Longrightarrow> \<exists>s'. sc_handle_pot v s = Inr s' \<and> scamp_inv s'"
  by (simp add: sc_handle_pot_def WinchPotToAngle_def scamp_inv_def consts_ok_def)

lemma sc_inv_ballast: "scamp_inv s \<Longrightarrow> scamp_inv (sc_handle_ballast b s)"
  by (simp add: sc_handle_ballast_def scamp_inv_def Let_def split: option.split)

interpretation actuators: node_machine scamp_step scamp_inv scamp_event_ok
proof
  fix s e
  assume "scamp_inv s" "scamp_event_ok e"
  then show "\<exists>s'. scamp_step e s = Inr s' \<and> scamp_inv s'"
    using sc_inv_iterate sc_inv_mode sc_inv_consts sc_inv_sbus sc_inv_rudder sc_inv_ballast_cmd sc_inv_sail sc_inv_pot sc_inv_ballast
    by (cases e) (simp_all, simp add: scamp_inv_def)
qed

section \<open>Properties\<close>

lemma SCAMP_new_inv: "case stored of None \<Rightarrow> True | Some c \<Rightarrow> consts_ok c \<Longrightarrow> scamp_inv (SCAMP_new stored)"
  by (cases stored) (simp_all add: scamp_inv_def consts_ok_def node_init)

text \<open>
  C4: As long as the messages stay within their usual ranges the node does not fault, every PWM
  message has a winch value between 0 and 180, and the output of a disabled actuator is
  neutral.
\<close>

theorem scamp_outputs_in_range:
  assumes "list_all scamp_event_ok es" "case stored of None \<Rightarrow> True | Some c \<Rightarrow> consts_ok c"
  shows "\<exists>s. run_events scamp_step es (SCAMP_new stored) = Inr s \<and>
    list_all (\<lambda>p. 0 \<le> pwm_winch p \<and> pwm_winch p \<le> 180) (sc_pwm s) \<and>
    (sc_winch_mode s = DISABLE \<longrightarrow> raw_winch s = 90) \<and> (sc_rudder_mode s = DISABLE \<longrightarrow> raw_rudder s = 90) \<and>
    (sc_ballast_mode s = DISABLE \<longrightarrow> raw_ballast s = 90)"
  using actuators.run_inv [OF SCAMP_new_inv [OF assms(2)] assms(1)] by (auto simp: scamp_inv_def)

theorem scamp_outputs_in_range_witness:
  "\<exists>s. run_events scamp_step [Sc_mode (clear_mode\<lparr>winch_mode := Some FILTERED_RC\<rparr>), Sc_sbus [1023, 2000, 1023, 23], Sc_iterate]
      (SCAMP_new None) = Inr s \<and> list_all (\<lambda>p. 0 \<le> pwm_winch p \<and> pwm_winch p \<le> 180) (sc_pwm s) \<and>
    (sc_rudder_mode s = DISABLE \<longrightarrow> raw_rudder s = 90)"
  using scamp_outputs_in_range
    [of "[Sc_mode (clear_mode\<lparr>winch_mode := Some FILTERED_RC\<rparr>), Sc_sbus [1023, 2000, 1023, 23], Sc_iterate]" None]
  by auto

text \<open>The end stops: which outputs of the winch respect the position of the sail, and the command that stands.\<close>

definition respects_end_stops :: "SCAMP \<Rightarrow> int \<Rightarrow> bool" where
  "respects_end_stops s out \<longleftrightarrow>
     (let out_is_low = (winch_90_pot (zconsts s) > winch_0_pot (zconsts s))
      in (sail_pos s \<ge> winch_out_angle (zconsts s) \<longrightarrow> (if out_is_low then out \<ge> 90 else out \<le> 90)) \<and>
         (sail_pos s \<le> 0 \<and> sail_pos s < winch_out_angle (zconsts s) \<longrightarrow> (if out_is_low then out \<le> 90 else out \<ge> 90)) \<and>
         (volts_winch s = 0 \<longrightarrow> out = 90))"

lemma commanded_winch_respects_stops:
  assumes "sc_winch_mode s \<in> {AUTO, MANUAL_WIFI, FILTERED_RC}"
  shows "respects_end_stops s (raw_winch (sc_iterate s))"
proof -
  define v where "v = sail_volts (of_int (volts_winch s)) s"
  have raw: "raw_winch (sc_iterate s) =
      trunc (v * (if winch_90_pot (zconsts s) > winch_0_pot (zconsts s) then -1 else 1) / 12 * 90 + 90)"
    using assms by (simp add: sc_iterate_def Let_def SetRawFromSailCmd_def v_def)
  have v: "-12 \<le> v" "v \<le> 12" using sail_volts_range by (simp_all add: v_def)
  have out: "sail_pos s \<ge> winch_out_angle (zconsts s) \<Longrightarrow> v \<le> 0"
    and inn: "sail_pos s \<le> 0 \<Longrightarrow> sail_pos s < winch_out_angle (zconsts s) \<Longrightarrow> 0 \<le> v"
    and still: "volts_winch s = 0 \<Longrightarrow> v = 0"
    by (auto simp: v_def sail_volts_def Let_def)
  show ?thesis
    using out inn still raw_from_volts(3, 4) [of v] raw_from_volts(3, 4) [of "- v"] v
    by (auto simp: respects_end_stops_def Let_def raw trunc_def)
qed

lemma sc_iterate_pwm: "sc_pwm (sc_iterate s) = sc_pwm s @
    [\<lparr>pwm_winch = raw_winch (sc_iterate s) mod 2 ^ 32, pwm_rudder = raw_rudder s mod 2 ^ 32, pwm_ballast = raw_ballast s mod 2 ^ 32\<rparr>]"
  by (simp add: sc_iterate_def SetRawFromSailCmd_def Let_def)

text \<open>
  C36: The end stops of the winch.  After any messages within their usual ranges, the winch value that an iteration sends
  respects them in every mode but manual radio control: however large the commanded voltage, a sail that is out as far
  as it goes is not let out further and one that is fully in is not pulled in further, whichever
  way round the potentiometer is mounted, and commands below one volt leave the winch still.  (A disabled winch is still.)  Under manual radio
  control the stops are bypassed: an iteration sends the value that it finds, and a radio message sets it from the stick alone.
\<close>

theorem winch_end_stops:
  assumes "list_all scamp_event_ok es" "case stored of None \<Rightarrow> True | Some c \<Rightarrow> consts_ok c"
  shows "\<exists>s s'. run_events scamp_step es (SCAMP_new stored) = Inr s \<and> scamp_step Sc_iterate s = Inr s' \<and>
    (\<exists>out. sc_pwm s' = sc_pwm s @ [\<lparr>pwm_winch = out, pwm_rudder = raw_rudder s mod 2 ^ 32, pwm_ballast = raw_ballast s mod 2 ^ 32\<rparr>] \<and>
      (if sc_winch_mode s = MANUAL_RC
       then out = raw_winch s \<and> (\<forall>ch s1. scamp_event_ok (Sc_sbus ch) \<and> scamp_step (Sc_sbus ch) s = Inr s1 \<longrightarrow> raw_winch s1 = SBUSToRaw (ch ! 1))
       else respects_end_stops s out))"
proof -
  obtain s where s: "run_events scamp_step es (SCAMP_new stored) = Inr s" "scamp_inv s"
    using actuators.run_inv [OF SCAMP_new_inv [OF assms(2)] assms(1)] by blast
  have in_range: "raw_winch (sc_iterate s) mod 2 ^ 32 = raw_winch (sc_iterate s)"
    using sc_inv_iterate [OF s(2)] by (intro mod_pos_pos_trivial) (simp_all add: scamp_inv_def)
  have idle: "raw_winch (sc_iterate s) = raw_winch s" if "sc_winch_mode s \<in> {MANUAL_RC, DISABLE}"
    using that by (auto simp: sc_iterate_def Let_def)
  have radio: "raw_winch s1 = SBUSToRaw (ch ! 1)"
    if "sc_winch_mode s = MANUAL_RC" "scamp_event_ok (Sc_sbus ch)" "sc_handle_sbus ch s = Inr s1" for ch s1
    using that by (auto simp: sc_handle_sbus_def bindr_eq_Inr split: if_splits)
  have "respects_end_stops s (raw_winch (sc_iterate s))" if "sc_winch_mode s \<noteq> MANUAL_RC"
  proof (cases "sc_winch_mode s = DISABLE")
    case True
    then show ?thesis using idle s(2) by (simp add: respects_end_stops_def scamp_inv_def)
  qed (use that commanded_winch_respects_stops [of s] in \<open>cases "sc_winch_mode s"; simp\<close>)
  with s(1) idle radio show ?thesis by (auto simp: sc_iterate_pwm [of s, unfolded in_range])
qed

theorem winch_end_stops_witness:
  "\<exists>s s' out. run_events scamp_step [Sc_pot 1000, Sc_mode (clear_mode\<lparr>winch_mode := Some AUTO\<rparr>), Sc_sail_cmd 12] (SCAMP_new None) = Inr s \<and>
    scamp_step Sc_iterate s = Inr s' \<and>
    sc_pwm s' = sc_pwm s @ [\<lparr>pwm_winch = out, pwm_rudder = raw_rudder s mod 2 ^ 32, pwm_ballast = raw_ballast s mod 2 ^ 32\<rparr>] \<and> out \<ge> 90"
proof -
  define es where "es = [Sc_pot 1000, Sc_mode (clear_mode\<lparr>winch_mode := Some AUTO\<rparr>), Sc_sail_cmd 12]"
  have ok: "list_all scamp_event_ok es" by (simp add: es_def small_def)
  have "sc_winch_mode s = AUTO \<and> winch_out_angle (zconsts s) \<le> sail_pos s \<and> winch_0_pot (zconsts s) < winch_90_pot (zconsts s)"
    if "run_events scamp_step es (SCAMP_new None) = Inr s" for s
    using that by (auto simp: es_def sc_handle_pot_def WinchPotToAngle_def sc_handle_mode_def sc_handle_sail_def clear_mode_def
        SCAMP_new_def default_consts_def to_int32_def Let_def bindr_eq_Inr split: if_splits)
  with winch_end_stops [of es None] ok show ?thesis unfolding es_def [symmetric] by (fastforce simp: respects_end_stops_def Let_def)
qed

text \<open>
  The winch starts at full power.  The initial command is 90 volts, so the first iteration
  after the winch leaves the disabled state, and before any sail command has arrived, drives it
  outwards with the full 12 volts.
\<close>

theorem winch_starts_at_full_power:
  assumes "m \<in> {AUTO, MANUAL_WIFI, FILTERED_RC}"
  shows "run_events scamp_step [Sc_mode (clear_mode\<lparr>winch_mode := Some m\<rparr>), Sc_iterate] (SCAMP_new None) =
    Inr ((SCAMP_new None)\<lparr>sc_winch_mode := m, raw_winch := 0, sc_pwm := [\<lparr>pwm_winch = 0, pwm_rudder = 90, pwm_ballast = 90\<rparr>],
      sc_consts := [default_consts]\<rparr>)"
proof -
  define s where "s = (SCAMP_new None)\<lparr>sc_winch_mode := m\<rparr>"
  have mode: "sc_handle_mode (clear_mode\<lparr>winch_mode := Some m\<rparr>) (SCAMP_new None) = s"
    using assms by (auto simp: s_def sc_handle_mode_def clear_mode_def SCAMP_new_def Let_def)
  have "\<not> winch_out_angle (zconsts s) \<le> sail_pos s" "sail_pos s \<le> 0" "volts_winch s = 90"
    "winch_90_pot (zconsts s) > winch_0_pot (zconsts s)"
    using pi_gt_zero by (simp_all add: s_def SCAMP_new_def default_consts_def not_le)
  then have "SetRawFromSailCmd (of_int (volts_winch s)) s = s\<lparr>raw_winch := 0\<rparr>"
    by (simp add: SetRawFromSailCmd_def sail_volts_def Let_def trunc_def)
  moreover have "sc_winch_mode s \<in> {AUTO, MANUAL_WIFI, FILTERED_RC}" using assms by (simp add: s_def)
  ultimately have "sc_iterate s =
      s\<lparr>raw_winch := 0, sc_pwm := [\<lparr>pwm_winch = 0, pwm_rudder = 90, pwm_ballast = 90\<rparr>], sc_consts := [default_consts]\<rparr>"
    by (simp add: sc_iterate_def s_def SCAMP_new_def)
  then show ?thesis by (simp add: mode) (simp add: s_def)
qed

theorem winch_starts_at_full_power_witness:
  "run_events scamp_step [Sc_mode (clear_mode\<lparr>winch_mode := Some AUTO\<rparr>), Sc_iterate] (SCAMP_new None) =
    Inr ((SCAMP_new None)\<lparr>sc_winch_mode := AUTO, raw_winch := 0, sc_pwm := [\<lparr>pwm_winch = 0, pwm_rudder = 90, pwm_ballast = 90\<rparr>],
      sc_consts := [default_consts]\<rparr>)"
  by (rule winch_starts_at_full_power) simp

text \<open>
  The node listens to the queue on which it publishes its own constants.  Its own message changes
  nothing when no other constants came in between, but a message that another node put on the
  queue just before is handled first and then undone: the constants that were set by hand are lost,
  and what was written to the file is not what the node goes on with.
\<close>

definition consts_message :: "ZeroingConstants \<Rightarrow> ConstsMsg" where
  "consts_message c = \<lparr>c_winch_0 = Some (winch_0_pot c), c_winch_90 = Some (winch_90_pot c), c_rudder = Some (rudder_zero c),
     c_ballast = Some (ballast_zero c), c_out = Some (winch_out_angle c), c_write = False\<rparr>"

lemma own_consts_idle: "sc_handle_consts (consts_message (zconsts s)) s = s"
  by (simp add: sc_handle_consts_def consts_message_def)

lemma consts_message_wins [simp]: "zconsts (sc_handle_consts (consts_message c) s) = c"
  by (simp add: sc_handle_consts_def consts_message_def Let_def)

theorem own_constants_undo_calibration:
  "\<exists>s'. run_events scamp_step [Sc_iterate, Sc_consts m, Sc_consts (consts_message (last (sc_consts (sc_iterate s))))] s = Inr s' \<and>
     zconsts s' = zconsts s \<and>
     sc_written s' = sc_written s @ (if c_write m then [zconsts (sc_handle_consts m s)] else [])"
proof -
  have "zconsts (sc_iterate s) = zconsts s" "sc_written (sc_iterate s) = sc_written s" "last (sc_consts (sc_iterate s)) = zconsts s"
    by (simp_all add: sc_iterate_def Let_def SetRawFromSailCmd_def)
  then show ?thesis by (simp add: sc_handle_consts_def Let_def consts_message_def)
qed

end
