(* ===== verification/Ui_Server.thy ===== *)
theory Ui_Server
  imports Boat_Prelude
begin

text \<open>
  The server of the user interface (\<^verbatim>\<open>ui/server.cc\<close>): a page sends a JSON object whose members
  are requests for current values (\<^verbatim>\<open>null\<close>) or messages to put on a queue; the server takes the
  object apart by hand and answers with an object of values.
\<close>

section \<open>Strings\<close>

text \<open>\<^verbatim>\<open>std::string::find\<close>, with \<open>None\<close> for \<^verbatim>\<open>npos\<close>.\<close>

fun find_char :: "char \<Rightarrow> string \<Rightarrow> nat option" where
  "find_char c [] = None"
| "find_char c (x # xs) = (if x = c then Some 0 else map_option Suc (find_char c xs))"

definition find_from :: "char \<Rightarrow> nat \<Rightarrow> string \<Rightarrow> nat option" where
  "find_from c i s = map_option ((+) i) (find_char c (drop i s))"

text \<open>The position behind a character; adding one to \<^verbatim>\<open>npos\<close> gives zero.\<close>

definition behind :: "nat option \<Rightarrow> nat" where
  "behind p = (case p of None \<Rightarrow> 0 | Some i \<Rightarrow> Suc i)"

section \<open>Taking a request apart\<close>

definition member_name :: "string \<Rightarrow> string" where
  "member_name msg =
     (let start_name = behind (find_char (CHR 0x22) msg)
      in case find_from (CHR 0x22) start_name msg of
           None \<Rightarrow> drop start_name msg
         | Some end_name \<Rightarrow> take (end_name - start_name) (drop start_name msg))"

text \<open>The loop over the characters of a value: open brackets and the position it stops at.\<close>

definition bracket :: "char \<Rightarrow> int" where
  "bracket c = (if c = CHR ''['' \<or> c = CHR ''{'' then 1 else if c = CHR '']'' \<or> c = CHR ''}'' then -1 else 0)"

definition is_quote :: "char \<Rightarrow> bool" where
  "is_quote c \<longleftrightarrow> c = CHR 0x22"

definition is_comma :: "char \<Rightarrow> bool" where
  "is_comma c \<longleftrightarrow> c = CHR '',''"

fun scan_val :: "string \<Rightarrow> nat \<Rightarrow> int \<Rightarrow> bool \<Rightarrow> nat \<Rightarrow> int \<times> nat" where
  "scan_val [] i open_cnt in_quote end_val = (open_cnt, end_val)"
| "scan_val (c # cs) i open_cnt in_quote end_val =
     (if is_quote c then scan_val cs (Suc i) open_cnt (\<not> in_quote) i
      else if in_quote then scan_val cs (Suc i) open_cnt in_quote i
      else if open_cnt + bracket c < 0 \<or> is_comma c \<and> open_cnt + bracket c = 0 then (open_cnt + bracket c, i)
      else scan_val cs (Suc i) (open_cnt + bracket c) in_quote i)"

text \<open>One member: name, value and the rest, or nothing if the brackets do not match.\<close>

definition next_member :: "string \<Rightarrow> (string \<times> string \<times> string) option" where
  "next_member msg =
     (let name = member_name msg;
          msg1 = drop (behind (find_char (CHR '':'') msg)) msg;
          (open_cnt, end0) = scan_val msg1 0 0 False 0
      in if open_cnt > 0 then None
         else let end_val = (if open_cnt = 0 \<and> (end0 < length msg1 \<longrightarrow> \<not> is_comma (msg1 ! end0)) then Suc end0 else end0)
              in Some (name, take end_val msg1, drop end_val msg1))"

lemma find_char_Some: "find_char c s = Some i \<Longrightarrow> i < length s"
  by (induction s arbitrary: i) (auto split: if_splits)

lemma next_member_shorter:
  assumes "find_char (CHR '':'') msg \<noteq> None" "next_member msg = Some (name, val, rest)"
  shows "length rest < length msg"
proof -
  obtain i where i: "find_char (CHR '':'') msg = Some i" "i < length msg"
    using assms(1) find_char_Some by fastforce
  obtain oc e where "scan_val (drop (Suc i) msg) 0 0 False 0 = (oc, e)" by fastforce
  with assms(2) have "length rest \<le> length (drop (Suc i) msg)"
    unfolding next_member_def i(1) behind_def Let_def by (auto split: if_splits)
  with i(2) show ?thesis by auto
qed

section \<open>Answering\<close>

text \<open>
  Messages are looked into by protobuf's reflection, which is generated code: whether a message
  has a field of a name and of which kind, whether it is set, its submessage, and the texts of
  a message, a string and a number.
\<close>

datatype ftype = F_message | F_string | F_number

record 'm reflection =
  rf_find :: "'m \<Rightarrow> string \<Rightarrow> ftype option"
  rf_has :: "'m \<Rightarrow> string \<Rightarrow> bool"
  rf_message :: "'m \<Rightarrow> string \<Rightarrow> 'm"
  rf_json :: "'m \<Rightarrow> string"
  rf_string :: "'m \<Rightarrow> string \<Rightarrow> string"
  rf_number :: "'m \<Rightarrow> string \<Rightarrow> string"

text \<open>A path split at its periods.\<close>

fun split_path :: "string \<Rightarrow> string list" where
  "split_path [] = [[]]"
| "split_path (c # cs) =
     (if c = CHR ''.'' then [] # split_path cs
      else (case split_path cs of [] \<Rightarrow> [[c]] | p # ps \<Rightarrow> (c # p) # ps))"

text \<open>
  The walk down a path: reading a submessage of a field that is not a message stops the
  process, a missing field ends the walk with an empty text.
\<close>

fun walk_path :: "'m reflection \<Rightarrow> 'm \<Rightarrow> string list \<Rightarrow> ('m \<times> string) option res" where
  "walk_path R m [] = Inr None"
| "walk_path R m [f] = Inr (Some (m, f))"
| "walk_path R m (f # g # ps) =
     (case rf_find R m f of
        None \<Rightarrow> Inr None
      | Some F_message \<Rightarrow> walk_path R (rf_message R m f) (g # ps)
      | Some _ \<Rightarrow> Inl Fatal)"

definition field_text :: "'m reflection \<Rightarrow> 'm \<Rightarrow> string \<Rightarrow> string option" where
  "field_text R m f =
     (case rf_find R m f of
        None \<Rightarrow> None
      | Some t \<Rightarrow>
          if \<not> rf_has R m f then None
          else Some (case t of F_message \<Rightarrow> rf_json R (rf_message R m f) | F_string \<Rightarrow> rf_string R m f
                             | F_number \<Rightarrow> rf_number R m f))"

text \<open>\<open>msgs\<close> holds the latest entry of every queue that has had one.\<close>

definition GetCurrentVal :: "'m reflection \<Rightarrow> (string \<Rightarrow> 'm option) \<Rightarrow> string \<Rightarrow> string res" where
  "GetCurrentVal R msgs msg =
     (case msgs (hd (split_path msg)) of
        None \<Rightarrow> Inr []
      | Some entry \<Rightarrow>
          bindr (walk_path R entry (split_path msg)) (\<lambda>r. case r of
            None \<Rightarrow> Inr []
          | Some (m, f) \<Rightarrow>
              (case field_text R m f of
                 None \<Rightarrow> Inr []
               | Some out \<Rightarrow> Inr ([CHR 0x22] @ msg @ [CHR 0x22, CHR '':''] @ out @ '',''))))"

text \<open>
  \<open>fields\<close> are the queues' names, \<open>to_entry\<close> turns the JSON text of a queue's message into a
  serialised entry if it can.
\<close>

record ui_env =
  ui_fields :: "string list"
  ui_entry :: "string \<Rightarrow> string \<Rightarrow> bytes option"

record ui_result =
  ui_out :: string
  ui_sent :: "(string \<times> bytes) list"

definition process_member :: "'m reflection \<Rightarrow> ui_env \<Rightarrow> (string \<Rightarrow> 'm option) \<Rightarrow> string \<times> string \<Rightarrow> ui_result \<Rightarrow> ui_result res" where
  "process_member R E msgs nv r =
     (case nv of (name, val) \<Rightarrow>
        if val = ''null'' then bindr (GetCurrentVal R msgs name) (\<lambda>t. Inr (r\<lparr>ui_out := ui_out r @ t\<rparr>))
        else if find_char (CHR ''.'') name \<noteq> None then Inr r
        else if name \<notin> set (ui_fields E) then Inr r
        else (case ui_entry E name val of
                None \<Rightarrow> Inr r
              | Some buf \<Rightarrow>
                  if length buf > 1024 then Inl SizeError
                  else Inr (r\<lparr>ui_sent := ui_sent r @ [(name, buf)]\<rparr>)))"

text \<open>
  The members are processed as they are found: when the brackets do not match, what came before
  has been done, but there is no answer.
\<close>

function process_members :: "'m reflection \<Rightarrow> ui_env \<Rightarrow> (string \<Rightarrow> 'm option) \<Rightarrow> string \<Rightarrow> ui_result \<Rightarrow> (ui_result \<times> bool) res" where
  "process_members R E msgs msg r =
     (if find_char (CHR '':'') msg = None then Inr (r, True)
      else case next_member msg of
             None \<Rightarrow> Inr (r, False)
           | Some (name, val, rest) \<Rightarrow>
               bindr (process_member R E msgs (name, val) r) (process_members R E msgs rest))"
  by pat_completeness auto
termination
  by (relation "measure (\<lambda>(R, E, msgs, msg, r). length msg)") (use next_member_shorter in \<open>force+\<close>)

declare process_members.simps [simp del]

text \<open>The whole of \<^verbatim>\<open>ProcessSocket\<close>, for a message that is not empty: the answer, if any, and the messages sent.\<close>

definition strip_braces :: "string \<Rightarrow> string res" where
  "strip_braces msg =
     (if msg = [] then Inl OutOfBounds
      else let msg1 = (if hd msg = CHR ''{'' then tl msg else msg)
           in if msg1 = [] then Inl OutOfBounds
              else Inr (if last msg1 = CHR ''}'' then butlast msg1 else msg1))"

definition ui_start :: "string \<Rightarrow> ui_result" where
  "ui_start time_text = \<lparr>ui_out = ''{'' @ [CHR 0x22] @ ''time'' @ [CHR 0x22] @ '':'' @ time_text @ '','', ui_sent = []\<rparr>"

definition ProcessSocket :: "'m reflection \<Rightarrow> ui_env \<Rightarrow> (string \<Rightarrow> 'm option) \<Rightarrow> string \<Rightarrow> string \<Rightarrow>
    (string option \<times> (string \<times> bytes) list) res" where
  "ProcessSocket R E msgs time_text message =
     bindr (strip_braces message) (\<lambda>msg.
     bindr (process_members R E msgs msg (ui_start time_text)) (\<lambda>(r, complete).
       Inr (if complete then Some (butlast (ui_out r) @ ''}'') else None, ui_sent r)))"

section \<open>Keeping track of the connection\<close>

record ui_conn_state =
  last_conn :: int
  conn_connected :: bool

definition ui_request_at :: "int \<Rightarrow> ui_conn_state \<Rightarrow> ui_conn_state" where
  "ui_request_at now s = s\<lparr>last_conn := now, conn_connected := True\<rparr>"

definition ui_iterate :: "int \<Rightarrow> ui_conn_state \<Rightarrow> ui_conn_state \<times> bool" where
  "ui_iterate now s =
     (let s1 = (if now > last_conn s + 5 * 10 ^ 9 then s\<lparr>conn_connected := False\<rparr> else s) in (s1, conn_connected s1))"

text \<open>\<^verbatim>\<open>ProcessQueue\<close>: what is known of a queue after a message was received, if it parses.\<close>

definition ui_queue_message :: "(bytes \<Rightarrow> 'm option) \<Rightarrow> string \<Rightarrow> bytes \<Rightarrow> 'm \<Rightarrow> (string \<Rightarrow> 'm option) \<Rightarrow> 'm \<times> (string \<Rightarrow> 'm option)" where
  "ui_queue_message parse name buf entry msgs =
     (let entry' = (case parse buf of None \<Rightarrow> entry | Some m \<Rightarrow> m) in (entry', msgs(name \<mapsto> entry')))"

section \<open>Well-formed requests\<close>

text \<open>
  A value that can stand in a request: brackets match, quotes are closed, and a comma outside
  quotes is inside brackets.  Names have no quote and no colon.
\<close>

fun value_ok :: "string \<Rightarrow> int \<Rightarrow> bool \<Rightarrow> bool" where
  "value_ok [] open_cnt in_quote = (open_cnt = 0 \<and> \<not> in_quote)"
| "value_ok (c # cs) open_cnt in_quote =
     (if is_quote c then value_ok cs open_cnt (\<not> in_quote)
      else if in_quote then value_ok cs open_cnt in_quote
      else 0 \<le> open_cnt + bracket c \<and> \<not> (is_comma c \<and> open_cnt + bracket c = 0) \<and> value_ok cs (open_cnt + bracket c) in_quote)"

definition member_ok :: "string \<times> string \<Rightarrow> bool" where
  "member_ok nv \<longleftrightarrow> CHR 0x22 \<notin> set (fst nv) \<and> CHR '':'' \<notin> set (fst nv) \<and> snd nv \<noteq> [] \<and> value_ok (snd nv) 0 False"

fun body :: "(string \<times> string) list \<Rightarrow> string" where
  "body [] = []"
| "body [(n, v)] = CHR 0x22 # n @ CHR 0x22 # CHR '':'' # v"
| "body ((n, v) # nv # ms) = CHR 0x22 # n @ CHR 0x22 # CHR '':'' # v @ CHR '','' # body (nv # ms)"

lemma special_chars [simp]:
  "is_quote (CHR 0x22)" "\<not> is_quote (CHR '','')" "is_comma (CHR '','')" "bracket (CHR '','') = 0"
  by (simp_all add: is_quote_def is_comma_def bracket_def)

lemma scan_value:
  assumes "value_ok v oc q"
  shows "scan_val (v @ CHR '','' # r) i oc q e = (0, i + length v)"
    and "scan_val v i oc q e = (0, if v = [] then e else i + length v - 1)"
  using assms by (induction v arbitrary: i oc q e) (auto split: if_splits)

lemma last_not_comma: "value_ok v oc q \<Longrightarrow> v \<noteq> [] \<Longrightarrow> \<not> is_comma (last v)"
proof (induction v arbitrary: oc q)
  case (Cons c v)
  show ?case
  proof (cases "v = []")
    case True
    then show ?thesis
      using Cons.prems by (auto simp: is_comma_def is_quote_def bracket_def split: if_splits)
  next
    case False
    then show ?thesis using Cons.prems Cons.IH by (auto split: if_splits)
  qed
qed simp

lemma find_char_append: "c \<notin> set xs \<Longrightarrow> find_char c (xs @ c # ys) = Some (length xs)"
  by (induction xs) auto

lemma find_char_None: "c \<notin> set xs \<Longrightarrow> find_char c xs = None"
  by (induction xs) auto

lemma next_member_render:
  assumes ok: "member_ok (n, v)" and pre: "pre = [] \<or> pre = '',''" and tail: "r = [] \<or> (\<exists>t. r = CHR '','' # t)"
  shows "next_member (pre @ CHR 0x22 # n @ CHR 0x22 # CHR '':'' # v @ r) = Some (n, v, r)"
    and "find_char (CHR '':'') (pre @ CHR 0x22 # n @ CHR 0x22 # CHR '':'' # v @ r) \<noteq> None"
proof -
  define msg where "msg = pre @ CHR 0x22 # n @ CHR 0x22 # CHR '':'' # v @ r"
  have n: "CHR 0x22 \<notin> set n" "CHR '':'' \<notin> set n" and v: "v \<noteq> []" "value_ok v 0 False"
    using ok by (simp_all add: member_ok_def)
  have pre': "CHR 0x22 \<notin> set pre" "CHR '':'' \<notin> set pre" using pre by auto
  have quote: "find_char (CHR 0x22) msg = Some (length pre)"
    unfolding msg_def by (rule find_char_append [OF pre'(1)])
  have d: "drop (Suc (length pre)) msg = n @ CHR 0x22 # CHR '':'' # v @ r" by (simp add: msg_def)
  have name: "member_name msg = n"
    by (simp add: member_name_def find_from_def quote behind_def d find_char_append [OF n(1)])
  define a where "a = pre @ CHR 0x22 # n @ [CHR 0x22]"
  have msg2: "msg = a @ CHR '':'' # (v @ r)" by (simp add: msg_def a_def)
  have colon: "find_char (CHR '':'') msg = Some (length a)"
    unfolding msg2 by (rule find_char_append) (use pre' n in \<open>auto simp: a_def\<close>)
  then show "find_char (CHR '':'') (pre @ CHR 0x22 # n @ CHR 0x22 # CHR '':'' # v @ r) \<noteq> None"
    by (simp add: msg_def)
  have rest: "drop (behind (find_char (CHR '':'') msg)) msg = v @ r"
    unfolding colon behind_def by (simp add: msg2)
  have "next_member msg = Some (n, v, r)"
  proof (cases "r = []")
    case True
    have "v ! (length v - 1) = last v" using v(1) by (simp add: last_conv_nth)
    then show ?thesis
      using True v scan_value(2) [OF v(2), of 0 0] last_not_comma [OF v(2, 1)]
      by (simp add: next_member_def rest name Let_def)
  next
    case False
    then obtain t where r: "r = CHR '','' # t" using tail by blast
    have "(v @ r) ! length v = CHR '',''" by (simp add: r)
    then show ?thesis
      using scan_value(1) [OF v(2), of t 0 0] by (simp add: next_member_def rest name Let_def r)
  qed
  then show "next_member (pre @ CHR 0x22 # n @ CHR 0x22 # CHR '':'' # v @ r) = Some (n, v, r)"
    by (simp add: msg_def)
qed

lemma process_members_body:
  assumes "list_all member_ok ms" "pre = [] \<or> pre = '',''"
  shows "process_members R E msgs (pre @ body ms) r =
    bindr (run_events (process_member R E msgs) ms r) (\<lambda>r'. Inr (r', True))"
  using assms
proof (induction ms arbitrary: pre r rule: body.induct)
  case 1
  then show ?case by (auto simp: process_members.simps)
next
  case (2 n v)
  have none: "process_members R E msgs [] r' = Inr (r', True)" for r' by (simp add: process_members.simps)
  have "member_ok (n, v)" using 2 by simp
  from next_member_render [OF this "2.prems"(2), of "[]"] show ?case
    by (cases "process_member R E msgs (n, v) r") (auto simp: process_members.simps [of R E msgs "pre @ _"] none)
next
  case (3 n v nv ms)
  have ok: "member_ok (n, v)" "list_all member_ok (nv # ms)" using "3.prems"(1) by simp_all
  note IH = "3.IH" [OF ok(2), of "'',''"]
  from next_member_render [OF ok(1) "3.prems"(2), of "CHR '','' # body (nv # ms)"] show ?case
    by (cases "process_member R E msgs (n, v) r") (auto simp: process_members.simps [of R E msgs "pre @ _"] IH [simplified])
qed

section \<open>Properties\<close>

text \<open>
  C32: A well-formed request, an object of members with a name each and a value whose brackets and
  quotes match, is taken apart into exactly these members: the server processes them one after
  the other, in order, and answers with the collected values as one object.
\<close>

theorem ui_request_processed:
  assumes "list_all member_ok ms"
  shows "ProcessSocket R E msgs time_text (''{'' @ body ms @ ''}'') =
    bindr (run_events (process_member R E msgs) ms (ui_start time_text))
      (\<lambda>r. Inr (Some (butlast (ui_out r) @ ''}''), ui_sent r))"
proof -
  have "strip_braces (''{'' @ body ms @ ''}'') = Inr (body ms)" by (simp add: strip_braces_def)
  moreover have "process_members R E msgs (body ms) (ui_start time_text) = bindr (run_events (process_member R E msgs) ms (ui_start time_text)) (\<lambda>r. Inr (r, True))"
    using process_members_body [OF assms, of "[]"] by simp
  ultimately show ?thesis
    by (cases "run_events (process_member R E msgs) ms (ui_start time_text)") (simp_all add: ProcessSocket_def)
qed

text \<open>A page that asks for two values and steers the rudder.\<close>

definition demo_reflection :: "string reflection" where
  "demo_reflection = \<lparr>rf_find = (\<lambda>m f. Some F_number), rf_has = (\<lambda>m f. True), rf_message = (\<lambda>m f. m),
     rf_json = (\<lambda>m. m), rf_string = (\<lambda>m f. m), rf_number = (\<lambda>m f. ''7'')\<rparr>"

definition demo_env :: ui_env where
  "demo_env = \<lparr>ui_fields = [''rudder_cmd''], ui_entry = (\<lambda>name val. Some [1, 2])\<rparr>"

theorem ui_request_processed_witness:
  "ProcessSocket demo_reflection demo_env (\<lambda>_. Some []) ''3''
      (''{'' @ body [(''ping'', ''null''), (''rudder_cmd'', ''{a:[1,2]}'')] @ ''}'') =
    Inr (Some (''{'' @ [CHR 0x22] @ ''time'' @ [CHR 0x22] @ '':3,'' @ [CHR 0x22] @ ''ping'' @ [CHR 0x22] @ '':7}''), [(''rudder_cmd'', [1, 2])])"
proof -
  have "list_all member_ok [(''ping'', ''null''), (''rudder_cmd'', ''{a:[1,2]}'')]"
    by (simp add: member_ok_def is_quote_def is_comma_def bracket_def)
  from ui_request_processed [OF this, of demo_reflection demo_env "\<lambda>_. Some []" "''3''"] show ?thesis
    by (simp add: process_member_def GetCurrentVal_def field_text_def demo_reflection_def demo_env_def ui_start_def)
qed

section \<open>The server's threads\<close>

text \<open>
  The server before any request: \<open>last_conn\<close> is the epoch of the clock and the flag is not set.  A
  server that is shut down ignores requests; otherwise the request counts as a sign of life even
  when it turns out not to be an object.
\<close>

definition ui_new :: ui_conn_state where
  "ui_new = \<lparr>last_conn = 0, conn_connected = False\<rparr>"

definition ui_on_message :: "'m reflection \<Rightarrow> ui_env \<Rightarrow> (string \<Rightarrow> 'm option) \<Rightarrow> bool \<Rightarrow> int \<Rightarrow> string \<Rightarrow> string \<Rightarrow> ui_conn_state \<Rightarrow>
    ui_conn_state \<times> (string option \<times> (string \<times> bytes) list) res" where
  "ui_on_message R E msgs shutdown now time_text message s =
     (if shutdown then (s, Inr (None, []))
      else (ui_request_at now s, ProcessSocket R E msgs time_text message))"

text \<open>
  The thread of a queue.  Each turn looks at the shutdown flag, receives, which may fail, and looks
  at the flag again; the message that the map points to lives in the thread.  A thread that sees the flag
  at the top of its loop takes its message out of the map; one that sees it after receiving
  returns at once and leaves the pointer to its message behind.
\<close>

datatype thread_state = Thread_runs | Thread_returned

fun ui_process_queue :: "(bytes \<Rightarrow> 'm option) \<Rightarrow> string \<Rightarrow> (bool \<times> bytes option \<times> bool) list \<Rightarrow> 'm \<Rightarrow> (string \<Rightarrow> 'm option) \<Rightarrow>
    (string \<Rightarrow> 'm option) \<times> thread_state" where
  "ui_process_queue parse name [] entry msgs = (msgs, Thread_runs)"
| "ui_process_queue parse name ((shutdown, rcvd, shutdown') # turns) entry msgs =
     (if shutdown then (msgs(name := None), Thread_returned)
      else case rcvd of
             None \<Rightarrow> ui_process_queue parse name turns entry msgs
           | Some buf \<Rightarrow>
               if shutdown' then (msgs, Thread_returned)
               else (case ui_queue_message parse name buf entry msgs of
                       (entry', msgs') \<Rightarrow> ui_process_queue parse name turns entry' msgs'))"

text \<open>What a running thread has put into the map: the last message that could be parsed.\<close>

definition received :: "(bool \<times> bytes option \<times> bool) list \<Rightarrow> bytes list" where
  "received turns = List.map_filter (\<lambda>(_, r, _). r) turns"

lemma received_Cons: "received ((a, r, b) # ts) = (case r of None \<Rightarrow> [] | Some x \<Rightarrow> [x]) @ received ts"
  by (simp add: received_def List.map_filter_def split: option.split)

definition last_parsed :: "(bytes \<Rightarrow> 'm option) \<Rightarrow> 'm \<Rightarrow> bytes list \<Rightarrow> 'm" where
  "last_parsed parse entry bufs = fold (\<lambda>b e. case parse b of None \<Rightarrow> e | Some m \<Rightarrow> m) bufs entry"

lemma ui_thread_running:
  assumes "list_all (\<lambda>(a, r, b). \<not> a \<and> \<not> b) turns"
  shows "ui_process_queue parse name turns entry msgs =
    (if received turns = [] then msgs else msgs(name \<mapsto> last_parsed parse entry (received turns)), Thread_runs)"
  using assms
proof (induction turns arbitrary: entry msgs)
  case (Cons t ts)
  obtain r where t: "t = (False, r, False)" using Cons.prems by (cases t) auto
  show ?case
    using Cons by (cases r) (auto simp: t received_Cons ui_queue_message_def last_parsed_def Let_def)
qed (simp add: received_def List.map_filter_def)

lemma ui_thread_runs_on:
  assumes "list_all (\<lambda>(a, r, b). \<not> a \<and> \<not> b) turns"
  shows "\<exists>entry'. ui_process_queue parse name (turns @ rest) entry msgs =
    ui_process_queue parse name rest entry' (fst (ui_process_queue parse name turns entry msgs))"
  using assms
proof (induction turns arbitrary: entry msgs)
  case (Cons t ts)
  obtain r where t: "t = (False, r, False)" using Cons.prems by (cases t) auto
  show ?case using Cons by (cases r) (auto simp: t ui_queue_message_def Let_def)
qed auto

text \<open>
  Shutting down.  A thread whose \<^verbatim>\<open>receive\<close> gives up removes its message from the map, but one that
  still receives a message returns with the map pointing into its own frame.
\<close>

theorem ui_thread_clears_when_receive_fails:
  assumes "list_all (\<lambda>(a, r, b). \<not> a \<and> \<not> b) turns"
  shows "\<exists>msgs'. ui_process_queue parse name (turns @ [(False, None, True), (True, None, True)]) entry msgs = (msgs', Thread_returned) \<and>
    msgs' name = None"
proof -
  from ui_thread_runs_on [OF assms, of parse name "[(False, None, True), (True, None, True)]" entry msgs] obtain entry' where
    "ui_process_queue parse name (turns @ [(False, None, True), (True, None, True)]) entry msgs =
       ui_process_queue parse name [(False, None, True), (True, None, True)] entry' (fst (ui_process_queue parse name turns entry msgs))"
    by blast
  then show ?thesis by simp
qed

theorem ui_thread_leaves_pointer:
  assumes "list_all (\<lambda>(a, r, b). \<not> a \<and> \<not> b) turns" "received turns \<noteq> []"
  shows "\<exists>msgs'. ui_process_queue parse name (turns @ [(False, Some buf, True)]) entry msgs = (msgs', Thread_returned) \<and>
    msgs' name = Some (last_parsed parse entry (received turns))"
proof -
  from ui_thread_runs_on [OF assms(1), of parse name "[(False, Some buf, True)]" entry msgs] obtain entry' where
    "ui_process_queue parse name (turns @ [(False, Some buf, True)]) entry msgs =
       ui_process_queue parse name [(False, Some buf, True)] entry' (fst (ui_process_queue parse name turns entry msgs))"
    by blast
  then show ?thesis using ui_thread_running [OF assms(1), of parse name entry msgs] assms(2) by simp
qed

text \<open>
  The connection is reported exactly if the last request came within the last five seconds, as long
  as the clock does not go back, and never before the first request.
\<close>

lemma ui_iterate_connected:
  assumes "list_all (\<lambda>t. t \<le> now) ts"
  shows "snd (ui_iterate now (fold (\<lambda>t s. fst (ui_iterate t s)) ts s)) \<longleftrightarrow> conn_connected s \<and> now \<le> last_conn s + 5 * 10 ^ 9"
  using assms by (induction ts arbitrary: s) (auto simp: ui_iterate_def Let_def)

theorem ui_connection_reported:
  assumes "list_all (\<lambda>t. t \<le> now) ts"
  shows "(snd (ui_iterate now (fold (\<lambda>t s. fst (ui_iterate t s)) ts
             (fst (ui_on_message R E msgs False t0 time_text message s)))) \<longleftrightarrow> now \<le> t0 + 5 * 10 ^ 9) \<and>
    \<not> snd (ui_iterate now (fold (\<lambda>t s. fst (ui_iterate t s)) ts (fst (ui_on_message R E msgs True t0 time_text message ui_new))))"
  using ui_iterate_connected [OF assms] by (simp add: ui_on_message_def ui_request_at_def ui_new_def)

end
