(* ===== verification/Polygon.thy ===== *)
theory Polygon
  imports Nav_Util
begin

text \<open>
  Points, lines and convex polygons in the plane (\<^verbatim>\<open>math/polygon.cc\<close>), with Eigen's operations on
  two-dimensional vectors as documented: the normalised zero vector is the zero vector.
\<close>

section \<open>Vectors\<close>

type_synonym Point = vec2

fun padd :: "Point \<Rightarrow> Point \<Rightarrow> Point" where
  "padd (a, b) (c, d) = (a + c, b + d)"

fun psub :: "Point \<Rightarrow> Point \<Rightarrow> Point" where
  "psub (a, b) (c, d) = (a - c, b - d)"

fun pscale :: "real \<Rightarrow> Point \<Rightarrow> Point" where
  "pscale k (a, b) = (k * a, k * b)"

fun pdot :: "Point \<Rightarrow> Point \<Rightarrow> real" where
  "pdot (a, b) (c, d) = a * c + b * d"

definition squaredNorm :: "Point \<Rightarrow> real" where
  "squaredNorm p = pdot p p"

definition pnorm :: "Point \<Rightarrow> real" where
  "pnorm p = sqrt (squaredNorm p)"

definition normalized :: "Point \<Rightarrow> Point" where
  "normalized p = (if squaredNorm p > 0 then pscale (1 / pnorm p) p else p)"

fun perp :: "Point \<Rightarrow> Point" where
  "perp (a, b) = (- b, a)"

section \<open>Lines\<close>

definition DistToLine :: "Point \<Rightarrow> Point \<Rightarrow> Point \<Rightarrow> real" where
  "DistToLine l0 l1 pt = pdot (normalized (snd l0 - snd l1, fst l1 - fst l0)) (psub pt l0)"

definition ProjectsToLine :: "Point \<Rightarrow> Point \<Rightarrow> Point \<Rightarrow> bool" where
  "ProjectsToLine l0 l1 pt =
     (let line = psub l1 l0; d = pdot line (psub pt l0) in d > 0 \<and> d < squaredNorm line)"

definition ProjectsToRay :: "Point \<Rightarrow> Point \<Rightarrow> Point \<Rightarrow> bool" where
  "ProjectsToRay l0 l1 pt = (pdot (psub l1 l0) (psub pt l0) > 0)"

section \<open>Polygons\<close>

definition ValidatePoints :: "Point list \<Rightarrow> bool" where
  "ValidatePoints pts =
     (let N = length pts
      in N \<ge> 2 \<and> list_all (\<lambda>ii. \<not> DistToLine (pts ! ii) (pts ! ((ii + 1) mod N)) (pts ! ((ii + 2) mod N)) < 0) [0..<N])"

text \<open>The constructor stops the process for points that are not valid.\<close>

definition Polygon_new :: "Point list \<Rightarrow> Point list res" where
  "Polygon_new pts = (if ValidatePoints pts then Inr pts else Inl Fatal)"

text \<open>The search for the nearest vertex; \<open>None\<close> is the infinite distance it starts from.\<close>

fun nearest_loop :: "Point \<Rightarrow> Point list \<Rightarrow> nat \<Rightarrow> real option \<Rightarrow> nat \<Rightarrow> real option \<times> nat" where
  "nearest_loop pt [] ii mindist minvertex = (mindist, minvertex)"
| "nearest_loop pt (p # ps) ii mindist minvertex =
     (let dist = pnorm (psub pt p)
      in if (case mindist of None \<Rightarrow> True | Some d \<Rightarrow> dist < d)
         then nearest_loop pt ps (Suc ii) (Some dist) ii
         else nearest_loop pt ps (Suc ii) mindist minvertex)"

text \<open>
  The predecessor of a vertex is computed on unsigned 64-bit numbers, where \<open>0 - 1\<close> is \<open>2 ^ 64 - 1\<close>.
\<close>

definition pred_index :: "nat \<Rightarrow> nat \<Rightarrow> nat" where
  "pred_index N i = (if i = 0 then (2 ^ 64 - 1) mod N else (i - 1) mod N)"

definition DistToPoint :: "Point list \<Rightarrow> Point \<Rightarrow> real res" where
  "DistToPoint pts pt =
     (case nearest_loop pt pts 0 None 0 of
        (None, _) \<Rightarrow> Inl OutOfBounds
      | (Some mindist, minvertex) \<Rightarrow>
          (let N = length pts;
               prept = pts ! pred_index N minvertex;
               postpt = pts ! ((minvertex + 1) mod N);
               minpt = pts ! minvertex;
               d0 = - DistToLine prept minpt pt;
               d1 = - DistToLine minpt postpt pt;
               d0proj = ProjectsToLine prept minpt pt;
               d1proj = ProjectsToLine minpt postpt pt
           in Inr (if d0 < 0 \<and> d1 < 0 then min d0 d1
                   else if d1proj \<and> d1 \<ge> 0 then d1
                   else if d0proj \<and> d0 \<ge> 0 then d0
                   else mindist)))"

section \<open>Distances\<close>

lemma squaredNorm_ge_0 [simp]: "0 \<le> squaredNorm p"
  by (cases p) (simp add: squaredNorm_def)

lemma pnorm_ge_0 [simp]: "0 \<le> pnorm p"
  by (simp add: pnorm_def)

lemma pnorm_squared: "pnorm p * pnorm p = squaredNorm p"
  by (simp add: pnorm_def)

lemma squaredNorm_eq_0 [simp]: "squaredNorm p = 0 \<longleftrightarrow> p = (0, 0)"
  by (cases p) (simp add: squaredNorm_def sum_squares_eq_zero_iff)

text \<open>The square of a dot product and of the dot product with the perpendicular vector.\<close>

lemma lagrange: "pdot u v * pdot u v + pdot (perp u) v * pdot (perp u) v = squaredNorm u * squaredNorm v"
  by (cases u; cases v) (simp add: squaredNorm_def algebra_simps)

lemma pnorm_pscale [simp]: "pnorm (pscale k v) = \<bar>k\<bar> * pnorm v"
proof (cases v)
  case (Pair a b)
  have "k * a * (k * a) + k * b * (k * b) = k\<^sup>2 * (a * a + b * b)" by (simp add: power2_eq_square algebra_simps)
  then show ?thesis by (simp add: Pair pnorm_def squaredNorm_def real_sqrt_mult)
qed

lemma DistToLine_perp: "DistToLine l0 l1 pt = pdot (normalized (perp (psub l1 l0))) (psub pt l0)"
  by (cases l0; cases l1) (simp add: DistToLine_def)

lemma squaredNorm_perp [simp]: "squaredNorm (perp u) = squaredNorm u"
  by (cases u) (simp add: squaredNorm_def)

lemma pnorm_perp [simp]: "pnorm (perp v) = pnorm v"
  by (simp add: pnorm_def)

lemma pdot_pscale [simp]: "pdot (pscale k u) v = k * pdot u v"
  by (cases u; cases v) (simp add: algebra_simps)

lemma pdot_zero [simp]: "pdot (0, 0) v = 0"
  by (cases v) simp

text \<open>The signed distance times the length of the line.\<close>

lemma DistToLine_times_length: "DistToLine l0 l1 pt * pnorm (psub l1 l0) = pdot (perp (psub l1 l0)) (psub pt l0)"
proof (cases "squaredNorm (psub l1 l0) > 0")
  case True
  then have "pnorm (psub l1 l0) > 0" by (simp add: pnorm_def)
  then show ?thesis using True by (simp add: DistToLine_perp normalized_def pnorm_def)
next
  case False
  then have "squaredNorm (psub l1 l0) = 0" using squaredNorm_ge_0 [of "psub l1 l0"] by linarith
  then show ?thesis by (simp add: pnorm_def)
qed

lemma DistToLine_squared:
  "DistToLine l0 l1 pt * DistToLine l0 l1 pt * squaredNorm (psub l1 l0) =
     squaredNorm (psub l1 l0) * squaredNorm (psub pt l0) - pdot (psub l1 l0) (psub pt l0) * pdot (psub l1 l0) (psub pt l0)"
proof -
  define n where "n = pnorm (psub l1 l0)"
  define D where "D = DistToLine l0 l1 pt"
  have D: "D * n = pdot (perp (psub l1 l0)) (psub pt l0)"
    using DistToLine_times_length by (simp add: n_def D_def)
  have "D * D * squaredNorm (psub l1 l0) = (D * n) * (D * n)" by (simp add: n_def flip: pnorm_squared)
  then show ?thesis
    unfolding D using lagrange [of "psub l1 l0" "psub pt l0"] by (simp add: D_def)
qed

lemma DistToLine_swap: "DistToLine l1 l0 pt = - DistToLine l0 l1 pt"
proof (cases "l0 = l1")
  case True
  then show ?thesis by (cases l1; cases pt) (simp add: DistToLine_def normalized_def squaredNorm_def)
next
  case False
  define n where "n = pnorm (psub l1 l0)"
  have "psub l1 l0 \<noteq> (0, 0)" using False by (cases l0; cases l1) auto
  then have n: "n \<noteq> 0" by (simp add: n_def pnorm_def)
  have sym: "pnorm (psub l0 l1) = n"
    by (cases l0; cases l1) (simp add: n_def pnorm_def squaredNorm_def algebra_simps)
  have "DistToLine l1 l0 pt * n = (- DistToLine l0 l1 pt) * n"
    using DistToLine_times_length [of l1 l0 pt] DistToLine_times_length [of l0 l1 pt] unfolding sym n_def
    by (cases l0; cases l1; cases pt) (simp add: algebra_simps)
  with n show ?thesis by (simp only: mult_cancel_right) simp
qed

lemma abs_le_pnorm: "d * d \<le> squaredNorm v \<Longrightarrow> \<bar>d\<bar> \<le> pnorm v"
  by (simp add: pnorm_def real_le_rsqrt power2_eq_square)

lemma DistToLine_le: "\<bar>DistToLine l0 l1 pt\<bar> \<le> pnorm (psub pt l0)"
proof (cases "squaredNorm (psub l1 l0) = 0")
  case True
  then have "DistToLine l0 l1 pt = 0"
    by (cases l0; cases l1; cases pt) (simp add: DistToLine_def normalized_def squaredNorm_def)
  then show ?thesis by simp
next
  case False
  define L where "L = squaredNorm (psub l1 l0)"
  define D where "D = DistToLine l0 l1 pt"
  have L: "L > 0" using False squaredNorm_ge_0 [of "psub l1 l0"] unfolding L_def by linarith
  have "D * D * L \<le> L * squaredNorm (psub pt l0)"
    using DistToLine_squared [of l0 l1 pt] by (simp add: L_def D_def)
  with L have "D * D \<le> squaredNorm (psub pt l0)" by (simp add: mult.commute [of L])
  then show ?thesis by (simp add: abs_le_pnorm D_def)
qed

lemma DistToLine_sign:
  assumes "l0 \<noteq> l1"
  shows "DistToLine l0 l1 pt < 0 \<longleftrightarrow> pdot (perp (psub l1 l0)) (psub pt l0) < 0"
    and "DistToLine l0 l1 pt > 0 \<longleftrightarrow> pdot (perp (psub l1 l0)) (psub pt l0) > 0"
proof -
  have "psub l1 l0 \<noteq> (0, 0)" using assms by (cases l0; cases l1) auto
  then have "0 < squaredNorm (psub l1 l0)" using squaredNorm_ge_0 [of "psub l1 l0"] by (simp add: less_le)
  then have "0 < pnorm (psub l1 l0)" by (simp add: pnorm_def)
  then show "DistToLine l0 l1 pt < 0 \<longleftrightarrow> pdot (perp (psub l1 l0)) (psub pt l0) < 0"
    "DistToLine l0 l1 pt > 0 \<longleftrightarrow> pdot (perp (psub l1 l0)) (psub pt l0) > 0"
    unfolding DistToLine_times_length [symmetric] by (simp_all add: mult_less_0_iff zero_less_mult_iff)
qed

text \<open>The nearest vertex.\<close>

lemma nearest_loop_spec:
  assumes "nearest_loop pt ps (length qs) md k = (md', k')"
    and "case md of None \<Rightarrow> qs = [] | Some d \<Rightarrow> k < length qs \<and> d = pnorm (psub pt (qs ! k)) \<and> (\<forall>q\<in>set qs. d \<le> pnorm (psub pt q))"
  shows "case md' of None \<Rightarrow> qs @ ps = [] | Some d \<Rightarrow> k' < length (qs @ ps) \<and> d = pnorm (psub pt ((qs @ ps) ! k')) \<and>
    (\<forall>q\<in>set (qs @ ps). d \<le> pnorm (psub pt q))"
  using assms
proof (induction ps arbitrary: qs md k)
  case (Cons p ps)
  show ?case
  proof (cases "case md of None \<Rightarrow> True | Some d \<Rightarrow> pnorm (psub pt p) < d")
    case True
    then have loop: "nearest_loop pt ps (length (qs @ [p])) (Some (pnorm (psub pt p))) (length qs) = (md', k')"
      using Cons.prems(1) by (simp split: option.splits)
    have "\<forall>q\<in>set qs. pnorm (psub pt p) \<le> pnorm (psub pt q)"
      using True Cons.prems(2) by (cases md) (auto intro: less_imp_le order.strict_trans2)
    then show ?thesis using Cons.IH [OF loop] by (cases md') auto
  next
    case False
    then obtain d where d: "md = Some d" "d \<le> pnorm (psub pt p)" by (cases md) auto
    then have loop: "nearest_loop pt ps (length (qs @ [p])) (Some d) k = (md', k')"
      using Cons.prems(1) by (simp add: not_less [symmetric])
    show ?thesis
      using Cons.IH [OF loop] Cons.prems(2) d by (cases md') (auto simp: nth_append)
  qed
next
  case Nil
  then show ?case by (cases md') auto
qed

lemma nearest_vertex:
  assumes "pts \<noteq> []"
  obtains d k where "nearest_loop pt pts 0 None 0 = (Some d, k)" "k < length pts" "d = pnorm (psub pt (pts ! k))"
    "\<forall>q\<in>set pts. d \<le> pnorm (psub pt q)"
proof -
  obtain md k where "nearest_loop pt pts (length ([] :: Point list)) None 0 = (md, k)" by fastforce
  from nearest_loop_spec [OF this] this assms that show thesis by (cases md) auto
qed

section \<open>Segments\<close>

text \<open>The distance from \<open>m + t u\<close>, for the vector \<open>v\<close> from \<open>m\<close> to the point.\<close>

definition on_segment :: "Point \<Rightarrow> Point \<Rightarrow> real \<Rightarrow> Point" where
  "on_segment a b t = padd a (pscale t (psub b a))"

lemma dist_on_segment:
  "squaredNorm (psub pt (on_segment a b t)) =
     squaredNorm (psub pt a) - 2 * t * pdot (psub b a) (psub pt a) + t * t * squaredNorm (psub b a)"
  by (cases pt; cases a; cases b) (simp add: on_segment_def squaredNorm_def algebra_simps)

lemma on_segment_swap: "on_segment a b t = on_segment b a (1 - t)"
  by (cases a; cases b) (simp add: on_segment_def algebra_simps)

lemma pnorm_le_iff: "pnorm u \<le> pnorm v \<longleftrightarrow> squaredNorm u \<le> squaredNorm v"
  by (simp add: pnorm_def)

text \<open>The distance to a segment, measured from its nearer end.\<close>

lemma segment_distance:
  assumes near: "pnorm (psub pt m) \<le> pnorm (psub pt q)" and ne: "m \<noteq> q"
  defines "r \<equiv> if ProjectsToLine m q pt then \<bar>DistToLine m q pt\<bar> else pnorm (psub pt m)"
  shows "(\<forall>t. 0 \<le> t \<and> t \<le> 1 \<longrightarrow> r \<le> pnorm (psub pt (on_segment m q t))) \<and>
    (\<exists>t. 0 \<le> t \<and> t \<le> 1 \<and> r = pnorm (psub pt (on_segment m q t)))"
proof -
  define L where "L = squaredNorm (psub q m)"
  define c where "c = pdot (psub q m) (psub pt m)"
  define V where "V = squaredNorm (psub pt m)"
  have "psub q m \<noteq> (0, 0)" using ne by (cases m; cases q) auto
  then have L: "L > 0" using squaredNorm_ge_0 [of "psub q m"] by (simp add: L_def less_le)
  have at: "squaredNorm (psub pt (on_segment m q t)) = V - 2 * t * c + t * t * L" for t
    by (simp add: dist_on_segment L_def c_def V_def)
  show ?thesis
  proof (cases "ProjectsToLine m q pt")
    case True
    then have c: "0 < c" "c < L" by (simp_all add: ProjectsToLine_def Let_def c_def L_def)
    define D where "D = DistToLine m q pt"
    have "D * D * L = L * V - c * c" using DistToLine_squared [of m q pt] by (simp add: D_def L_def c_def V_def)
    then have D: "D * D = V - c * c / L" using L by (simp add: field_simps)
    have sq: "V - 2 * t * c + t * t * L = D * D + (t - c / L) * (t - c / L) * L" for t
      using L by (simp add: D field_simps)
    have r: "r = \<bar>D\<bar>" using True by (simp add: r_def D_def)
    have "r \<le> pnorm (psub pt (on_segment m q t))" for t
      unfolding r by (rule abs_le_pnorm) (use L in \<open>simp add: at sq\<close>)
    moreover have "r = pnorm (psub pt (on_segment m q (c / L)))"
      unfolding r pnorm_def at sq by simp
    ultimately show ?thesis using c L by (intro conjI allI impI exI [of _ "c / L"]) auto
  next
    case False
    have r: "r = pnorm (psub pt m)" using False by (simp add: r_def)
    have start: "on_segment m q 0 = m" by (cases m; cases q) (simp add: on_segment_def)
    have fin: "on_segment m q 1 = q" by (cases m; cases q) (simp add: on_segment_def)
    have "2 * c \<le> L" using near at [of 1] by (simp add: pnorm_le_iff fin V_def)
    then have c: "c \<le> 0" using False L by (auto simp: ProjectsToLine_def Let_def c_def L_def)
    have "r \<le> pnorm (psub pt (on_segment m q t))" if "0 \<le> t" for t
    proof -
      have "t * c \<le> 0" "0 \<le> t * t * L" using that c L by (simp_all add: mult_nonneg_nonpos)
      then have "V \<le> V - 2 * t * c + t * t * L" by simp
      then show ?thesis unfolding r pnorm_le_iff at by (simp add: V_def)
    qed
    then show ?thesis using start r by (auto intro: exI [of _ 0])
  qed
qed

lemma ProjectsToLine_swap: "ProjectsToLine a b pt = ProjectsToLine b a pt"
proof -
  have "pdot (psub a b) (psub pt b) = squaredNorm (psub b a) - pdot (psub b a) (psub pt a)"
    "squaredNorm (psub a b) = squaredNorm (psub b a)"
    by (cases a; cases b; cases pt; simp add: squaredNorm_def algebra_simps)+
  then show ?thesis by (auto simp: ProjectsToLine_def Let_def)
qed

section \<open>Properties\<close>

text \<open>
  For an obstacle that is a line between two points, \<^verbatim>\<open>DistToPoint\<close> is the distance to the
  segment: no point of the segment is nearer, and some point of it is that near.
\<close>

theorem line_obstacle_distance:
  assumes "a \<noteq> b"
  shows "\<exists>r. DistToPoint [a, b] pt = Inr r \<and>
    (\<forall>t. 0 \<le> t \<and> t \<le> 1 \<longrightarrow> r \<le> pnorm (psub pt (on_segment a b t))) \<and>
    (\<exists>t. 0 \<le> t \<and> t \<le> 1 \<and> r = pnorm (psub pt (on_segment a b t)))"
proof -
  obtain d k where k: "nearest_loop pt [a, b] 0 None 0 = (Some d, k)" "k < length [a, b]"
    "d = pnorm (psub pt ([a, b] ! k))" "\<forall>q\<in>set [a, b]. d \<le> pnorm (psub pt q)"
    by (rule nearest_vertex [of "[a, b]" pt]) simp
  define m where "m = [a, b] ! k"
  define q where "q = (if k = 0 then b else a)"
  have k01: "k = 0 \<or> k = 1" using k(2) by auto
  have mq: "m \<noteq> q" "pnorm (psub pt m) \<le> pnorm (psub pt q)"
    using k01 assms k(3, 4) by (auto simp: m_def q_def)
  define r where "r = (if ProjectsToLine m q pt then \<bar>DistToLine m q pt\<bar> else pnorm (psub pt m))"
  have "[a, b] ! pred_index 2 k = q" "[a, b] ! ((k + 1) mod 2) = q"
    using k01 by (auto simp: pred_index_def q_def)
  then have "DistToPoint [a, b] pt = Inr r"
    using DistToLine_swap [of q m pt] ProjectsToLine_swap [of q m pt] k(1, 3)
    by (auto simp: DistToPoint_def Let_def r_def numeral_2_eq_2 simp flip: m_def)
  moreover have "(\<forall>t. 0 \<le> t \<and> t \<le> 1 \<longrightarrow> r \<le> pnorm (psub pt (on_segment a b t))) \<and>
      (\<exists>t. 0 \<le> t \<and> t \<le> 1 \<and> r = pnorm (psub pt (on_segment a b t)))"
  proof (cases "k = 0")
    case True
    then show ?thesis using segment_distance [OF mq(2, 1)] by (simp add: m_def q_def r_def)
  next
    case False
    then have ba: "m = b" "q = a" using k01 by (simp_all add: m_def q_def)
    note seg = segment_distance [OF mq(2, 1), folded r_def, unfolded ba]
    have "r \<le> pnorm (psub pt (on_segment a b t))" if "0 \<le> t" "t \<le> 1" for t
      using seg that on_segment_swap [of a b t] by simp
    moreover obtain t where "0 \<le> t" "t \<le> 1" "r = pnorm (psub pt (on_segment b a t))" using seg by blast
    ultimately show ?thesis
      using on_segment_swap [of b a] by (intro conjI allI impI exI [of _ "1 - t"]) auto
  qed
  ultimately show ?thesis by blast
qed

theorem line_obstacle_distance_witness:
  "\<exists>r. DistToPoint [(0, 0), (4, 0)] (1, 3) = Inr r \<and>
    (\<forall>t. 0 \<le> t \<and> t \<le> 1 \<longrightarrow> r \<le> pnorm (psub (1, 3) (on_segment (0, 0) (4, 0) t))) \<and>
    (\<exists>t. 0 \<le> t \<and> t \<le> 1 \<and> r = pnorm (psub (1, 3) (on_segment (0, 0) (4, 0) t)))"
  by (rule line_obstacle_distance) simp

text \<open>
  \<^verbatim>\<open>DistToPoint\<close> never says more than the distance to the nearest vertex, for whatever list of
  points, so an obstacle is never taken to be further away than its vertices are.
\<close>

theorem dist_to_point_at_most_vertex:
  assumes "pts \<noteq> []"
  shows "\<exists>r. DistToPoint pts pt = Inr r \<and> (\<forall>p\<in>set pts. r \<le> pnorm (psub pt p))"
proof -
  obtain d k where k: "nearest_loop pt pts 0 None 0 = (Some d, k)" "k < length pts"
    "d = pnorm (psub pt (pts ! k))" "\<forall>q\<in>set pts. d \<le> pnorm (psub pt q)"
    by (rule nearest_vertex [OF assms])
  have to: "- DistToLine (pts ! k) p pt \<le> d" "- DistToLine p (pts ! k) pt \<le> d" for p
    using DistToLine_le [of "pts ! k" p pt] DistToLine_swap [of p "pts ! k" pt] k(3) by linarith+
  have "\<exists>r. DistToPoint pts pt = Inr r \<and> r \<le> d"
    using to by (simp add: DistToPoint_def Let_def k(1) min_le_iff_disj)
  then show ?thesis using k(4) by fastforce
qed

theorem dist_to_point_at_most_vertex_witness:
  "\<exists>r. DistToPoint [(0, 0), (4, 0), (0, 4)] (9, 9) = Inr r \<and> (\<forall>p\<in>set [(0, 0), (4, 0), (0, 4)]. r \<le> pnorm (psub (9, 9) p))"
  by (rule dist_to_point_at_most_vertex) simp

text \<open>
  The predecessor of the first vertex is the last one only if the number of vertices divides
  \<open>2 ^ 64\<close>.  In a triangle it is the first vertex itself, and a point inside, near that vertex,
  is reported at a positive distance, as if it were outside.
\<close>

theorem point_inside_triangle_reported_outside:
  "ValidatePoints [(0, 0), (4, 0), (0, 4)] \<and>
   DistToLine (0, 0) (4, 0) (1, 1) > 0 \<and> DistToLine (4, 0) (0, 4) (1, 1) > 0 \<and> DistToLine (0, 4) (0, 0) (1, 1) > 0 \<and>
   DistToPoint [(0, 0), (4, 0), (0, 4)] (1, 1) = Inr (sqrt 2)"
proof -
  have pos: "DistToLine (0, 0) (4, 0) (1, 1) > 0" "DistToLine (0, 4) (0, 0) (1, 1) > 0" "DistToLine (4, 0) (0, 4) (1, 1) > 0"
    by (simp_all add: DistToLine_sign)
  have near: "nearest_loop (1, 1) [(0, 0), (4, 0), (0, 4)] 0 None 0 = (Some (sqrt 2), 0)"
    by (simp add: pnorm_def squaredNorm_def)
  have self: "DistToLine (0, 0) (0, 0) (1, 1) = 0" "\<not> ProjectsToLine (0, 0) (0, 0) (1, 1)"
    by (simp_all add: DistToLine_def normalized_def squaredNorm_def ProjectsToLine_def)
  have idx: "pred_index (Suc (Suc (Suc 0))) 0 = 0" by (simp add: pred_index_def)
  have "\<not> DistToLine (0, 0) (4, 0) (0, 4) < 0" "\<not> DistToLine (4, 0) (0, 4) (0, 0) < 0" "\<not> DistToLine (0, 4) (0, 0) (4, 0) < 0"
    by (simp_all add: DistToLine_sign)
  then have "ValidatePoints [(0, 0), (4, 0), (0, 4)]"
    by (simp add: ValidatePoints_def upt_rec)
  moreover have "DistToPoint [(0, 0), (4, 0), (0, 4)] (1, 1) = Inr (sqrt 2)"
    unfolding DistToPoint_def near using pos(1) self idx by simp
  ultimately show ?thesis using pos by blast
qed

end
