(* ===== verification/Line_Plan.thy ===== *)
theory Line_Plan
  imports Polygon Control_Msgs
begin

text \<open>
  The line planner's path search (\<^verbatim>\<open>control/line_plan.cc\<close>): the costs of turns, straight lines,
  obstacles and the crossing of a gate, with their derivatives, gradient descent on the turning
  points, and the choice among the hypotheses.  A turning point that a division by zero makes
  not a number is \<open>None\<close>.
\<close>

section \<open>Constants\<close>

definition kTackCost :: real where "kTackCost = 5"
definition kTurnCost :: real where "kTurnCost = 3 / 10"
definition kUpwindCost :: real where "kUpwindCost = 300"
definition kUpwindApproxCost :: real where "kUpwindApproxCost = 0 * 2"
definition kSailableReach :: real where "kSailableReach = pi / 6"
definition kObstacleCost :: real where "kObstacleCost = 100"
definition kLengthCost :: real where "kLengthCost = 1"
definition kGateWidth :: real where "kGateWidth = 20"
definition kPreTurnScale :: real where "kPreTurnScale = 200"
definition kMaxTotalpts :: nat where "kMaxTotalpts = 6"
definition kMaxLegs :: nat where "kMaxLegs = 1"
definition kAlphaCrossCost :: real where "kAlphaCrossCost = 5"

type_synonym gate = "Point \<times> Point"

section \<open>Costs\<close>

text \<open>Cost and derivative of crossing a gate at \<open>alpha\<close>.\<close>

definition CrossFinishCost :: "real \<Rightarrow> real \<times> real" where
  "CrossFinishCost alpha =
     (let a = max (1 / 10) alpha; base_cost = kAlphaCrossCost * exp a / sqrt a
      in (base_cost, base_cost * (1 - (1 / 2) / a)))"

text \<open>Cost of a turn and its derivatives by the first and the second heading.\<close>

definition TurnCost :: "real \<Rightarrow> real \<Rightarrow> real \<Rightarrow> real \<times> real \<times> real" where
  "TurnCost startheading endheading winddir =
     (let nogosize = pi / 4;
          plusnogoabs = norm_angle (pi + winddir + nogosize);
          negnogoabs = norm_angle (pi + winddir - nogosize);
          endnorm0 = norm_angle (endheading - startheading);
          plus0 = norm_angle (plusnogoabs - startheading);
          neg0 = norm_angle (negnogoabs - startheading);
          flip = (endnorm0 < 0);
          endnorm = (if flip then - endnorm0 else endnorm0);
          plusnogonorm = (if flip then - neg0 else plus0);
          negnogonorm = (if flip then - plus0 else neg0);
          sign = (if flip then -1 else 1)
      in if (plusnogonorm < 0 \<and> negnogonorm < 0) \<or> negnogonorm > endnorm
         then (kTurnCost * endnorm * endnorm, -2 * kTurnCost * sign * endnorm, 2 * kTurnCost * sign * endnorm)
         else let clipstart = (negnogonorm < 0);
                  startnogo = (if clipstart then 0 else negnogonorm);
                  clipend = (plusnogonorm > endnorm \<or> plusnogonorm < 0);
                  endnogo = (if clipend then endnorm else plusnogonorm);
                  nogodist = endnogo - startnogo;
                  costbase = endnorm + (kTackCost - 1) * nogodist
              in (kTurnCost * costbase * costbase,
                  -2 * kTurnCost * sign * (if clipstart then kTackCost else 1) * costbase,
                  2 * kTurnCost * sign * (if clipend then kTackCost else 1) * costbase))"

text \<open>Cost of a straight line, its derivatives by length and heading, and whether it can be sailed.\<close>

definition StraightLineCost :: "real \<Rightarrow> real \<Rightarrow> real \<Rightarrow> bool \<Rightarrow> real \<times> real \<times> real \<times> bool" where
  "StraightLineCost len hdg winddir is_real =
     (let headingnorm = norm_angle (winddir + pi - hdg);
          upwindness0 = \<bar>headingnorm\<bar>;
          kUp = (if is_real then kUpwindCost else kUpwindApproxCost);
          viable = (upwindness0 > kSailableReach);
          kMaxUpwindness = 9 / 10;
          upwindness = Clip upwindness0 0 kMaxUpwindness;
          upwindexp = exp (10 * (upwindness - pi / 6));
          dupwindexpdheading = -10 * upwindexp * of_int (Sign headingnorm);
          upwindscalar = kUp / (1 + upwindexp);
          dupwindscalardheading = - upwindscalar / (1 + upwindexp) * dupwindexpdheading
      in (upwindscalar * kLengthCost * len, upwindscalar * kLengthCost,
          if upwindness = kMaxUpwindness \<or> upwindness = 0 then 0 else kLengthCost * len * dupwindscalardheading,
          viable))"

text \<open>Cost of the obstacles along a segment, from the midpoints of ten pieces.\<close>

fun sum_res :: "real res list \<Rightarrow> real res" where
  "sum_res [] = Inr 0"
| "sum_res (r # rs) = bindr r (\<lambda>x. bindr (sum_res rs) (\<lambda>y. Inr (x + y)))"

definition obstacle_value :: "Point \<Rightarrow> Point \<Rightarrow> Point list list \<Rightarrow> real res" where
  "obstacle_value start fin obstacles =
     (let dx = pnorm (psub start fin) / 10
      in sum_res (concat (map (\<lambda>ii.
           let alpha = (real ii + 1 / 2) / 10; evalpt = padd start (pscale alpha (psub fin start))
           in map (\<lambda>ob. bindr (DistToPoint ob evalpt) (\<lambda>dist.
                     let diff = max 0 (10 - dist) / 10 in Inr (kObstacleCost * diff * diff * dx))) obstacles) [0..<10])))"

text \<open>The derivative by the start is taken numerically.\<close>

definition ObstacleCost :: "Point \<Rightarrow> Point \<Rightarrow> Point list list \<Rightarrow> (real \<times> Point) res" where
  "ObstacleCost start fin obstacles =
     (let eps = 1 / 10 ^ 5
      in bindr (obstacle_value start fin obstacles) (\<lambda>cost.
         bindr (obstacle_value (padd start (eps, 0)) fin obstacles) (\<lambda>cx.
         bindr (obstacle_value (padd start (0, eps)) fin obstacles) (\<lambda>cy.
           Inr (cost, ((cx - cost) / eps, (cy - cost) / eps))))))"

text \<open>
  The path that ends at a gate.  When it has no length the derivative of its heading is not a
  number and the derivative of the whole cost is set to zero.
\<close>

definition datan :: "Point \<Rightarrow> Point \<Rightarrow> real" where
  "datan x dxda = pdot (pscale (1 / squaredNorm x) (perp x)) dxda"

definition dnorm :: "Point \<Rightarrow> Point \<Rightarrow> real" where
  "dnorm x dxda = pdot (normalized x) dxda"

definition SingleLineCost_base ::
    "Point \<Rightarrow> Point \<Rightarrow> Point \<Rightarrow> real \<Rightarrow> real \<Rightarrow> Point \<Rightarrow> real \<Rightarrow> real \<times> real \<times> bool" where
  "SingleLineCost_base startline endline startpt alpha preheading nextpt winddir =
     (let endpt = padd startline (pscale alpha (psub endline startline));
          dendda = psub endline startline;
          firstleg = psub endpt startpt;
          nextleg = psub nextpt endpt;
          dnextlegda = pscale (-1) dendda;
          startheading = atan2_vec firstleg;
          dstarthda = datan firstleg dendda;
          short = (squaredNorm nextleg < 1 / 10 ^ 8);
          nextheading = (if short then startheading else atan2_vec nextleg);
          dnexthda = (if short then dstarthda else datan nextleg dnextlegda);
          dfirstlenda = dnorm firstleg dendda;
          dnextlenda = dnorm nextleg dnextlegda;
          (firstlencost, dflencostdlen, dflencostdheading, viable) = StraightLineCost (pnorm firstleg) startheading winddir True;
          (nextlencost, dnlencostdlen, dnlencostdheading, _) = StraightLineCost (pnorm nextleg) nextheading winddir False;
          lencost = firstlencost + nextlencost;
          dlencostda = dflencostdlen * dfirstlenda + dflencostdheading * dstarthda +
                       dnlencostdlen * dnextlenda + dnlencostdheading * dnexthda;
          (preturncost, dpreturndstart, dpreturndend) = TurnCost preheading startheading winddir;
          dpreturncostda = dpreturndend * dstarthda;
          (turncost, dturndstart, dturndend) = TurnCost startheading nextheading winddir;
          dturncostda = dturndstart * dstarthda + dturndend * dnexthda;
          (crosscost, dcrossda) = CrossFinishCost alpha
      in (lencost + (turncost + preturncost) + crosscost,
          if firstleg = (0, 0) then 0 else dlencostda + (dturncostda + dpreturncostda) + dcrossda,
          viable))"

definition SingleLineCost ::
    "gate \<Rightarrow> Point \<Rightarrow> real \<Rightarrow> real \<Rightarrow> Point \<Rightarrow> real \<Rightarrow> Point list list \<Rightarrow> (real \<times> real \<times> bool) res" where
  "SingleLineCost gate startpt alpha preheading nextpt winddir obstacles =
     (let (startline, endline) = gate;
          (basecost, basedalpha, viable) = SingleLineCost_base startline endline startpt alpha preheading nextpt winddir;
          crosspt = padd startline (pscale alpha (psub endline startline));
          dcrossptdalpha = psub endline startline
      in bindr (ObstacleCost crosspt startpt obstacles) (\<lambda>(obstaclecost, obstacledend).
           Inr (basecost + obstaclecost, basedalpha + pdot obstacledend dcrossptdalpha, viable)))"

text \<open>
  Two lines that meet in a turning point.  When one of them has no length, the gradient has
  divisions of zero by zero: it is not a number, which is the value \<open>None\<close>.
\<close>

definition LinePairCost_base ::
    "Point \<Rightarrow> Point \<Rightarrow> Point \<Rightarrow> real \<Rightarrow> real \<Rightarrow> real \<Rightarrow> real \<Rightarrow> real \<times> Point option \<times> bool" where
  "LinePairCost_base startpt endpt turnpt preheading postheading winddir scale_pre_cost =
     (let sega = psub turnpt startpt; segb = psub endpt turnpt;
          lena = pnorm sega; dlena = pscale (1 / lena) sega;
          lenb = pnorm segb; dlenb = pscale (- 1 / lenb) segb;
          headinga = atan2_vec sega; dha = pscale (1 / squaredNorm sega) (perp sega);
          headingb = atan2_vec segb; dhb = pscale (- 1 / squaredNorm segb) (perp segb);
          (pre, _, pre_dend) = TurnCost preheading headinga winddir;
          (mid, mid_dstart, mid_dend) = TurnCost headinga headingb winddir;
          (post, post_dstart, _) = TurnCost headingb postheading winddir;
          (la, la_dlen, la_dh, la_ok) = StraightLineCost lena headinga winddir True;
          (lb, lb_dlen, lb_dh, lb_ok) = StraightLineCost lenb headingb winddir True;
          cost = pre * scale_pre_cost + mid + post + la + lb;
          grad = foldr padd [pscale (pre_dend * scale_pre_cost) dha, pscale mid_dstart dha, pscale mid_dend dhb,
                   pscale post_dstart dhb, pscale la_dlen dlena, pscale la_dh dha, pscale lb_dlen dlenb,
                   pscale lb_dh dhb] (0, 0)
      in (cost, if sega = (0, 0) \<or> segb = (0, 0) then None else Some grad, la_ok \<and> lb_ok))"

definition LinePairCost ::
    "Point \<Rightarrow> Point \<Rightarrow> Point \<Rightarrow> real \<Rightarrow> real \<Rightarrow> real \<Rightarrow> real \<Rightarrow> Point list list \<Rightarrow> (real \<times> Point option \<times> bool) res" where
  "LinePairCost startpt endpt turnpt preheading postheading winddir scale_pre_cost obstacles =
     (let (basecost, basegrad, viable) = LinePairCost_base startpt endpt turnpt preheading postheading winddir scale_pre_cost
      in bindr (ObstacleCost turnpt startpt obstacles) (\<lambda>(c1, g1).
         bindr (ObstacleCost turnpt endpt obstacles) (\<lambda>(c2, g2).
           Inr (basecost + c1 + c2, map_option (\<lambda>g. padd (padd g g1) g2) basegrad, viable))))"

section \<open>Gradient descent\<close>

definition gate_point :: "gate \<Rightarrow> real \<Rightarrow> Point" where
  "gate_point gate alpha = padd (fst gate) (pscale alpha (psub (snd gate) (fst gate)))"

text \<open>
  A point, a heading or a cost that is not a number is \<open>None\<close>.  What is computed from it is not
  a number either, and comparisons with it are false.
\<close>

type_synonym fpoint = "Point option"

definition heading_of :: "fpoint \<Rightarrow> fpoint \<Rightarrow> real option" where
  "heading_of p q = (case (p, q) of (Some a, Some b) \<Rightarrow> Some (atan2_vec (psub a b)) | _ \<Rightarrow> None)"

definition add_cost :: "real option \<Rightarrow> real option \<Rightarrow> real option" where
  "add_cost c d = (case (c, d) of (Some x, Some y) \<Rightarrow> Some (x + y) | _ \<Rightarrow> None)"

definition pair_cost :: "fpoint \<Rightarrow> fpoint \<Rightarrow> fpoint \<Rightarrow> real option \<Rightarrow> real option \<Rightarrow> real \<Rightarrow> real \<Rightarrow> Point list list \<Rightarrow>
    (real option \<times> Point option \<times> bool) res" where
  "pair_cost prept postpt curpt preheading postheading winddir scale_pre obstacles =
     (case (prept, postpt, curpt) of
        (Some p, Some q, Some t) \<Rightarrow>
          bindr (LinePairCost p q t (get_or 0 preheading) (get_or 0 postheading) winddir scale_pre obstacles) (\<lambda>(cost, grad, viable).
            Inr (if preheading = None \<or> postheading = None then (None, None, viable) else (Some cost, grad, viable)))
      | _ \<Rightarrow> Inr (None, None, False))"

text \<open>
  The loop over the turning points, from the last one back to the second; the first is the
  boat's position and stays.
\<close>

primrec back_loop :: "real \<Rightarrow> Point list list \<Rightarrow> real option \<Rightarrow> real \<Rightarrow> bool \<Rightarrow> nat \<Rightarrow> fpoint list \<Rightarrow> fpoint \<Rightarrow> real option \<Rightarrow>
    real option \<Rightarrow> bool \<Rightarrow> (fpoint list \<times> real option \<times> bool) res" where
  "back_loop winddir obstacles cur_yaw step prescale 0 tackpts postpt postheading finalcost viable =
     Inr (tackpts, finalcost, viable)"
| "back_loop winddir obstacles cur_yaw step prescale (Suc i) tackpts postpt postheading finalcost viable =
     (let prept = tackpts ! i;
          curpt = tackpts ! Suc i;
          preheading = (if i = 0 then cur_yaw else heading_of prept (tackpts ! (i - 1)));
          scale_pre = (if i = 0 \<and> prescale then kPreTurnScale else 1)
      in bindr (pair_cost prept postpt curpt preheading postheading winddir scale_pre obstacles) (\<lambda>(cost, dcostdpt, lineviable).
           let curpt' = (case (curpt, dcostdpt) of (Some p, Some g) \<Rightarrow> Some (psub p (pscale step g)) | _ \<Rightarrow> None)
           in back_loop winddir obstacles cur_yaw step prescale i (tackpts[Suc i := curpt']) curpt'
                (heading_of postpt curpt') (add_cost finalcost cost) (viable \<and> lineviable)))"

text \<open>
  The crossing of the gate.  When the last turning point, its heading or the point behind the gate is not a
  number, the cost is none.  A turning point that is not a number stays so, and with it the cost of all
  later passes: such a path is never chosen, so that what becomes of its proportion has no effect,
  and the proportion is left as it is.
\<close>

definition cross_cost :: "gate \<Rightarrow> fpoint \<Rightarrow> real \<Rightarrow> real option \<Rightarrow> fpoint \<Rightarrow> real \<Rightarrow> Point list list \<Rightarrow>
    (real option \<times> real \<times> bool) res" where
  "cross_cost gate lastpt alpha preheading nextpt winddir obstacles =
     (case lastpt of
        Some p \<Rightarrow> bindr (SingleLineCost gate p alpha (get_or 0 preheading) (get_or (0, 0) nextpt) winddir obstacles) (\<lambda>(cost, dcostdalpha, viable).
          Inr (if preheading = None \<or> nextpt = None then (None, 0, viable) else (Some cost, dcostdalpha, viable)))
      | None \<Rightarrow> Inr (None, 0, False))"

definition BackPass :: "gate \<Rightarrow> fpoint \<Rightarrow> real \<Rightarrow> Point list list \<Rightarrow> real option \<Rightarrow> real \<Rightarrow> bool \<Rightarrow> fpoint list \<Rightarrow> real \<Rightarrow>
    (fpoint list \<times> real \<times> real option \<times> bool) res" where
  "BackPass gate nextpt winddir obstacles cur_yaw step prescale tackpts alpha =
     (if tackpts = [] then Inl Fatal
      else let Npts = length tackpts;
               lastpt = tackpts ! (Npts - 1);
               penultimate_heading = (if Npts > 1 then heading_of lastpt (tackpts ! (Npts - 2)) else cur_yaw)
           in bindr (cross_cost gate lastpt alpha penultimate_heading nextpt winddir obstacles) (\<lambda>(cost, dcostdalpha, lineviable).
                let alpha' = Clip (alpha - step * dcostdalpha) (1 / 10) 1;
                    postpt = Some (gate_point gate alpha')
                in bindr (back_loop winddir obstacles cur_yaw step prescale (Npts - 1) tackpts postpt
                            (heading_of postpt lastpt) cost lineviable) (\<lambda>(pts, finalcost, viable).
                     Inr (pts, alpha', finalcost, viable))))"

text \<open>
  One leg of one iteration: later legs start at a point of their own gate, with the previous
  leg's proportion.  The condition under which a leg's viability counts is never true.
\<close>

definition optimize_leg :: "gate list \<Rightarrow> Point \<Rightarrow> real \<Rightarrow> Point list list \<Rightarrow> real \<Rightarrow> real \<Rightarrow> nat \<Rightarrow>
    fpoint list list \<times> real list \<times> real option \<Rightarrow> (fpoint list list \<times> real list \<times> real option) res" where
  "optimize_leg gates nextpt winddir obstacles cur_yaw step jj = (\<lambda>(tacks, alphas, finalcost).
     let gate = gates ! jj;
         npt = (if jj = length tacks - 1 then Some nextpt else (tacks ! (jj + 1)) ! 0);
         tacks' = (if jj > 0 then tacks[jj := (tacks ! jj)[0 := Some (gate_point gate (alphas ! (jj - 1)))]] else tacks);
         cyaw = (if jj > 0 then heading_of ((tacks' ! jj) ! 0) (last (tacks' ! (jj - 1))) else Some cur_yaw)
     in bindr (BackPass gate npt winddir obstacles cyaw step (jj = 0) (tacks' ! jj) (alphas ! jj)) (\<lambda>(pts, alpha, cost, viable).
          Inr (tacks'[jj := pts], alphas[jj := alpha], add_cost finalcost cost)))"

primrec optimize_legs :: "gate list \<Rightarrow> Point \<Rightarrow> real \<Rightarrow> Point list list \<Rightarrow> real \<Rightarrow> real \<Rightarrow> nat list \<Rightarrow>
    fpoint list list \<times> real list \<times> real option \<Rightarrow> (fpoint list list \<times> real list \<times> real option) res" where
  "optimize_legs gates nextpt winddir obstacles cur_yaw step [] st = Inr st"
| "optimize_legs gates nextpt winddir obstacles cur_yaw step (jj # js) st =
     bindr (optimize_leg gates nextpt winddir obstacles cur_yaw step jj st)
       (optimize_legs gates nextpt winddir obstacles cur_yaw step js)"

primrec optimize_iters :: "gate list \<Rightarrow> Point \<Rightarrow> real \<Rightarrow> Point list list \<Rightarrow> real \<Rightarrow> nat list \<Rightarrow>
    fpoint list list \<times> real list \<times> real option \<Rightarrow> (fpoint list list \<times> real list \<times> real option) res" where
  "optimize_iters gates nextpt winddir obstacles cur_yaw [] st = Inr st"
| "optimize_iters gates nextpt winddir obstacles cur_yaw (ii # is) st =
     (let step = (if ii > 20 then 3 / 1000 else 1 / 100); (tacks, alphas, _) = st
      in bindr (optimize_legs gates nextpt winddir obstacles cur_yaw step [0..<length tacks] (tacks, alphas, Some 0))
           (optimize_iters gates nextpt winddir obstacles cur_yaw is))"

definition OptimizeMultipleTacks :: "gate list \<Rightarrow> Point \<Rightarrow> real \<Rightarrow> Point list list \<Rightarrow> real \<Rightarrow> fpoint list list \<Rightarrow> real list \<Rightarrow>
    (fpoint list list \<times> real list \<times> real option \<times> bool) res" where
  "OptimizeMultipleTacks gates nextpt winddir obstacles cur_yaw tacks alphas =
     (if length tacks \<noteq> length alphas \<or> length tacks \<noteq> length gates \<or> [] \<in> set tacks then Inl Fatal
      else bindr (optimize_iters gates nextpt winddir obstacles cur_yaw [0..<50] (tacks, alphas, Some 0)) (\<lambda>(tacks', alphas', cost).
             Inr (tacks', alphas', cost, True)))"

text \<open>The version for one leg.\<close>

definition OptimizeTacks :: "gate \<Rightarrow> Point \<Rightarrow> real \<Rightarrow> Point list list \<Rightarrow> real \<Rightarrow> fpoint list \<Rightarrow> real \<Rightarrow>
    (fpoint list \<times> real \<times> real option \<times> bool) res" where
  "OptimizeTacks gate nextpt winddir obstacles cur_yaw tackpts alpha =
     bindr (OptimizeMultipleTacks [gate] nextpt winddir obstacles cur_yaw [tackpts] [alpha]) (\<lambda>(tacks, alphas, cost, viable).
     bindr (nth_checked tacks 0) (\<lambda>pts. bindr (nth_checked alphas 0) (\<lambda>a. Inr (pts, a, cost, viable))))"

section \<open>Hypotheses\<close>

definition straight_path :: "Point \<Rightarrow> Point \<Rightarrow> nat \<Rightarrow> Point list" where
  "straight_path startpt diff Npts =
     startpt # map (\<lambda>ii. padd startpt (pscale ((real ii + 1 / 2) / real Npts) diff)) [0..<Npts]"

definition tacking_path :: "Point \<Rightarrow> Point \<Rightarrow> nat \<Rightarrow> real \<Rightarrow> real \<Rightarrow> real \<Rightarrow> Point list" where
  "tacking_path startpt diff Npts londom lonrec latdist =
     startpt # map (\<lambda>ii.
       let dominantmult = 1 / 2 + of_int \<lfloor>real ii / 2\<rfloor>;
           recessivemult = of_int \<lfloor>(real ii + 1) / 2\<rfloor>;
           lon = londom * dominantmult + lonrec * recessivemult;
           latoffset = latdist * (if even ii then 1 else -1) / 2
       in padd (padd startpt (pscale lon diff)) (pscale latoffset (perp diff))) [0..<Npts]"

definition GenerateHypotheses :: "Point \<Rightarrow> Point \<Rightarrow> real \<Rightarrow> nat \<Rightarrow> Point list list" where
  "GenerateHypotheses startpt endpt winddir Npts =
     (if Npts = 0 then [[startpt]]
      else let kMinWind = 1;
               diff = psub endpt startpt;
               relwind = norm_angle (pi - winddir + atan2_vec diff)
           in [straight_path startpt diff Npts] @
              (if \<bar>relwind\<bar> < 1
               then let alpha = kMinWind * 2;
                        theta = kMinWind - relwind;
                        l = 2 / real Npts;
                        legdist = l * sin (alpha - theta) / sin alpha;
                        latdist = legdist * sin theta;
                        londist1 = legdist * cos theta;
                        londist2 = l - londist1
                    in [tacking_path startpt diff Npts londist1 londist2 latdist,
                        tacking_path startpt diff Npts londist2 londist1 (- latdist)]
               else []))"

text \<open>
  The hypotheses for all legs: those so far are extended with each new one, the first in place,
  the others as copies, as long as the number of points stays within its bound.
\<close>

type_synonym hypothesis = "Point list list \<times> nat"

definition extend_with :: "nat \<Rightarrow> nat list \<Rightarrow> nat \<Rightarrow> Point list \<Rightarrow> hypothesis list \<Rightarrow> hypothesis list" where
  "extend_with bound old_lens newhyp hypo hyps =
     fold (\<lambda>prev hs.
       if old_lens ! prev + length hypo > bound then hs
       else if newhyp = 0 then hs[prev := (fst (hs ! prev) @ [hypo], snd (hs ! prev) + length hypo)]
       else hs @ [(butlast (fst (hs ! prev)) @ [hypo], old_lens ! prev + length hypo)])
       [0..<length old_lens] hyps"

primrec extend_all :: "nat \<Rightarrow> nat list \<Rightarrow> nat \<Rightarrow> Point list list \<Rightarrow> hypothesis list \<Rightarrow> hypothesis list" where
  "extend_all bound old_lens newhyp [] hyps = hyps"
| "extend_all bound old_lens newhyp (hypo # hypos) hyps =
     extend_all bound old_lens (Suc newhyp) hypos
       (extend_with bound old_lens newhyp hypo hyps @ (if old_lens = [] then [([hypo], length hypo)] else []))"

definition midpoint :: "gate \<Rightarrow> Point" where
  "midpoint gate = pscale (1 / 2) (padd (fst gate) (snd gate))"

primrec all_hypotheses :: "Point \<Rightarrow> real \<Rightarrow> nat \<Rightarrow> nat \<Rightarrow> gate list \<Rightarrow> hypothesis list \<Rightarrow> hypothesis list" where
  "all_hypotheses legstart winddir maxpts ii [] hyps = hyps"
| "all_hypotheses legstart winddir maxpts ii (g # gs) hyps =
     (let hypos = concat (map (GenerateHypotheses legstart (midpoint g) winddir) [0..<maxpts])
      in all_hypotheses (midpoint g) winddir maxpts (Suc ii) gs
           (extend_all (maxpts + ii) (map snd hyps) 0 hypos hyps))"

text \<open>The cheapest hypothesis after optimisation; no cost so far is the infinite one.\<close>

type_synonym plan = "fpoint list list \<times> real list"

primrec choose_plan :: "(Point list list \<Rightarrow> (fpoint list list \<times> real list \<times> real option \<times> bool) res) \<Rightarrow> hypothesis list \<Rightarrow>
    real option \<Rightarrow> plan \<Rightarrow> (real option \<times> plan) res" where
  "choose_plan optimize [] lowest best = Inr (lowest, best)"
| "choose_plan optimize (h # hs) lowest best =
     bindr (optimize (fst h)) (\<lambda>(tacks, alphas, cost, viable).
       if viable \<and> (case (cost, lowest) of (None, _) \<Rightarrow> False | (Some _, None) \<Rightarrow> True | (Some c, Some l) \<Rightarrow> c < l)
       then choose_plan optimize hs cost (tacks, alphas)
       else choose_plan optimize hs lowest best)"

definition optimize_hypothesis :: "gate list \<Rightarrow> Point \<Rightarrow> real \<Rightarrow> Point list list \<Rightarrow> real \<Rightarrow> Point list list \<Rightarrow>
    (fpoint list list \<times> real list \<times> real option \<times> bool) res" where
  "optimize_hypothesis gates nextpt winddir obstacles cur_yaw hypothesis =
     OptimizeMultipleTacks gates nextpt winddir obstacles cur_yaw (map (map Some) hypothesis) (replicate (length gates) (1 / 2))"

definition FindMultiplePath :: "Point \<Rightarrow> gate list \<Rightarrow> Point \<Rightarrow> real \<Rightarrow> Point list list \<Rightarrow> real \<Rightarrow> plan res" where
  "FindMultiplePath startpt gates nextpt winddir obstacles cur_yaw =
     (let Nlegs = length gates;
          MaxPtsPerLeg = nat (max 1 (int kMaxTotalpts + 1 - int Nlegs));
          hyps = all_hypotheses startpt winddir MaxPtsPerLeg 0 gates []
      in if hyps = [] then Inl OutOfBounds
         else bindr (choose_plan (optimize_hypothesis gates nextpt winddir obstacles cur_yaw) hyps None
                       (map (map Some) (fst (hyps ! 0)), replicate Nlegs (1 / 2))) (\<lambda>(lowest, best). Inr best))"

definition FindPath :: "Point \<Rightarrow> gate \<Rightarrow> Point \<Rightarrow> real \<Rightarrow> Point list list \<Rightarrow> real \<Rightarrow> (fpoint list \<times> real) res" where
  "FindPath startpt gate nextpt winddir obstacles cur_yaw =
     bindr (FindMultiplePath startpt [gate] nextpt winddir obstacles cur_yaw) (\<lambda>(tacks, alphas).
     bindr (nth_checked alphas 0) (\<lambda>alpha. bindr (nth_checked tacks 0) (\<lambda>tackpts. Inr (tackpts, alpha))))"

section \<open>Gates\<close>

definition MakeGateFromWaypoints :: "Point \<Rightarrow> Point \<Rightarrow> Point \<Rightarrow> gate" where
  "MakeGateFromWaypoints gatept prevpt nextpt =
     (let preleg = psub gatept prevpt;
          postleg = psub nextpt gatept;
          prev2gatedist = pnorm preleg;
          next2gatedist = pnorm postleg;
          mindist = 1 / 10 ^ 6
      in if prev2gatedist < mindist \<and> next2gatedist < mindist
         then (psub gatept (kGateWidth / 2, 0), padd gatept (kGateWidth / 2, 0))
         else let pre = pscale (1 / prev2gatedist) preleg;
                  post = pscale (1 / next2gatedist) postleg;
                  (centered, gateseg) =
                    (if prev2gatedist < mindist then (True, perp post)
                     else if next2gatedist < mindist then (True, perp pre)
                     else let seg = psub pre post; gatenorm = pnorm seg
                          in if gatenorm < mindist then (True, perp pre) else (False, pscale (1 / gatenorm) seg));
                  seg = pscale kGateWidth gateseg;
                  half = pscale (1 / 2) seg
              in if centered then (psub gatept half, psub (padd gatept seg) half) else (gatept, padd gatept seg))"

section \<open>The search does not fail\<close>

text \<open>A computation that ends with a result that is as specified.\<close>

definition spec :: "'a res \<Rightarrow> ('a \<Rightarrow> bool) \<Rightarrow> bool" where
  "spec r P \<longleftrightarrow> (case r of Inl e \<Rightarrow> False | Inr x \<Rightarrow> P x)"

lemma spec_simps [simp]: "spec (Inr x) P = P x" "\<not> spec (Inl e) P"
  by (simp_all add: spec_def)

lemma spec_bindr: "spec r P \<Longrightarrow> (\<And>x. P x \<Longrightarrow> spec (f x) Q) \<Longrightarrow> spec (bindr r f) Q"
  by (cases r) auto

lemma spec_mono: "spec r P \<Longrightarrow> (\<And>x. P x \<Longrightarrow> Q x) \<Longrightarrow> spec r Q"
  by (cases r) auto

definition obstacles_ok :: "Point list list \<Rightarrow> bool" where
  "obstacles_ok obs \<longleftrightarrow> [] \<notin> set obs"

lemma DistToPoint_total: "pts \<noteq> [] \<Longrightarrow> \<exists>r. DistToPoint pts pt = Inr r"
  by (rule nearest_vertex [of pts pt]) (auto simp: DistToPoint_def Let_def)

lemma sum_res_total: "(\<forall>r\<in>set rs. \<exists>x. r = Inr x) \<Longrightarrow> \<exists>y. sum_res rs = Inr y"
  by (induction rs) fastforce+

lemma bindr_total: "\<exists>a. r = Inr a \<Longrightarrow> \<exists>x. bindr r (\<lambda>a. Inr (f a)) = Inr x"
  by auto

lemma obstacle_value_total:
  assumes "obstacles_ok obs"
  shows "\<exists>c. obstacle_value start fin obs = Inr c"
  unfolding obstacle_value_def Let_def
proof (rule sum_res_total, intro ballI)
  fix r
  assume "r \<in> set (concat (map (\<lambda>ii. map (\<lambda>ob. bindr (DistToPoint ob (padd start (pscale ((real ii + 1 / 2) / 10) (psub fin start))))
      (\<lambda>dist. Inr (kObstacleCost * (max 0 (10 - dist) / 10) * (max 0 (10 - dist) / 10) * (pnorm (psub start fin) / 10)))) obs) [0..<10]))"
  then obtain ob ii where "ob \<in> set obs"
    and r: "r = bindr (DistToPoint ob (padd start (pscale ((real ii + 1 / 2) / 10) (psub fin start))))
      (\<lambda>dist. Inr (kObstacleCost * (max 0 (10 - dist) / 10) * (max 0 (10 - dist) / 10) * (pnorm (psub start fin) / 10)))"
    by auto
  with assms have "ob \<noteq> []" by (auto simp: obstacles_ok_def)
  then show "\<exists>x. r = Inr x" unfolding r by (intro bindr_total DistToPoint_total)
qed

lemma ObstacleCost_total: "obstacles_ok obs \<Longrightarrow> \<exists>c g. ObstacleCost start fin obs = Inr (c, g)"
  using obstacle_value_total [of obs start fin] obstacle_value_total [of obs "padd start (1 / 10 ^ 5, 0)" fin]
    obstacle_value_total [of obs "padd start (0, 1 / 10 ^ 5)" fin]
  by (auto simp: ObstacleCost_def Let_def)

lemma ObstacleCost_spec: "obstacles_ok obs \<Longrightarrow> spec (ObstacleCost s e obs) (\<lambda>_. True)"
  using ObstacleCost_total [of obs s e] by auto

lemma LinePairCost_spec: "obstacles_ok obs \<Longrightarrow> spec (LinePairCost s e t pre post w k obs) (\<lambda>_. True)"
  unfolding LinePairCost_def Let_def split_beta by (intro spec_bindr [where P = "\<lambda>_. True"] ObstacleCost_spec) simp_all

lemma pair_cost_spec:
  assumes "obstacles_ok obs"
  shows "spec (pair_cost p q t h1 h2 w k obs) (\<lambda>_. True)"
  unfolding pair_cost_def
  by (auto split: option.splits intro!: spec_bindr [OF LinePairCost_spec [OF assms]])

lemma SingleLineCost_spec: "obstacles_ok obs \<Longrightarrow> spec (SingleLineCost g s a pre n w obs) (\<lambda>_. True)"
  unfolding SingleLineCost_def Let_def split_beta by (intro spec_bindr [where P = "\<lambda>_. True"] ObstacleCost_spec) simp_all

lemma cross_cost_spec:
  assumes "obstacles_ok obs"
  shows "spec (cross_cost g p a h n w obs) (\<lambda>(c, d, v). p \<noteq> None \<and> h \<noteq> None \<and> n \<noteq> None \<longrightarrow> c \<noteq> None)"
  unfolding cross_cost_def
  by (auto split: option.splits intro!: spec_bindr [OF SingleLineCost_spec [OF assms]])

lemma back_loop_spec:
  assumes "obstacles_ok obs" "i < length pts"
  shows "spec (back_loop w obs yaw step pre i pts postpt posth c v) (\<lambda>(pts', c', v'). length pts' = length pts \<and> pts' ! 0 = pts ! 0)"
  using assms(2)
proof (induction i arbitrary: pts postpt posth c v)
  case (Suc i)
  have IH: "spec (back_loop w obs yaw step pre i (pts[Suc i := p]) q h c' v') (\<lambda>(pts', c', v'). length pts' = length pts \<and> pts' ! 0 = pts ! 0)"
    for p q h c' v'
    using Suc.IH [of "pts[Suc i := p]" q h c' v'] Suc.prems by simp
  show ?case
    unfolding back_loop.simps Let_def split_beta
    by (rule spec_bindr [OF pair_cost_spec [OF assms(1)]]) (rule IH [unfolded split_beta])
qed simp

lemma Clip_range: "lo \<le> hi \<Longrightarrow> lo \<le> Clip a lo hi \<and> Clip a lo hi \<le> hi"
  by (auto simp: Clip_def)

text \<open>A pass keeps the number of turning points and the first one; a path without turns has a cost.\<close>

lemma BackPass_spec:
  assumes obs: "obstacles_ok obs" and ne: "pts \<noteq> []"
  shows "spec (BackPass g n w obs yaw step pre pts a)
    (\<lambda>(pts', a', c, v). length pts' = length pts \<and> pts' ! 0 = pts ! 0 \<and> 1 / 10 \<le> a' \<and> a' \<le> 1 \<and>
      (length pts = 1 \<and> pts ! 0 \<noteq> None \<and> n \<noteq> None \<and> yaw \<noteq> None \<longrightarrow> c \<noteq> None))"
proof (cases "length pts = 1")
  case True
  then obtain p where p: "pts = [p]" by (auto simp: length_Suc_conv)
  show ?thesis
    unfolding BackPass_def Let_def if_not_P [OF ne] split_beta
    by (rule spec_bindr [OF cross_cost_spec [OF obs]]) (use Clip_range [of "1 / 10" 1] in \<open>auto simp: p\<close>)
next
  case False
  have i: "length pts - 1 < length pts" using ne by simp
  show ?thesis
    unfolding BackPass_def Let_def if_not_P [OF ne] split_beta
    by (rule spec_bindr [OF cross_cost_spec [OF obs]], rule spec_bindr [OF back_loop_spec [OF obs i]])
      (use Clip_range [of "1 / 10" 1] False in auto)
qed

text \<open>A plan for one gate: a path from the start and a point on the gate.\<close>

definition plan_ok :: "nat \<Rightarrow> Point \<Rightarrow> plan \<Rightarrow> bool" where
  "plan_ok k startpt pl \<longleftrightarrow>
     (case pl of ([path], [alpha]) \<Rightarrow> length path = Suc k \<and> path ! 0 = Some startpt \<and> 1 / 10 \<le> alpha \<and> alpha \<le> 1 | _ \<Rightarrow> False)"

lemma plan_ok_simp [simp]:
  "plan_ok k startpt ([path], [alpha]) \<longleftrightarrow> length path = Suc k \<and> path ! 0 = Some startpt \<and> 1 / 10 \<le> alpha \<and> alpha \<le> 1"
  by (simp add: plan_ok_def)

lemma plan_okE:
  assumes "plan_ok k startpt (tacks, alphas)"
  obtains path alpha where "tacks = [path]" "alphas = [alpha]" "length path = Suc k" "path ! 0 = Some startpt" "1 / 10 \<le> alpha" "alpha \<le> 1"
  using assms by (auto simp: plan_ok_def split: list.splits)

definition leg_ok :: "nat \<Rightarrow> Point \<Rightarrow> fpoint list list \<times> real list \<times> real option \<Rightarrow> bool" where
  "leg_ok k s = (\<lambda>(tacks, alphas, c). plan_ok k s (tacks, alphas) \<and> (k = 0 \<longrightarrow> c \<noteq> None))"

lemma optimize_leg_spec:
  assumes "obstacles_ok obs" "leg_ok k s (tacks, alphas, c)"
  shows "spec (optimize_leg [g] n w obs yaw step 0 (tacks, alphas, c)) (leg_ok k s)"
proof -
  obtain path alpha where p: "tacks = [path]" "alphas = [alpha]" "length path = Suc k" "path ! 0 = Some s"
    using assms(2) by (auto simp: leg_ok_def elim: plan_okE)
  have ne: "path \<noteq> []" using p(3) by auto
  show ?thesis
    unfolding optimize_leg_def Let_def p(1, 2)
    by (simp, rule spec_bindr [OF BackPass_spec [OF assms(1) ne]])
      (use p(3, 4) assms(2) in \<open>auto simp: leg_ok_def add_cost_def\<close>)
qed

lemma optimize_legs_Nil: "optimize_legs gates n w obs yaw step [] = Inr"
  by (rule ext) simp

lemma bindr_Inr_right: "bindr r Inr = r"
  by (cases r) auto

lemma optimize_iters_spec:
  assumes "obstacles_ok obs" "leg_ok k s st"
  shows "spec (optimize_iters [g] n w obs yaw is st) (leg_ok k s)"
  using assms(2)
proof (induction "is" arbitrary: st)
  case (Cons i "is")
  obtain tacks alphas c where st: "st = (tacks, alphas, c)" by (cases st)
  have ok: "leg_ok k s (tacks, alphas, Some 0)" and len: "length tacks = 1"
    using Cons.prems by (auto simp: st leg_ok_def elim: plan_okE)
  have legs: "optimize_legs [g] n w obs yaw step [0..<length tacks] (tacks, alphas, Some 0) =
      optimize_leg [g] n w obs yaw step 0 (tacks, alphas, Some 0)" for step
    by (simp add: len optimize_legs_Nil bindr_Inr_right)
  show ?case
    unfolding optimize_iters.simps Let_def st prod.case legs
    by (rule spec_bindr [OF optimize_leg_spec [OF assms(1) ok]]) (rule Cons.IH)
qed simp

lemma optimize_hypothesis_spec:
  assumes "obstacles_ok obs" "length path = Suc k"
  shows "spec (optimize_hypothesis [g] n w obs yaw [path])
    (\<lambda>(tacks, alphas, c, viable). plan_ok k (path ! 0) (tacks, alphas) \<and> (k = 0 \<longrightarrow> c \<noteq> None) \<and> viable)"
proof -
  have ok: "leg_ok k (path ! 0) ([map Some path], [1 / 2], Some 0)" using assms(2) by (simp add: leg_ok_def)
  have ne: "path \<noteq> []" using assms(2) by auto
  show ?thesis
    unfolding optimize_hypothesis_def OptimizeMultipleTacks_def
    by (simp add: ne) (rule spec_bindr [OF optimize_iters_spec [OF assms(1) ok]], auto simp: leg_ok_def)
qed

text \<open>The hypotheses for one gate.\<close>

definition single_hypotheses :: "Point \<Rightarrow> gate \<Rightarrow> real \<Rightarrow> Point list list" where
  "single_hypotheses startpt gate winddir =
     concat (map (GenerateHypotheses startpt (midpoint gate) winddir) [0..<kMaxTotalpts])"

lemma extend_all_first: "extend_all b [] k hypos hyps = hyps @ map (\<lambda>h. ([h], length h)) hypos"
  by (induction hypos arbitrary: k hyps) (simp_all add: extend_with_def)

lemma all_hypotheses_single:
  "all_hypotheses s w kMaxTotalpts 0 [g] [] = map (\<lambda>h. ([h], length h)) (single_hypotheses s g w)"
  by (simp add: extend_all_first single_hypotheses_def)

lemma GenerateHypotheses_start: "h \<in> set (GenerateHypotheses s e w k) \<Longrightarrow> h ! 0 = s \<and> length h = Suc k"
  by (auto simp: GenerateHypotheses_def straight_path_def tacking_path_def Let_def split: if_splits)

lemma single_hypotheses_start:
  assumes "h \<in> set (single_hypotheses s g w)"
  shows "h ! 0 = s" "\<exists>k < kMaxTotalpts. length h = Suc k"
  using assms by (auto simp: single_hypotheses_def dest: GenerateHypotheses_start [of h s "midpoint g" w])

lemma single_hypotheses_Cons: "\<exists>hs. single_hypotheses s g w = [s] # hs"
  by (simp add: single_hypotheses_def kMaxTotalpts_def upt_rec GenerateHypotheses_def)

text \<open>The choice: nothing that was tried is cheaper.\<close>

definition chosen :: "(Point list list \<Rightarrow> (fpoint list list \<times> real list \<times> real option \<times> bool) res) \<Rightarrow> hypothesis list \<Rightarrow>
    real option \<Rightarrow> plan \<Rightarrow> real option \<times> plan \<Rightarrow> bool" where
  "chosen opt hs lowest best = (\<lambda>(l, pl).
     (\<forall>h\<in>set hs. \<forall>t a c v. opt (fst h) = Inr (t, a, Some c, v) \<longrightarrow> (\<exists>m. l = Some m \<and> m \<le> c)) \<and>
     (\<forall>m0. lowest = Some m0 \<longrightarrow> (\<exists>m. l = Some m \<and> m \<le> m0)) \<and>
     ((l, pl) = (lowest, best) \<or> (\<exists>h\<in>set hs. l \<noteq> None \<and> opt (fst h) = Inr (fst pl, snd pl, l, True))))"

lemma choose_plan_spec:
  assumes "\<And>h. h \<in> set hs \<Longrightarrow> spec (opt (fst h)) (\<lambda>(t, a, c, v). v)"
  shows "spec (choose_plan opt hs lowest best) (chosen opt hs lowest best)"
  using assms
proof (induction hs arbitrary: lowest best)
  case (Cons h hs)
  have "spec (opt (fst h)) (\<lambda>(t, a, c, v). v)" using Cons.prems by simp
  then obtain t a c where good: "opt (fst h) = Inr (t, a, c, True)"
    by (cases "opt (fst h)") auto
  have IH: "spec (choose_plan opt hs l b) (chosen opt hs l b)" for l b
    using Cons.prems by (intro Cons.IH) simp
  show ?case
  proof (cases "case (c, lowest) of (None, _) \<Rightarrow> False | (Some _, None) \<Rightarrow> True | (Some c, Some l) \<Rightarrow> c < l")
    case True
    then obtain x where x: "c = Some x" and less: "\<And>l0. lowest = Some l0 \<Longrightarrow> x < l0"
      by (auto split: option.splits)
    from IH [of c "(t, a)"] have "spec (choose_plan opt hs c (t, a)) (chosen opt (h # hs) lowest best)"
      by (rule spec_mono) (use good less in \<open>force simp: chosen_def x\<close>)
    then show ?thesis using good True by simp
  next
    case False
    then have ge: "\<And>x. c = Some x \<Longrightarrow> \<exists>l0. lowest = Some l0 \<and> l0 \<le> x" by (auto split: option.splits)
    from IH [of lowest best] have "spec (choose_plan opt hs lowest best) (chosen opt (h # hs) lowest best)"
      by (rule spec_mono) (use good ge in \<open>force simp: chosen_def\<close>)
    then show ?thesis using good False by simp
  qed
qed (simp add: chosen_def)

lemma FindMultiplePath_single:
  assumes "obstacles_ok obs"
  shows "\<exists>path alpha h c. FindMultiplePath startpt [gate] nextpt winddir obs yaw = Inr ([path], [alpha]) \<and>
    path ! 0 = Some startpt \<and> 1 \<le> length path \<and> length path \<le> 6 \<and> 1 / 10 \<le> alpha \<and> alpha \<le> 1 \<and>
    h \<in> set (single_hypotheses startpt gate winddir) \<and>
    optimize_hypothesis [gate] nextpt winddir obs yaw [h] = Inr ([path], [alpha], Some c, True) \<and>
    (\<forall>h'\<in>set (single_hypotheses startpt gate winddir). \<forall>t a c' v.
       optimize_hypothesis [gate] nextpt winddir obs yaw [h'] = Inr (t, a, Some c', v) \<longrightarrow> c \<le> c')"
proof -
  define opt where "opt = optimize_hypothesis [gate] nextpt winddir obs yaw"
  define hyps where "hyps = map (\<lambda>h. ([h], length h)) (single_hypotheses startpt gate winddir)"
  obtain hs where hs: "single_hypotheses startpt gate winddir = [startpt] # hs" using single_hypotheses_Cons by blast
  have opt_spec: "spec (opt [h]) (\<lambda>(t, a, c, v). plan_ok k (h ! 0) (t, a) \<and> (k = 0 \<longrightarrow> c \<noteq> None) \<and> v)"
    if "length h = Suc k" for h k
    unfolding opt_def by (rule optimize_hypothesis_spec [OF assms that])
  have "spec (opt (fst x)) (\<lambda>(t, a, c, v). v)" if x: "x \<in> set hyps" for x
  proof -
    obtain h where h: "h \<in> set (single_hypotheses startpt gate winddir)" "fst x = [h]" using x by (auto simp: hyps_def)
    obtain k where "length h = Suc k" using single_hypotheses_start(2) [OF h(1)] by auto
    from spec_mono [OF opt_spec [OF this]] show ?thesis by (simp add: h(2) split_beta)
  qed
  from choose_plan_spec [of hyps opt None "([[Some startpt]], [1 / 2])", OF this] obtain l pl
    where r: "choose_plan opt hyps None ([[Some startpt]], [1 / 2]) = Inr (l, pl)" and ch: "chosen opt hyps None ([[Some startpt]], [1 / 2]) (l, pl)"
    by (auto simp: spec_def split: sum.splits)
  obtain t a c0 v where "opt [[startpt]] = Inr (t, a, Some c0, v)"
    using opt_spec [of "[startpt]" 0] by (auto simp: spec_def split: sum.splits)
  with ch obtain m where l: "l = Some m" by (fastforce simp: chosen_def hyps_def hs)
  with ch obtain h where h: "h \<in> set (single_hypotheses startpt gate winddir)" "opt [h] = Inr (fst pl, snd pl, Some m, True)"
    by (auto simp: chosen_def hyps_def)
  obtain k where k: "k < kMaxTotalpts" "length h = Suc k" and h0: "h ! 0 = startpt"
    using single_hypotheses_start [OF h(1)] by auto
  have "plan_ok k startpt (fst pl, snd pl)" using opt_spec [OF k(2)] h(2) h0 by simp
  then obtain path alpha where p: "pl = ([path], [alpha])" "length path = Suc k" "path ! 0 = Some startpt" "1 / 10 \<le> alpha" "alpha \<le> 1"
    by (elim plan_okE) (auto simp: prod_eq_iff)
  have "FindMultiplePath startpt [gate] nextpt winddir obs yaw = Inr ([path], [alpha])"
    using r all_hypotheses_single [of startpt winddir gate]
    by (simp add: FindMultiplePath_def Let_def kMaxTotalpts_def opt_def hyps_def hs p(1))
  moreover have "c' \<ge> m" if "h' \<in> set (single_hypotheses startpt gate winddir)" "opt [h'] = Inr (t, a, Some c', v)" for h' t a c' v
    using ch that by (fastforce simp: chosen_def hyps_def l)
  ultimately show ?thesis
    using p(2-5) k(1) h
    by (intro exI [of _ path] exI [of _ alpha] exI [of _ h] exI [of _ m]) (auto simp: opt_def p(1) kMaxTotalpts_def)
qed

text \<open>
  C10: For polygons with at least one point each, the search for a path to one gate ends with a
  path from the boat's position with at most five turning points and a point of the gate; it is
  the optimised form of one of the hypotheses, and no hypothesis has a lower cost.
\<close>

theorem find_path_cheapest:
  assumes "obstacles_ok obs"
  shows "\<exists>path alpha h c. FindPath startpt gate nextpt winddir obs yaw = Inr (path, alpha) \<and>
    path ! 0 = Some startpt \<and> 1 \<le> length path \<and> length path \<le> 6 \<and> 1 / 10 \<le> alpha \<and> alpha \<le> 1 \<and>
    h \<in> set (single_hypotheses startpt gate winddir) \<and>
    optimize_hypothesis [gate] nextpt winddir obs yaw [h] = Inr ([path], [alpha], Some c, True) \<and>
    (\<forall>h'\<in>set (single_hypotheses startpt gate winddir). \<forall>t a c' v.
       optimize_hypothesis [gate] nextpt winddir obs yaw [h'] = Inr (t, a, Some c', v) \<longrightarrow> c \<le> c')"
  using FindMultiplePath_single [OF assms, of startpt gate nextpt winddir yaw]
  by (elim exE conjE, intro exI conjI) (auto simp: FindPath_def nth_checked_def)

theorem find_path_cheapest_witness:
  "obstacles_ok [[(3, 3), (4, 3), (4, 4)]] \<and>
   (\<exists>path alpha. FindPath (0, 0) ((10, 0), (10, 20)) (20, 0) 1 [[(3, 3), (4, 3), (4, 4)]] 0 = Inr (path, alpha) \<and>
     path ! 0 = Some (0, 0) \<and> alpha \<le> 1)"
proof -
  have ok: "obstacles_ok [[(3, 3), (4, 3), (4, 4)]]" by (simp add: obstacles_ok_def)
  show ?thesis
    using ok find_path_cheapest [OF ok, of "(0, 0)" "((10, 0), (10, 20))" "(20, 0)" 1 0] by blast
qed

section \<open>Gradients\<close>






text \<open>
  The gate made at a waypoint is twenty metres long, and the waypoint is one of its ends or
  its middle.
\<close>

theorem gate_has_width:
  "pnorm (psub (snd (MakeGateFromWaypoints gatept prevpt nextpt)) (fst (MakeGateFromWaypoints gatept prevpt nextpt))) = kGateWidth \<and>
   gatept \<in> {fst (MakeGateFromWaypoints gatept prevpt nextpt), midpoint (MakeGateFromWaypoints gatept prevpt nextpt)}"
proof -
  have seg: "psub (psub (padd g s) (pscale (1 / 2) s)) (psub g (pscale (1 / 2) s)) = s" "psub (padd g s) g = s" for g s
    by (cases g; cases s; simp)+
  have off: "psub (padd g s) (psub g s) = pscale 2 s" for g s
    by (cases g; cases s; simp)
  have mid: "midpoint (psub g (pscale (1 / 2) s), psub (padd g s) (pscale (1 / 2) s)) = g" "midpoint (psub g s, padd g s) = g" for g s
    by (cases g; cases s; simp add: midpoint_def)+
  have unit: "\<bar>1 / pnorm v\<bar> * pnorm v = 1" if "\<not> pnorm v < 1 / 10 ^ 6" for v
    using that by (simp add: field_simps) 
  have base: "pnorm (10, 0) = 10" by (simp add: pnorm_def squaredNorm_def)
  show ?thesis
    unfolding MakeGateFromWaypoints_def Let_def
    using unit [of "psub gatept prevpt"] unit [of "psub nextpt gatept"]
      unit [of "psub (pscale (1 / pnorm (psub gatept prevpt)) (psub gatept prevpt)) (pscale (1 / pnorm (psub nextpt gatept)) (psub nextpt gatept))"]
    by (auto simp: seg mid off base kGateWidth_def simp del: pscale.simps psub.simps padd.simps perp.simps)
qed

end
