(* ===== verification/Line_Plan_Node.thy ===== *)
theory Line_Plan_Node
  imports Line_Plan
begin

text \<open>
  The line planner as a node (\<^verbatim>\<open>control/line_plan.cc\<close>): its reference frame, the waypoints and
  obstacles it is given, the progress along the waypoints and the heading it commands.  The
  handlers that change the plan hold the node's mutex, so they run one at a time.
\<close>

section \<open>Messages and state\<close>

datatype LpOut = PathPoints "fpoint list" | GoalHeading "real option" | TackerReport TackerState
  | SendWaypoints WaypointList | SendObstacles "Point list list"

record LinePlan =
  yaw :: real
  wind_dir :: real
  crossed_cnt :: int
  boat_pos :: Point
  boat_pos_lonlat :: Point
  prev_boat_pos :: Point
  prev_boat_pos_lonlat :: Point
  lonlat_ref :: Point
  lonlat_scale :: Point
  obstacles_lonlat :: "Point list list"
  obstacles :: "Point list list"
  waypoints_lonlat :: "Point list"
  waypoints :: "gate list"
  are_gates :: "bool list"
  next_waypoint :: nat
  repeat_waypoints :: bool
  tack_mode :: TACKER
  pathpoints_lonlat_msg :: "fpoint list"
  state_msg :: TackerState
  lp_sent :: "LpOut list"

definition lp_send :: "LpOut \<Rightarrow> LinePlan \<Rightarrow> LinePlan" where
  "lp_send m s = s\<lparr>lp_sent := lp_sent s @ [m]\<rparr>"

section \<open>Reference frame\<close>

definition LonLatToFrame :: "LinePlan \<Rightarrow> Point \<Rightarrow> Point" where
  "LonLatToFrame s lonlat =
     (fst (lonlat_scale s) * (fst lonlat - fst (lonlat_ref s)), snd (lonlat_scale s) * (snd lonlat - snd (lonlat_ref s)))"

text \<open>Dividing by a scale of zero gives no finite position.\<close>

definition FrameToLonLat :: "LinePlan \<Rightarrow> fpoint \<Rightarrow> fpoint" where
  "FrameToLonLat s frame =
     (case frame of None \<Rightarrow> None
      | Some p \<Rightarrow> if fst (lonlat_scale s) = 0 \<or> snd (lonlat_scale s) = 0 then None
          else Some (fst p / fst (lonlat_scale s) + fst (lonlat_ref s), snd p / snd (lonlat_scale s) + snd (lonlat_ref s)))"

definition UpdateObstacles :: "LinePlan \<Rightarrow> LinePlan" where
  "UpdateObstacles s = s\<lparr>obstacles := map (map (LonLatToFrame s)) (obstacles_lonlat s)\<rparr>"

text \<open>
  The waypoints as gates: each inner one between its neighbours, the last one as a point
  unless the waypoints are repeated, when the first and the last have neighbours too.
\<close>

definition gates_of :: "bool \<Rightarrow> Point list \<Rightarrow> gate list" where
  "gates_of rep pts =
     (let N = length pts;
          inner = map (\<lambda>ii. MakeGateFromWaypoints (pts ! ii) (pts ! (ii - 1)) (pts ! (ii + 1))) [1..<N - 1]
      in if rep
         then [MakeGateFromWaypoints (pts ! 0) (pts ! (N - 1)) (pts ! 1)] @ inner @
              [MakeGateFromWaypoints (pts ! (N - 1)) (pts ! (N - 2)) (pts ! 0)]
         else [(pts ! 0, pts ! 0)] @ inner @ [(pts ! (N - 1), pts ! (N - 1))])"

definition UpdateWaypoints :: "LinePlan \<Rightarrow> LinePlan" where
  "UpdateWaypoints s =
     (let Nway = length (waypoints_lonlat s); pts = map (LonLatToFrame s) (waypoints_lonlat s)
      in if Nway = 1 then s\<lparr>waypoints := [(pts ! 0, pts ! 0)], next_waypoint := 0\<rparr>
         else if Nway \<le> 1 then s
         else s\<lparr>waypoints := gates_of (repeat_waypoints s) pts, are_gates := replicate Nway False\<rparr>)"

definition ResetRef :: "Point \<Rightarrow> LinePlan \<Rightarrow> LinePlan" where
  "ResetRef newlonlatref s =
     (let (yscale, xscale) = GPSLatLonScale (snd newlonlatref);
          s1 = s\<lparr>lonlat_ref := newlonlatref, lonlat_scale := (xscale, yscale)\<rparr>;
          s2 = s1\<lparr>boat_pos := LonLatToFrame s1 (boat_pos_lonlat s1), prev_boat_pos := LonLatToFrame s1 (prev_boat_pos_lonlat s1)\<rparr>
      in UpdateWaypoints (UpdateObstacles s2))"

section \<open>Progress along the waypoints\<close>

text \<open>The last waypoint is reached within fifteen metres and stays the next one.\<close>

definition at_last_waypoint :: "gate \<Rightarrow> LinePlan \<Rightarrow> LinePlan" where
  "at_last_waypoint gate s =
     (let fin = (pnorm (psub (fst gate) (boat_pos s)) < 15);
          m = (state_msg s)\<lparr>finished := Some fin, last_waypoint := Some (int (next_waypoint s) - (if fin then 0 else 1))\<rparr>
      in lp_send (TackerReport m) (s\<lparr>state_msg := m\<rparr>))"

text \<open>Whether the previous and the current position both project to the gate.\<close>

definition passed_line :: "bool \<Rightarrow> gate \<Rightarrow> LinePlan \<Rightarrow> bool" where
  "passed_line is_gate gate s =
     (let (gate_start, gate_end) = gate
      in if is_gate
         then ProjectsToLine gate_start gate_end (prev_boat_pos s) \<and> ProjectsToLine gate_start gate_end (boat_pos s)
         else if pnorm (psub gate_start gate_end) < 1 / 10 ^ 6 then pnorm (psub (boat_pos s) gate_start) < 5
         else ProjectsToRay gate_start gate_end (prev_boat_pos s) \<and> ProjectsToRay gate_start gate_end (boat_pos s))"

definition near_gate :: "gate \<Rightarrow> LinePlan \<Rightarrow> bool" where
  "near_gate gate s = (pnorm (psub (fst gate) (boat_pos s)) < 8)"

definition changed_sides :: "gate \<Rightarrow> LinePlan \<Rightarrow> bool" where
  "changed_sides gate s =
     (DistToLine (fst gate) (snd gate) (prev_boat_pos s) * DistToLine (fst gate) (snd gate) (boat_pos s) \<le> 0)"

definition advance_waypoint :: "bool \<Rightarrow> gate \<Rightarrow> LinePlan \<Rightarrow> LinePlan" where
  "advance_waypoint is_gate gate s =
     (if passed_line is_gate gate s \<or> near_gate gate s
      then if changed_sides gate s \<or> near_gate gate s
           then s\<lparr>next_waypoint := (next_waypoint s + 1) mod length (waypoints s), crossed_cnt := 0\<rparr>
           else s\<lparr>crossed_cnt := crossed_cnt s - 1\<rparr>
      else s)"

definition report_progress :: "bool \<Rightarrow> LinePlan \<Rightarrow> LinePlan" where
  "report_progress near_way s =
     (let m = (state_msg s)\<lparr>near_waypoint := Some near_way, finished := Some False, last_waypoint := Some (int (next_waypoint s) - 1)\<rparr>
      in lp_send (TackerReport m) (s\<lparr>state_msg := m\<rparr>))"

definition UpdateWaypointInc :: "LinePlan \<Rightarrow> LinePlan res" where
  "UpdateWaypointInc s =
     (if waypoints s = [] then Inr s
      else bindr (nth_checked (waypoints s) (next_waypoint s)) (\<lambda>gate.
        if \<not> repeat_waypoints s \<and> next_waypoint s = length (waypoints s) - 1 then Inr (at_last_waypoint gate s)
        else bindr (nth_checked (are_gates s) (next_waypoint s)) (\<lambda>is_gate.
          Inr (report_progress (near_gate gate s) (advance_waypoint is_gate gate s)))))"

section \<open>The heading\<close>

text \<open>
  The path of all legs, each followed by the point at which it crosses its gate; the message is
  filled anew for every leg.
\<close>

fun legs_path :: "fpoint list list \<Rightarrow> real list \<Rightarrow> gate list \<Rightarrow> fpoint list res" where
  "legs_path [] alphas gates = Inr []"
| "legs_path (leg # legs) (alpha # alphas) (g # gates) =
     (if leg = [] then Inl Fatal
      else bindr (legs_path legs alphas gates) (\<lambda>path.
        Inr (leg @ [Some (padd (pscale (1 - alpha) (fst g)) (pscale alpha (snd g)))] @ path)))"
| "legs_path (leg # legs) _ _ = Inl OutOfBounds"

definition future_idx :: "LinePlan \<Rightarrow> nat" where
  "future_idx s =
     (if repeat_waypoints s then (next_waypoint s + 1) mod length (waypoints s)
      else min (length (waypoints s) - 1) (next_waypoint s + 1))"

definition GetGoalHeading :: "LinePlan \<Rightarrow> (real option \<times> LinePlan) res" where
  "GetGoalHeading s =
     (if waypoints s = [] then Inr (Some (yaw s), s)
      else bindr (nth_checked (waypoints s) (future_idx s)) (\<lambda>future.
        let nextpt = midpoint future;
            Nlegs = max 1 (if repeat_waypoints s then int kMaxLegs
                           else min (int kMaxLegs) (int (length (waypoints s)) - int (next_waypoint s)));
            plan_for_gates = map (\<lambda>ii. waypoints s ! ((next_waypoint s + ii) mod length (waypoints s))) [0..<nat Nlegs]
        in bindr (FindMultiplePath (boat_pos s) plan_for_gates nextpt (wind_dir s) (obstacles s) (yaw s)) (\<lambda>(paths, alphas).
           bindr (legs_path paths alphas plan_for_gates) (\<lambda>path.
           bindr (nth_checked path 1) (\<lambda>p1. bindr (nth_checked path 0) (\<lambda>p0.
             Inr (heading_of p1 p0, s\<lparr>pathpoints_lonlat_msg := map (FrameToLonLat s) path\<rparr>)))))))"

section \<open>Handlers\<close>

text \<open>An invalid obstacle stops the process when verbose logging is on, and is skipped otherwise.\<close>

definition ReceiveObstacles :: "bool \<Rightarrow> Point list list \<Rightarrow> LinePlan \<Rightarrow> LinePlan res" where
  "ReceiveObstacles verbose polys s =
     (if verbose \<and> \<not> list_all ValidatePoints polys then Inl Fatal
      else Inr (UpdateObstacles (s\<lparr>obstacles_lonlat := filter ValidatePoints polys\<rparr>)))"

definition ReceiveWaypoints :: "WaypointList \<Rightarrow> LinePlan \<Rightarrow> LinePlan" where
  "ReceiveWaypoints msg s =
     (if points msg = [] then s
      else let next1 = (if restart msg \<or> next_waypoint s = 0 then 1 else next_waypoint s);
               s1 = s\<lparr>crossed_cnt := 0, repeat_waypoints := repeat msg,
                      next_waypoint := min next1 (length (points msg) - 1),
                      waypoints_lonlat := (if defined_start msg then [] else [boat_pos_lonlat s]) @ points msg\<rparr>;
               s2 = (if fst (lonlat_scale s1) = 0 then ResetRef (waypoints_lonlat s1 ! 0) s1 else s1)
           in UpdateWaypoints s2)"

definition lp_handle_mode :: "TACKER option \<Rightarrow> LinePlan \<Rightarrow> LinePlan" where
  "lp_handle_mode m s = (case m of Some t \<Rightarrow> s\<lparr>tack_mode := t\<rparr> | None \<Rightarrow> s)"

definition lp_handle_boat :: "Point \<Rightarrow> real \<Rightarrow> LinePlan \<Rightarrow> LinePlan res" where
  "lp_handle_boat pos y s =
     (let s1 = s\<lparr>prev_boat_pos := boat_pos s, prev_boat_pos_lonlat := boat_pos_lonlat s, boat_pos_lonlat := pos\<rparr>;
          s2 = s1\<lparr>boat_pos := LonLatToFrame s1 pos, yaw := y\<rparr>;
          s3 = (if GPSDistance (snd pos) (fst pos) (snd (lonlat_ref s2)) (fst (lonlat_ref s2)) > 100 then ResetRef pos s2 else s2)
      in UpdateWaypointInc s3)"

definition lp_handle_wind :: "real \<Rightarrow> real \<Rightarrow> LinePlan \<Rightarrow> LinePlan" where
  "lp_handle_wind x y s = s\<lparr>wind_dir := atan2 y x\<rparr>"

definition lp_iterate :: "LinePlan \<Rightarrow> LinePlan res" where
  "lp_iterate s =
     (if tack_mode s \<noteq> LINE_PLAN
      then Inr (lp_send (PathPoints []) (s\<lparr>pathpoints_lonlat_msg := []\<rparr>))
      else if squaredNorm (lonlat_scale s) < 1 / 10 ^ 10 then Inr s
      else bindr (GetGoalHeading s) (\<lambda>(hdg, s1).
        Inr (lp_send (PathPoints (pathpoints_lonlat_msg s1)) (lp_send (GoalHeading hdg) s1))))"


definition LinePlan_members :: "LinePlan \<Rightarrow> LinePlan" where
  "LinePlan_members junk = junk\<lparr>crossed_cnt := 0, lonlat_ref := (0, 0), lonlat_scale := (0, 0), obstacles_lonlat := [],
     obstacles := [], waypoints_lonlat := [], waypoints := [], are_gates := [], next_waypoint := 0,
     repeat_waypoints := False, tack_mode := LINE_PLAN, pathpoints_lonlat_msg := [],
     state_msg := \<lparr>finished = None, last_waypoint = None, near_waypoint = None\<rparr>, lp_sent := []\<rparr>"


datatype LpEvent = LpWaypoints WaypointList | LpObstacles bool "Point list list" | LpMode "TACKER option"
  | LpBoat Point real | LpWind real real | LpIterate

primrec lp_step :: "LpEvent \<Rightarrow> LinePlan \<Rightarrow> LinePlan res" where
  "lp_step (LpWaypoints w) s = Inr (ReceiveWaypoints w s)"
| "lp_step (LpObstacles v ob) s = ReceiveObstacles v ob s"
| "lp_step (LpMode m) s = Inr (lp_handle_mode m s)"
| "lp_step (LpBoat p y) s = lp_handle_boat p y s"
| "lp_step (LpWind x y) s = Inr (lp_handle_wind x y s)"
| "lp_step LpIterate s = lp_iterate s"

section \<open>Invariant\<close>

text \<open>The indices into the waypoints are valid, and every obstacle has a vertex.\<close>

definition lp_inv :: "LinePlan \<Rightarrow> bool" where
  "lp_inv s \<longleftrightarrow>
     length (waypoints s) = length (waypoints_lonlat s) \<and>
     (waypoints_lonlat s \<noteq> [] \<longrightarrow> next_waypoint s < length (waypoints_lonlat s)) \<and>
     (2 \<le> length (waypoints_lonlat s) \<longrightarrow> length (are_gates s) = length (waypoints_lonlat s)) \<and>
     (length (waypoints_lonlat s) = 1 \<longrightarrow> \<not> repeat_waypoints s) \<and>
     obstacles_ok (obstacles_lonlat s) \<and> obstacles_ok (obstacles s)"

text \<open>The positions in metres are those of the current reference.\<close>

definition frame_ok :: "LinePlan \<Rightarrow> bool" where
  "frame_ok s \<longleftrightarrow> boat_pos s = LonLatToFrame s (boat_pos_lonlat s)"

text \<open>A list of one waypoint must not be repeated, and obstacles must be valid for a verbose node.\<close>

definition way_ok :: "WaypointList \<Rightarrow> bool" where
  "way_ok w \<longleftrightarrow> \<not> (repeat w \<and> defined_start w \<and> length (points w) = 1)"

primrec lp_event_ok :: "LpEvent \<Rightarrow> bool" where
  "lp_event_ok (LpWaypoints w) = way_ok w"
| "lp_event_ok (LpObstacles v ob) = (v \<longrightarrow> list_all ValidatePoints ob)"
| "lp_event_ok (LpMode m) = True"
| "lp_event_ok (LpBoat p y) = True"
| "lp_event_ok (LpWind x y) = True"
| "lp_event_ok LpIterate = True"

lemma length_gates_of [simp]: "2 \<le> length pts \<Longrightarrow> length (gates_of rep pts) = length pts"
  by (auto simp: gates_of_def Let_def)

lemma obstacles_ok_map [simp]: "obstacles_ok (map (map f) obs) = obstacles_ok obs"
  by (auto simp: obstacles_ok_def)

lemma obstacles_ok_valid [simp]: "obstacles_ok (filter ValidatePoints polys)"
  by (auto simp: obstacles_ok_def ValidatePoints_def)

lemma LonLatToFrame_cong [simp]:
  "LonLatToFrame (s\<lparr>boat_pos := p\<rparr>) = LonLatToFrame s" "LonLatToFrame (s\<lparr>prev_boat_pos := p\<rparr>) = LonLatToFrame s"
  "LonLatToFrame (s\<lparr>obstacles := ob\<rparr>) = LonLatToFrame s" "LonLatToFrame (s\<lparr>waypoints := w\<rparr>) = LonLatToFrame s"
  "LonLatToFrame (s\<lparr>are_gates := g\<rparr>) = LonLatToFrame s" "LonLatToFrame (s\<lparr>next_waypoint := n\<rparr>) = LonLatToFrame s"
  "LonLatToFrame (s\<lparr>yaw := y\<rparr>) = LonLatToFrame s" "LonLatToFrame (s\<lparr>crossed_cnt := c\<rparr>) = LonLatToFrame s"
  "LonLatToFrame (s\<lparr>state_msg := m\<rparr>) = LonLatToFrame s" "LonLatToFrame (s\<lparr>lp_sent := m'\<rparr>) = LonLatToFrame s"
  "LonLatToFrame (s\<lparr>obstacles_lonlat := ob'\<rparr>) = LonLatToFrame s" "LonLatToFrame (s\<lparr>waypoints_lonlat := w'\<rparr>) = LonLatToFrame s"
  "LonLatToFrame (s\<lparr>repeat_waypoints := r\<rparr>) = LonLatToFrame s" "LonLatToFrame (s\<lparr>tack_mode := t\<rparr>) = LonLatToFrame s"
  "LonLatToFrame (s\<lparr>pathpoints_lonlat_msg := pp\<rparr>) = LonLatToFrame s" "LonLatToFrame (s\<lparr>wind_dir := wd\<rparr>) = LonLatToFrame s"
  "LonLatToFrame (s\<lparr>boat_pos_lonlat := bp\<rparr>) = LonLatToFrame s" "LonLatToFrame (s\<lparr>prev_boat_pos_lonlat := pb\<rparr>) = LonLatToFrame s"
  by (rule ext, simp add: LonLatToFrame_def)+

text \<open>What the conversion of the waypoints needs and gives.\<close>

definition way_inv :: "LinePlan \<Rightarrow> bool" where
  "way_inv s \<longleftrightarrow> waypoints_lonlat s \<noteq> [] \<and> next_waypoint s < length (waypoints_lonlat s) \<and>
     (length (waypoints_lonlat s) = 1 \<longrightarrow> \<not> repeat_waypoints s) \<and> obstacles_ok (obstacles_lonlat s) \<and> obstacles_ok (obstacles s)"

lemma way_inv_update [simp]:
  "way_inv (s\<lparr>lonlat_ref := r\<rparr>) = way_inv s" "way_inv (s\<lparr>lonlat_scale := r'\<rparr>) = way_inv s"
  "way_inv (s\<lparr>boat_pos := p\<rparr>) = way_inv s" "way_inv (s\<lparr>prev_boat_pos := p'\<rparr>) = way_inv s"
  by (simp_all add: way_inv_def)

lemma UpdateWaypoints_inv:
  assumes "way_inv s"
  shows "lp_inv (UpdateWaypoints s)" "way_inv (UpdateWaypoints s)"
proof -
  have "1 \<le> length (waypoints_lonlat s)" using assms by (cases "waypoints_lonlat s") (auto simp: way_inv_def)
  then show "lp_inv (UpdateWaypoints s)" "way_inv (UpdateWaypoints s)"
    using assms by (auto simp: UpdateWaypoints_def Let_def lp_inv_def way_inv_def)
qed

lemma UpdateObstacles_inv [simp]:
  "way_inv s \<Longrightarrow> way_inv (UpdateObstacles s)" "lp_inv s \<Longrightarrow> lp_inv (UpdateObstacles s)"
  by (auto simp: UpdateObstacles_def way_inv_def lp_inv_def)

lemma lp_inv_way_inv: "lp_inv s \<Longrightarrow> waypoints_lonlat s \<noteq> [] \<Longrightarrow> way_inv s"
  by (auto simp: lp_inv_def way_inv_def)

lemma UpdateWaypoints_empty: "waypoints_lonlat s = [] \<Longrightarrow> UpdateWaypoints s = s"
  by (simp add: UpdateWaypoints_def)

lemma ResetRef_way_inv:
  assumes "way_inv s"
  shows "lp_inv (ResetRef p s)" "way_inv (ResetRef p s)"
proof -
  obtain a b where "GPSLatLonScale (snd p) = (a, b)" by (cases "GPSLatLonScale (snd p)")
  then show "lp_inv (ResetRef p s)" "way_inv (ResetRef p s)"
    unfolding ResetRef_def Let_def using assms by (simp_all add: UpdateWaypoints_inv)
qed

lemma ResetRef_inv:
  assumes "lp_inv s"
  shows "lp_inv (ResetRef p s)"
proof (cases "waypoints_lonlat s = []")
  case True
  obtain a b where "GPSLatLonScale (snd p) = (a, b)" by (cases "GPSLatLonScale (snd p)")
  then show ?thesis
    using assms True by (simp add: ResetRef_def Let_def UpdateObstacles_def UpdateWaypoints_empty) (simp add: lp_inv_def)
next
  case False
  then show ?thesis using assms ResetRef_way_inv(1) lp_inv_way_inv by simp
qed

lemma ReceiveWaypoints_inv:
  assumes "lp_inv s" "way_ok w"
  shows "lp_inv (ReceiveWaypoints w s)"
proof (cases "points w = []")
  case False
  define next1 where "next1 = (if restart w \<or> next_waypoint s = 0 then 1 else next_waypoint s)"
  define s1 where "s1 = s\<lparr>crossed_cnt := 0, repeat_waypoints := repeat w, next_waypoint := min next1 (length (points w) - 1),
    waypoints_lonlat := (if defined_start w then [] else [boat_pos_lonlat s]) @ points w\<rparr>"
  have lt: "min next1 (length (points w) - 1) < length (points w)" using False by (cases "points w") auto
  have obs: "obstacles_ok (obstacles_lonlat s)" "obstacles_ok (obstacles s)" using assms(1) by (simp_all add: lp_inv_def)
  have "way_inv s1"
    using lt obs assms(2) False by (auto simp: s1_def way_inv_def way_ok_def)
  moreover have "ReceiveWaypoints w s =
      UpdateWaypoints (if fst (lonlat_scale s1) = 0 then ResetRef (waypoints_lonlat s1 ! 0) s1 else s1)"
    using False unfolding ReceiveWaypoints_def Let_def next1_def s1_def by simp
  ultimately show ?thesis by (auto intro: UpdateWaypoints_inv ResetRef_way_inv)
qed (use assms in \<open>simp add: ReceiveWaypoints_def\<close>)

lemma lp_send_inv [simp]: "lp_inv (lp_send m s) = lp_inv s" "frame_ok (lp_send m s) = frame_ok s"
  by (simp_all add: lp_send_def lp_inv_def frame_ok_def)

lemma lp_inv_update [simp]:
  "lp_inv (s\<lparr>state_msg := m\<rparr>) = lp_inv s" "lp_inv (s\<lparr>crossed_cnt := c\<rparr>) = lp_inv s"
  "lp_inv (s\<lparr>tack_mode := t\<rparr>) = lp_inv s" "lp_inv (s\<lparr>wind_dir := w\<rparr>) = lp_inv s"
  "lp_inv (s\<lparr>boat_pos := p\<rparr>) = lp_inv s" "lp_inv (s\<lparr>prev_boat_pos := p'\<rparr>) = lp_inv s"
  "lp_inv (s\<lparr>boat_pos_lonlat := q\<rparr>) = lp_inv s" "lp_inv (s\<lparr>prev_boat_pos_lonlat := q'\<rparr>) = lp_inv s"
  "lp_inv (s\<lparr>yaw := y\<rparr>) = lp_inv s" "lp_inv (s\<lparr>pathpoints_lonlat_msg := pp\<rparr>) = lp_inv s"
  by (simp_all add: lp_inv_def)

lemma lp_inv_index:
  assumes "lp_inv s" "waypoints s \<noteq> []"
  shows "next_waypoint s < length (waypoints s)"
    "repeat_waypoints s \<or> next_waypoint s \<noteq> length (waypoints s) - 1 \<Longrightarrow> next_waypoint s < length (are_gates s)"
proof -
  have ne: "waypoints_lonlat s \<noteq> []" using assms by (auto simp: lp_inv_def)
  then show "next_waypoint s < length (waypoints s)" using assms by (auto simp: lp_inv_def)
  moreover assume "repeat_waypoints s \<or> next_waypoint s \<noteq> length (waypoints s) - 1"
  ultimately have "2 \<le> length (waypoints_lonlat s)"
    using assms ne by (cases "length (waypoints_lonlat s) = 1") (auto simp: lp_inv_def Suc_le_eq)
  then show "next_waypoint s < length (are_gates s)" using assms ne by (auto simp: lp_inv_def)
qed

lemma lp_inv_next [simp]:
  "lp_inv s \<Longrightarrow> waypoints s \<noteq> [] \<Longrightarrow> lp_inv (s\<lparr>next_waypoint := n mod length (waypoints s)\<rparr>)"
  by (auto simp: lp_inv_def)

text \<open>The three outcomes of a new position.\<close>

lemma UpdateWaypointInc_eq:
  assumes "lp_inv s" "waypoints s \<noteq> []"
  shows "UpdateWaypointInc s =
    (let gate = waypoints s ! next_waypoint s
     in Inr (if \<not> repeat_waypoints s \<and> next_waypoint s = length (waypoints s) - 1 then at_last_waypoint gate s
             else report_progress (near_gate gate s) (advance_waypoint (are_gates s ! next_waypoint s) gate s)))"
proof (cases "\<not> repeat_waypoints s \<and> next_waypoint s = length (waypoints s) - 1")
  case True
  then show ?thesis using assms lp_inv_index(1) [OF assms] by (simp add: UpdateWaypointInc_def nth_checked_def Let_def)
next
  case False
  then have "next_waypoint s < length (are_gates s)" using lp_inv_index(2) [OF assms] by blast
  with False show ?thesis using assms lp_inv_index(1) [OF assms] by (auto simp: UpdateWaypointInc_def nth_checked_def Let_def)
qed

lemma advance_waypoint_inv: "lp_inv s \<Longrightarrow> waypoints s \<noteq> [] \<Longrightarrow> lp_inv (advance_waypoint b g s)"
  by (simp add: advance_waypoint_def)

lemma UpdateWaypointInc_inv:
  assumes "lp_inv s"
  shows "\<exists>s'. UpdateWaypointInc s = Inr s' \<and> lp_inv s'"
proof (cases "waypoints s = []")
  case False
  then show ?thesis
    using assms advance_waypoint_inv [OF assms False]
    by (auto simp: UpdateWaypointInc_eq [OF assms False] Let_def at_last_waypoint_def report_progress_def)
qed (use assms in \<open>simp add: UpdateWaypointInc_def\<close>)

text \<open>The heading of a plan for one gate.\<close>

lemma GetGoalHeading_total:
  assumes "lp_inv s"
  obtains "waypoints s = []" "GetGoalHeading s = Inr (Some (yaw s), s)"
  | path alpha where "waypoints s \<noteq> []" "path ! 0 = Some (boat_pos s)" "1 \<le> length path" "1 / 10 \<le> alpha" "alpha \<le> 1"
    "GetGoalHeading s = Inr (heading_of ((path @ [Some (gate_point (waypoints s ! next_waypoint s) alpha)]) ! 1) (Some (boat_pos s)),
       s\<lparr>pathpoints_lonlat_msg := map (FrameToLonLat s) (path @ [Some (gate_point (waypoints s ! next_waypoint s) alpha)])\<rparr>)"
proof (cases "waypoints s = []")
  case True
  then show ?thesis using that(1) by (simp add: GetGoalHeading_def)
next
  case False
  have idx: "next_waypoint s < length (waypoints s)" using lp_inv_index(1) [OF assms False] .
  then have fut: "future_idx s < length (waypoints s)" using False by (auto simp: future_idx_def)
  have obs: "obstacles_ok (obstacles s)" using assms by (simp add: lp_inv_def)
  obtain path alpha where p: "FindMultiplePath (boat_pos s) [waypoints s ! next_waypoint s] (midpoint (waypoints s ! future_idx s)) (wind_dir s)
      (obstacles s) (yaw s) = Inr ([path], [alpha])" "path ! 0 = Some (boat_pos s)" "1 \<le> length path" "1 / 10 \<le> alpha" "alpha \<le> 1"
    using FindMultiplePath_single [OF obs, of "boat_pos s" "waypoints s ! next_waypoint s" "midpoint (waypoints s ! future_idx s)" "wind_dir s" "yaw s"]
    by blast
  have ne: "path \<noteq> []" using p(3) by auto
  have pt: "padd (pscale (1 - alpha) a) (pscale alpha b) = gate_point (a, b) alpha" for a b
    by (cases a; cases b) (simp add: gate_point_def algebra_simps)
  have legs: "max 1 (if repeat_waypoints s then int kMaxLegs else min (int kMaxLegs) (int (length (waypoints s)) - int (next_waypoint s))) = 1"
    using idx by (auto simp: kMaxLegs_def)
  have "GetGoalHeading s = Inr (heading_of ((path @ [Some (gate_point (waypoints s ! next_waypoint s) alpha)]) ! 1) (Some (boat_pos s)),
       s\<lparr>pathpoints_lonlat_msg := map (FrameToLonLat s) (path @ [Some (gate_point (waypoints s ! next_waypoint s) alpha)])\<rparr>)"
    unfolding GetGoalHeading_def Let_def legs
    using False idx fut p(1, 2, 3) ne by (simp add: nth_checked_def pt nth_append)
  with False p(2-5) show ?thesis using that(2) by blast
qed

lemma lp_iterate_inv:
  assumes "lp_inv s"
  shows "\<exists>s'. lp_iterate s = Inr s' \<and> lp_inv s'"
  using assms by (cases rule: GetGoalHeading_total [OF assms]) (auto simp: lp_iterate_def)

lemma lp_step_inv:
  assumes "lp_inv s" "lp_event_ok e"
  shows "\<exists>s'. lp_step e s = Inr s' \<and> lp_inv s'"
proof (cases e)
  case (LpObstacles v ob)
  have "lp_inv (UpdateObstacles (s\<lparr>obstacles_lonlat := filter ValidatePoints ob\<rparr>))"
    using assms(1) by (intro UpdateObstacles_inv) (simp add: lp_inv_def)
  then show ?thesis using assms(2) LpObstacles by (auto simp: ReceiveObstacles_def)
next
  case (LpBoat p y)
  then show ?thesis
    using assms(1) by (simp add: lp_handle_boat_def Let_def) (intro conjI impI UpdateWaypointInc_inv, simp_all add: ResetRef_inv)
next
  case (LpMode m)
  then show ?thesis using assms(1) by (cases m) (simp_all add: lp_handle_mode_def)
qed (use assms lp_iterate_inv ReceiveWaypoints_inv in \<open>simp_all add: lp_handle_wind_def\<close>)


section \<open>Properties\<close>





text \<open>
  What it means to cross a gate that starts at \<open>l0\<close> and leads towards \<open>l1\<close>, ending there only if it is a proper gate: both
  positions lie beside it, on different sides.  Then the way between them meets the gate itself.
\<close>

definition beside_gate :: "bool \<Rightarrow> Point \<Rightarrow> Point \<Rightarrow> Point \<Rightarrow> bool" where
  "beside_gate is_gate l0 l1 p \<longleftrightarrow>
     0 < pdot (psub l1 l0) (psub p l0) \<and> (is_gate \<longrightarrow> pdot (psub l1 l0) (psub p l0) < squaredNorm (psub l1 l0))"

definition crosses_gate :: "bool \<Rightarrow> Point \<Rightarrow> Point \<Rightarrow> Point \<Rightarrow> Point \<Rightarrow> bool" where
  "crosses_gate is_gate l0 l1 p q \<longleftrightarrow> (is_gate \<or> 1 / 10 ^ 6 \<le> pnorm (psub l0 l1)) \<and>
     beside_gate is_gate l0 l1 p \<and> beside_gate is_gate l0 l1 q \<and> DistToLine l0 l1 p * DistToLine l0 l1 q \<le> 0"

lemma DistToLine_affine:
  "DistToLine l0 l1 (on_segment a b t) = (1 - t) * DistToLine l0 l1 a + t * DistToLine l0 l1 b"
proof -
  obtain u v where "normalized (perp (psub l1 l0)) = (u, v)" by (cases "normalized (perp (psub l1 l0))")
  then show ?thesis
    by (cases a; cases b; cases l0) (simp add: DistToLine_perp on_segment_def algebra_simps)
qed

lemma pdot_on_segment:
  "pdot l (psub (on_segment a b t) l0) = (1 - t) * pdot l (psub a l0) + t * pdot l (psub b l0)"
  by (cases a; cases b; cases l; cases l0) (simp add: on_segment_def algebra_simps)

lemma sign_change:
  fixes d0 d1 :: real
  assumes "d0 * d1 \<le> 0"
  shows "\<exists>t. 0 \<le> t \<and> t \<le> 1 \<and> (1 - t) * d0 + t * d1 = 0"
proof (cases "d0 = d1")
  case True
  then have "d0 = 0" using assms by (auto simp: mult_le_0_iff)
  with True show ?thesis by (intro exI [of _ 0]) simp
next
  case False
  have "0 \<le> d0 / (d0 - d1) \<and> d0 / (d0 - d1) \<le> 1"
    using assms False by (auto simp: mult_le_0_iff divide_simps)
  moreover have "(1 - d0 / (d0 - d1)) * d0 + d0 / (d0 - d1) * d1 = 0" using False by (simp add: field_simps)
  ultimately show ?thesis by blast
qed

lemma on_line_point:
  assumes "DistToLine l0 l1 p = 0" "0 < squaredNorm (psub l1 l0)"
  shows "p = on_segment l0 l1 (pdot (psub l1 l0) (psub p l0) / squaredNorm (psub l1 l0))"
proof -
  obtain x y where l: "psub l1 l0 = (x, y)" by (cases "psub l1 l0")
  obtain u v where q: "psub p l0 = (u, v)" by (cases "psub p l0")
  have "pdot (perp (psub l1 l0)) (psub p l0) = 0" using DistToLine_times_length [of l0 l1 p] assms(1) by simp
  then have cross: "x * v = y * u" by (simp add: l q)
  have n: "0 < x * x + y * y" using assms(2) by (simp add: l squaredNorm_def)
  have "(x * u + y * v) * x = u * (x * x + y * y)" "(x * u + y * v) * y = v * (x * x + y * y)" using cross by algebra+
  then have "(x * u + y * v) / (x * x + y * y) * x = u" "(x * u + y * v) / (x * x + y * y) * y = v"
    using n by (auto simp: divide_simps)
  then have "pscale (pdot (psub l1 l0) (psub p l0) / squaredNorm (psub l1 l0)) (psub l1 l0) = psub p l0"
    by (simp add: l q squaredNorm_def)
  then show ?thesis unfolding on_segment_def by (cases p; cases l0) simp
qed

lemma convex_between:
  fixes a b m :: real
  assumes "0 \<le> t" "t \<le> 1"
  shows "m < a \<Longrightarrow> m < b \<Longrightarrow> m < (1 - t) * a + t * b" and "a < m \<Longrightarrow> b < m \<Longrightarrow> (1 - t) * a + t * b < m"
  using assms convex_bound_lt [of "- a" "- m" "- b" "1 - t" t] convex_bound_lt [of a m b "1 - t" t] by (simp_all add: algebra_simps)

lemma crosses_gate_meets:
  assumes "crosses_gate is_gate l0 l1 p q"
  shows "\<exists>t u. 0 \<le> t \<and> t \<le> 1 \<and> 0 < u \<and> (is_gate \<longrightarrow> u < 1) \<and> on_segment p q t = on_segment l0 l1 u"
proof -
  obtain t where t: "0 \<le> t" "t \<le> 1" "DistToLine l0 l1 (on_segment p q t) = 0"
    using sign_change assms unfolding crosses_gate_def DistToLine_affine by blast
  define L where "L = squaredNorm (psub l1 l0)"
  define d where "d = pdot (psub l1 l0) (psub (on_segment p q t) l0)"
  have "psub l1 l0 \<noteq> (0, 0)" using assms by (auto simp: crosses_gate_def beside_gate_def)
  then have L: "0 < L" using squaredNorm_ge_0 [of "psub l1 l0"] by (auto simp: L_def less_le)
  have "0 < d" "is_gate \<Longrightarrow> d < L"
    using assms convex_between [OF t(1,2)] by (auto simp: d_def L_def pdot_on_segment crosses_gate_def beside_gate_def)
  then have "0 < d / L" "is_gate \<Longrightarrow> d / L < 1" using L by simp_all
  moreover have "on_segment p q t = on_segment l0 l1 (d / L)" using on_line_point [OF t(3)] L by (simp add: d_def L_def)
  ultimately show ?thesis using t(1,2) by (intro exI [of _ t] exI [of _ "d / L"]) simp
qed

text \<open>The two tests of the code are this crossing, or a position near enough.\<close>

lemma advance_waypoint_next:
  "next_waypoint (advance_waypoint is_gate gate s) =
     (if near_gate gate s \<or> crosses_gate is_gate (fst gate) (snd gate) (prev_boat_pos s) (boat_pos s)
      then (next_waypoint s + 1) mod length (waypoints s) else next_waypoint s)"
proof -
  obtain l0 l1 where g: "gate = (l0, l1)" by (cases gate)
  have flip: "pnorm (psub (boat_pos s) l0) = pnorm (psub l0 (boat_pos s))"
    by (cases "boat_pos s"; cases l0) (simp add: pnorm_def squaredNorm_def algebra_simps)
  have "passed_line is_gate gate s \<and> changed_sides gate s \<longrightarrow>
      near_gate gate s \<or> crosses_gate is_gate l0 l1 (prev_boat_pos s) (boat_pos s)"
    by (auto simp: g passed_line_def changed_sides_def near_gate_def crosses_gate_def beside_gate_def ProjectsToLine_def ProjectsToRay_def
        Let_def flip split: if_splits)
  moreover have "crosses_gate is_gate l0 l1 (prev_boat_pos s) (boat_pos s) \<longrightarrow> passed_line is_gate gate s \<and> changed_sides gate s"
    by (auto simp: g passed_line_def changed_sides_def crosses_gate_def beside_gate_def ProjectsToLine_def ProjectsToRay_def Let_def)
  ultimately show ?thesis by (auto simp: advance_waypoint_def g)
qed

text \<open>
  C11: The planner moves on to the waypoint after the next one exactly when the boat has come within eight metres of the next waypoint or has crossed its
  gate since the last position: both positions lie beside the gate, which starts at the waypoint, is at least a micrometre long and ends only if it is a proper gate, and they are on different
  sides of it.  The way between the two positions then meets the gate, not only its line.  The last waypoint, unless the
  waypoints are repeated, stays the next one, and the planner reports that it is done exactly when
  the boat is within fifteen metres of it.
\<close>

theorem waypoint_progress:
  assumes "lp_inv s" "waypoints s \<noteq> []"
  shows "\<exists>s'. UpdateWaypointInc s = Inr s' \<and> waypoints s' = waypoints s \<and>
    (let (l0, l1) = waypoints s ! next_waypoint s; is_gate = are_gates s ! next_waypoint s;
         dist = pnorm (psub l0 (boat_pos s));
         crossed = crosses_gate is_gate l0 l1 (prev_boat_pos s) (boat_pos s);
         at_last = (\<not> repeat_waypoints s \<and> next_waypoint s = length (waypoints s) - 1)
     in next_waypoint s' =
          (if \<not> at_last \<and> (dist < 8 \<or> crossed) then (next_waypoint s + 1) mod length (waypoints s) else next_waypoint s) \<and>
        (crossed \<longrightarrow> (\<exists>t u. 0 \<le> t \<and> t \<le> 1 \<and> 0 < u \<and> (is_gate \<longrightarrow> u < 1) \<and>
          on_segment (prev_boat_pos s) (boat_pos s) t = on_segment l0 l1 u)) \<and>
        finished (state_msg s') = Some (at_last \<and> dist < 15))"
proof -
  define gate where "gate = waypoints s ! next_waypoint s"
  define s1 where "s1 = advance_waypoint (are_gates s ! next_waypoint s) gate s"
  obtain l0 l1 where g: "gate = (l0, l1)" by (cases gate)
  have eq: "UpdateWaypointInc s = Inr (if \<not> repeat_waypoints s \<and> next_waypoint s = length (waypoints s) - 1
      then at_last_waypoint gate s else report_progress (near_gate gate s) s1)"
    using UpdateWaypointInc_eq [OF assms] by (simp add: gate_def s1_def Let_def)
  have "waypoints s1 = waypoints s" by (simp add: s1_def advance_waypoint_def)
  with eq crosses_gate_meets advance_waypoint_next [of "are_gates s ! next_waypoint s" gate s, folded s1_def] show ?thesis
    unfolding gate_def [symmetric] g prod.case Let_def
    by (auto simp: g at_last_waypoint_def report_progress_def lp_send_def Let_def near_gate_def)
qed

theorem waypoint_progress_witness:
  "\<forall>junk. \<exists>s'. UpdateWaypointInc ((LinePlan_members junk)\<lparr>waypoints := [((0, 0), (0, 0)), ((10, 0), (10, 1)), ((30, 0), (30, 0))],
      waypoints_lonlat := [(0, 0), (1, 1), (2, 2)], are_gates := [False, False, False], next_waypoint := 1,
      prev_boat_pos := (5, 15), boat_pos := (15, 15)\<rparr>) = Inr s' \<and> next_waypoint s' = 2"
proof
  fix junk
  define s where "s = (LinePlan_members junk)\<lparr>waypoints := [((0, 0), (0, 0)), ((10, 0), (10, 1)), ((30, 0), (30, 0))],
      waypoints_lonlat := [(0, 0), (1, 1), (2, 2)], are_gates := [False, False, False], next_waypoint := 1,
      prev_boat_pos := (5, 15), boat_pos := (15, 15)\<rparr>"
  have "lp_inv s" "waypoints s \<noteq> []" by (simp_all add: s_def lp_inv_def LinePlan_members_def obstacles_ok_def)
  from waypoint_progress [OF this] show "\<exists>s'. UpdateWaypointInc s = Inr s' \<and> next_waypoint s' = 2"
    by (auto simp: s_def LinePlan_members_def crosses_gate_def beside_gate_def DistToLine_def normalized_def pnorm_def squaredNorm_def Let_def)
qed

text \<open>
  A single waypoint that is to be repeated makes the planner read the gates' flags at an index
  that a planner which was never given a longer list does not have.
\<close>

theorem single_repeated_waypoint_faults:
  "run_events lp_step [LpWaypoints \<lparr>points = [q], restart = r, defined_start = True, repeat = True\<rparr>, LpBoat p y] (LinePlan_members junk) =
     Inl OutOfBounds"
proof -
  have way: "are_gates (ResetRef q' s) = are_gates s \<and> waypoints (ResetRef q' s) = [(LonLatToFrame (ResetRef q' s) q, LonLatToFrame (ResetRef q' s) q)] \<and>
      repeat_waypoints (ResetRef q' s) = repeat_waypoints s \<and> next_waypoint (ResetRef q' s) = 0 \<and> waypoints_lonlat (ResetRef q' s) = [q]"
    if "waypoints_lonlat s = [q]" for q' s
    using that by (cases "GPSLatLonScale (snd q')") (simp add: ResetRef_def UpdateObstacles_def UpdateWaypoints_def Let_def)
  have inc: "UpdateWaypointInc s = Inl OutOfBounds" if "waypoints s = [g]" "next_waypoint s = 0" "repeat_waypoints s" "are_gates s = []" for s g
    using that by (simp add: UpdateWaypointInc_def nth_checked_def)
  define s0 where "s0 = (LinePlan_members junk)\<lparr>crossed_cnt := 0, repeat_waypoints := True, next_waypoint := 0, waypoints_lonlat := [q]\<rparr>"
  define s1 where "s1 = ReceiveWaypoints \<lparr>points = [q], restart = r, defined_start = True, repeat = True\<rparr> (LinePlan_members junk)"
  have "s1 = UpdateWaypoints (ResetRef q s0)"
    unfolding s1_def s0_def by (simp add: ReceiveWaypoints_def LinePlan_members_def Let_def)
  moreover have "are_gates s0 = []" "waypoints_lonlat s0 = [q]" "repeat_waypoints s0" by (simp_all add: s0_def LinePlan_members_def)
  ultimately have s1: "waypoints_lonlat s1 = [q]" "\<exists>g. waypoints s1 = [g]" "next_waypoint s1 = 0" "repeat_waypoints s1" "are_gates s1 = []"
    using way [of s0 q] by (simp_all add: UpdateWaypoints_def)
  have "lp_handle_boat p y s1 = Inl OutOfBounds"
    unfolding lp_handle_boat_def Let_def using s1 by (auto intro!: inc simp: way)
  then show ?thesis by (simp add: s1_def)
qed

text \<open>The boat's last known position, in both coordinates.\<close>

definition boat_at :: "Point \<Rightarrow> LinePlan \<Rightarrow> bool" where
  "boat_at p s \<longleftrightarrow> boat_pos_lonlat s = p \<and> boat_pos s = LonLatToFrame s p"

definition not_boat :: "LpEvent \<Rightarrow> bool" where
  "not_boat e \<longleftrightarrow> (\<forall>p y. e \<noteq> LpBoat p y)"

lemma boat_at_update [simp]:
  "boat_at p (UpdateWaypoints s) = boat_at p s" "boat_at p (UpdateObstacles s) = boat_at p s" "boat_at p (lp_send m s) = boat_at p s"
  "boat_at p (s\<lparr>repeat_waypoints := r\<rparr>) = boat_at p s" "boat_at p (s\<lparr>waypoints_lonlat := w\<rparr>) = boat_at p s"
  "boat_at p (s\<lparr>obstacles_lonlat := ob\<rparr>) = boat_at p s" "boat_at p (s\<lparr>tack_mode := t\<rparr>) = boat_at p s"
  "boat_at p (s\<lparr>wind_dir := wd\<rparr>) = boat_at p s" "boat_at p (s\<lparr>pathpoints_lonlat_msg := pp\<rparr>) = boat_at p s"
  "boat_at p (s\<lparr>state_msg := m'\<rparr>) = boat_at p s" "boat_at p (s\<lparr>next_waypoint := n\<rparr>) = boat_at p s"
  "boat_at p (s\<lparr>crossed_cnt := c''\<rparr>) = boat_at p s"
  by (simp_all add: boat_at_def UpdateWaypoints_def UpdateObstacles_def lp_send_def Let_def)

lemma boat_at_ResetRef: "boat_pos_lonlat s = p \<Longrightarrow> boat_at p (ResetRef q s)"
  by (cases "GPSLatLonScale (snd q)") (simp add: ResetRef_def Let_def, simp add: boat_at_def)

lemma boat_at_UpdateWaypointInc:
  assumes "boat_at p s" "UpdateWaypointInc s = Inr s'"
  shows "boat_at p s'"
  using assms
  by (auto simp: UpdateWaypointInc_def nth_checked_def at_last_waypoint_def report_progress_def advance_waypoint_def Let_def
      split: if_splits)

lemma lp_boat_at:
  assumes "lp_step (LpBoat p y) s = Inr s'"
  shows "boat_at p s'"
proof -
  define s2 where "s2 = s\<lparr>prev_boat_pos := boat_pos s, prev_boat_pos_lonlat := boat_pos_lonlat s, boat_pos_lonlat := p,
    boat_pos := LonLatToFrame s p, yaw := y\<rparr>"
  have s2: "boat_pos_lonlat s2 = p" "boat_at p s2" by (simp_all add: s2_def boat_at_def)
  have "UpdateWaypointInc (if GPSDistance (snd p) (fst p) (snd (lonlat_ref s2)) (fst (lonlat_ref s2)) > 100 then ResetRef p s2 else s2) = Inr s'"
    using assms by (simp add: lp_handle_boat_def Let_def s2_def cong: if_cong)
  then show ?thesis
    by (rule boat_at_UpdateWaypointInc [rotated]) (simp add: s2 boat_at_ResetRef)
qed

lemma lp_step_boat_at:
  assumes "lp_inv s" "boat_at p s" "not_boat e" "lp_step e s = Inr s'"
  shows "boat_at p s'"
proof (cases e)
  case LpIterate
  then show ?thesis
    using assms by (cases rule: GetGoalHeading_total [OF assms(1)]) (auto simp: lp_iterate_def split: if_splits)
next
  case (LpWaypoints w)
  moreover have "boat_pos_lonlat s = p" using assms(2) by (simp add: boat_at_def)
  ultimately show ?thesis
    using assms(2, 4) by (auto simp: ReceiveWaypoints_def Let_def boat_at_ResetRef split: if_splits)
next
  case (LpMode m)
  then show ?thesis using assms by (cases m) (auto simp: lp_handle_mode_def)
qed (use assms in \<open>auto simp: ReceiveObstacles_def lp_handle_wind_def not_boat_def split: if_splits\<close>)

interpretation moored: node_machine lp_step "\<lambda>s. lp_inv s \<and> boat_at p s" "\<lambda>e. lp_event_ok e \<and> not_boat e" for p
proof
  fix s e
  assume "lp_inv s \<and> boat_at p s" "lp_event_ok e \<and> not_boat e"
  then show "\<exists>s'. lp_step e s = Inr s' \<and> lp_inv s' \<and> boat_at p s'"
    using lp_step_inv [of s e] lp_step_boat_at [of s p e] by blast
qed

lemma FrameToLonLat_LonLatToFrame:
  "fst (lonlat_scale s) \<noteq> 0 \<Longrightarrow> snd (lonlat_scale s) \<noteq> 0 \<Longrightarrow> FrameToLonLat s (Some (LonLatToFrame s p)) = Some p"
  by (simp add: FrameToLonLat_def LonLatToFrame_def)

text \<open>
  C12: After a position of the boat, and whatever other messages since, an iteration of a planner that
  is in charge and has waypoints sends a heading and a path, in degrees, that starts at that
  position and ends at a point of the next gate, at least a tenth along it.
\<close>

theorem planned_path_published:
  assumes "lp_inv s0" "list_all lp_event_ok es" "list_all not_boat es"
    and run: "run_events lp_step (LpBoat p y # es) s0 = Inr s"
    and "tack_mode s = LINE_PLAN" "fst (lonlat_scale s) \<noteq> 0" "snd (lonlat_scale s) \<noteq> 0"
    and "1 / 10 ^ 10 \<le> squaredNorm (lonlat_scale s)" "waypoints s \<noteq> []"
  shows "\<exists>s' hdg turns alpha. lp_step LpIterate s = Inr s' \<and> 1 / 10 \<le> alpha \<and> alpha \<le> 1 \<and>
    lp_sent s' = lp_sent s @ [GoalHeading hdg,
      PathPoints ([Some p] @ turns @ [FrameToLonLat s (Some (gate_point (waypoints s ! next_waypoint s) alpha))])]"
proof -
  obtain s1 where s1: "lp_step (LpBoat p y) s0 = Inr s1" "lp_inv s1" using lp_step_inv [OF assms(1), of "LpBoat p y"] by auto
  have ev: "list_all (\<lambda>e. lp_event_ok e \<and> not_boat e) es" using assms(2, 3) by (simp add: list_all_iff)
  have "lp_inv s1 \<and> boat_at p s1" using s1 lp_boat_at by blast
  from moored.run_inv [OF this ev] run s1 have inv: "lp_inv s" and at: "boat_at p s" by auto
  show ?thesis
  proof (cases rule: GetGoalHeading_total [OF inv])
    case (2 path alpha)
    obtain turns where path: "path = Some (boat_pos s) # turns" using 2(2, 3) by (cases path) auto
    have "FrameToLonLat s (Some (boat_pos s)) = Some p"
      using at assms(6, 7) by (simp add: boat_at_def FrameToLonLat_LonLatToFrame)
    then show ?thesis
      using 2 assms(5, 8) by (auto simp: lp_iterate_def lp_send_def path)
  qed (use assms(9) in simp)
qed

theorem planned_path_published_witness:
  "\<forall>junk. \<exists>s s' hdg turns alpha. run_events lp_step [LpBoat (0, 0) 1] ((LinePlan_members junk)\<lparr>lonlat_scale := (1, 1),
      waypoints := [((3, 4), (3, 4))], waypoints_lonlat := [(3, 4)]\<rparr>) = Inr s \<and>
    lp_step LpIterate s = Inr s' \<and> lp_sent s' = lp_sent s @ [GoalHeading hdg,
      PathPoints ([Some (0, 0)] @ turns @ [FrameToLonLat s (Some (gate_point (waypoints s ! next_waypoint s) alpha))])]"
proof
  fix junk
  define s0 where "s0 = (LinePlan_members junk)\<lparr>lonlat_scale := (1, 1), waypoints := [((3, 4), (3, 4))], waypoints_lonlat := [(3, 4)]\<rparr>"
  have inv: "lp_inv s0" by (simp add: s0_def lp_inv_def LinePlan_members_def obstacles_ok_def)
  obtain s where s: "run_events lp_step [LpBoat (0, 0) 1] s0 = Inr s" "tack_mode s = LINE_PLAN" "lonlat_scale s = (1, 1)" "waypoints s \<noteq> []"
    by (simp add: s0_def LinePlan_members_def lp_handle_boat_def Let_def GPSDistance_def GPSDistanceRad_def ToRad_def atan2_def
        UpdateWaypointInc_def nth_checked_def at_last_waypoint_def lp_send_def)
  from planned_path_published [OF inv _ _ s(1, 2)] s
  show "\<exists>s s' hdg turns alpha. run_events lp_step [LpBoat (0, 0) 1] s0 = Inr s \<and>
    lp_step LpIterate s = Inr s' \<and> lp_sent s' = lp_sent s @ [GoalHeading hdg,
      PathPoints ([Some (0, 0)] @ turns @ [FrameToLonLat s (Some (gate_point (waypoints s ! next_waypoint s) alpha))])]"
    by (fastforce simp: squaredNorm_def)
qed

end
