(* ===== verification/Line_Tacking.thy ===== *)
theory Line_Tacking
  imports Polygon Control_Msgs
begin

text \<open>
  The line tacker (\<^verbatim>\<open>control/line_tacking.cc\<close>): waypoints in a fixed array, the choice of a heading
  that keeps off the wind, and the switch from one waypoint to the next.  Positions are in degrees.
\<close>

section \<open>State\<close>

record TackerConstants =
  close_haul_angle :: real
  in_irons_cost :: real
  near_goal_cost :: real
  hysteresis_cost :: real
  diff_yaw_cost :: real
  momentum_cost :: real
  tacking_cost :: real

datatype LtOut = LtHeading real real | LtState TackerState | LtConsts TackerConstants | LtWaypoints WaypointList

record LineTacker =
  lt_waypoints :: "Point list"
  lt_i :: int
  msg_i_offset :: int
  way_len :: int
  recalc_zero :: bool
  lt_repeat :: bool
  cur_pos :: Point
  cur_dist :: real
  lt_wind_dir :: real
  apparent_wind_dir :: real
  cur_theta :: real
  cur_speed :: real
  cur_yaw_rate :: real
  lt_tack_mode :: TACKER
  lt_consts :: TackerConstants
  lt_heading :: real
  lt_state_msg :: TackerState
  lt_sent :: "LtOut list"

definition N_WAYPOINTS :: int where "N_WAYPOINTS = 10"
definition kWindTol :: real where "kWindTol = 1 / 10"
definition bounds :: "real list" where "bounds = replicate 10 20"
definition waypoint_moe :: "real list" where "waypoint_moe = [10, 10, 10, 50, 10, 10, 10, 10, 10, 10]"

definition lt_send :: "LtOut \<Rightarrow> LineTacker \<Rightarrow> LineTacker" where
  "lt_send m s = s\<lparr>lt_sent := lt_sent s @ [m]\<rparr>"

text \<open>Reading an array of ten elements at an integer index.\<close>

definition at_index :: "'a list \<Rightarrow> int \<Rightarrow> 'a res" where
  "at_index xs i = (if 0 \<le> i then nth_checked xs (nat i) else Inl OutOfBounds)"

text \<open>The remainder of C, with the sign of the dividend.\<close>

definition crem :: "int \<Rightarrow> int \<Rightarrow> int" where
  "crem a b = sgn a * (\<bar>a\<bar> mod \<bar>b\<bar>)"

section \<open>Waypoints\<close>

text \<open>
  The list may be shorter than the index from which it is taken: the count is then negative,
  and so is the length.
\<close>

definition ProcessWaypoints :: "WaypointList \<Rightarrow> LineTacker \<Rightarrow> LineTacker" where
  "ProcessWaypoints msg s =
     (let starti = (if restart msg then 0 else msg_i_offset s + lt_i s);
          recalc = (\<not> defined_start msg);
          offset = (if recalc then 1 else 0);
          cnt = min (int (length (points msg)) - starti) (N_WAYPOINTS - offset);
          new = map (\<lambda>i. points msg ! nat (int i + starti)) [0..<nat cnt];
          old = lt_waypoints s
      in s\<lparr>recalc_zero := recalc, lt_repeat := repeat msg,
           lt_waypoints := take (nat offset) old @ new @ drop (nat offset + nat cnt) old,
           lt_i := 0, msg_i_offset := starti, way_len := cnt + offset\<rparr>)"

section \<open>Distances and rewards\<close>

definition DistanceFromLine :: "Point \<Rightarrow> Point \<Rightarrow> Point \<Rightarrow> real" where
  "DistanceFromLine start fin loc =
     (if \<bar>snd fin - snd start\<bar> < 1 / 10 ^ 3 then (snd start + snd fin) / 2 - snd loc
      else if \<bar>fst fin - fst start\<bar> < 1 / 10 ^ 3 then (fst start + fst fin) / 2 - fst loc
      else let perp_slope = - (fst fin - fst start) / (snd fin - snd start);
               perp_intercept = snd loc - perp_slope * fst loc;
               orig_slope = - 1 / perp_slope;
               orig_intercept = snd fin - orig_slope * fst fin;
               x = (perp_intercept - orig_intercept) / (orig_slope - perp_slope);
               y = perp_slope * x + perp_intercept;
               dx = x - fst loc;
               dy = y - snd loc;
               dist = sqrt (dx * dx + dy * dy)
           in dist * (if dx > 0 then 1 else -1))"

definition ApparentWind :: "LineTacker \<Rightarrow> real" where
  "ApparentWind s = norm_angle (apparent_wind_dir s)"

definition InIronsReward :: "LineTacker \<Rightarrow> real \<Rightarrow> real" where
  "InIronsReward s h =
     (let upwind = norm_angle (lt_wind_dir s - pi); abswdiff = \<bar>norm_angle (h - upwind)\<bar>
      in min (abswdiff * 2 / pi) 1)"

definition DesirabilityReward :: "LineTacker \<Rightarrow> real \<Rightarrow> real \<Rightarrow> real" where
  "DesirabilityReward s h nominal_heading =
     (let normdiff = norm_angle (h - nominal_heading) / pi
      in (1 - normdiff * normdiff) * max (min (cur_dist s / 20) 3) (33 / 100))"

definition MomentumReward :: "LineTacker \<Rightarrow> real \<Rightarrow> real" where
  "MomentumReward s h =
     (let diff = norm_angle (h - cur_theta s) / pi; diff2 = diff * diff;
          norm_yaw_rate = cur_yaw_rate s / pi * (if diff > 0 then 1 else -1)
      in (1 - diff2) * norm_yaw_rate)"

definition CostToGoReward :: "LineTacker \<Rightarrow> real \<Rightarrow> real" where
  "CostToGoReward s h = (let diff = norm_angle (h - cur_theta s) / pi; diff2 = diff * diff in 1 - diff2)"

definition RequiresTackingReward :: "LineTacker \<Rightarrow> real \<Rightarrow> real" where
  "RequiresTackingReward s h =
     (let diff = norm_angle (h - cur_theta s); wdiff = norm_angle (cur_theta s - lt_wind_dir s + pi); b = wdiff + diff
      in \<bar>b - wdiff - sin b + sin wdiff\<bar>)"

definition IndecisionReward :: "LineTacker \<Rightarrow> real \<Rightarrow> real" where
  "IndecisionReward s h = (let diff = norm_angle (h - lt_heading s) / pi; diff2 = diff * diff in 1 - diff2)"

definition IsValidHeading :: "LineTacker \<Rightarrow> real \<Rightarrow> bool" where
  "IsValidHeading s h = (\<not> \<bar>norm_angle (h - lt_wind_dir s + pi)\<bar> < pi / 4)"

definition total_reward :: "LineTacker \<Rightarrow> real \<Rightarrow> real \<Rightarrow> real" where
  "total_reward s nominal_heading h =
     (let c = lt_consts s
      in in_irons_cost c * InIronsReward s h + near_goal_cost c * DesirabilityReward s h nominal_heading +
         hysteresis_cost c * IndecisionReward s h + diff_yaw_cost c * CostToGoReward s h +
         momentum_cost c * MomentumReward s h + tacking_cost c * RequiresTackingReward s h)"

primrec best_heading :: "(real \<Rightarrow> bool) \<Rightarrow> (real \<Rightarrow> real) \<Rightarrow> real list \<Rightarrow> real \<Rightarrow> real \<Rightarrow> real" where
  "best_heading valid reward [] max_reward best = best"
| "best_heading valid reward (h # hs) max_reward best =
     (if valid h \<and> reward h > max_reward then best_heading valid reward hs (reward h) h
      else best_heading valid reward hs max_reward best)"

section \<open>The goal heading\<close>

text \<open>
  The switch to the next waypoint: within the margin of error of the current one.  A scale of
  zero makes the margin infinite.
\<close>

definition next_leg :: "real \<Rightarrow> real \<Rightarrow> real \<Rightarrow> LineTacker \<Rightarrow> bool \<times> LineTacker" where
  "next_leg d moe avgscale s =
     (if avgscale = 0 \<or> d < moe / avgscale
      then if lt_i s < way_len s - 2 then (False, s\<lparr>lt_i := lt_i s + 1\<rparr>)
           else if lt_repeat s then (True, s\<lparr>lt_i := crem (lt_i s + 1) (way_len s)\<rparr>)
           else (True, s)
      else (False, s))"

text \<open>
  The angles that the choice of a heading normalises, each where the code does; a number of turns that does not fit
  an \<^verbatim>\<open>int\<close> is a fault.  (The differences of angles that are already normalised always fit.)
\<close>

definition line_angles :: "LineTacker \<Rightarrow> real \<Rightarrow> real \<Rightarrow> real list" where
  "line_angles s min_closehaul max_closehaul =
     apparent_wind_dir s # (if \<bar>ApparentWind s\<bar> < pi / 2 then [] else [min_closehaul - cur_theta s, max_closehaul - cur_theta s])"

definition reward_angles :: "LineTacker \<Rightarrow> real \<Rightarrow> real \<Rightarrow> real list" where
  "reward_angles s nominal_heading h =
     [h - norm_angle (lt_wind_dir s - pi), h - nominal_heading, h - lt_heading s, h - cur_theta s,
      cur_theta s - lt_wind_dir s + pi, h - lt_wind_dir s + pi]"

definition fitting :: "real list \<Rightarrow> 'a res \<Rightarrow> 'a res" where
  "fitting as x = (if list_all norm_angle_fits as then x else Inl BadCast)"

definition line_heading :: "LineTacker \<Rightarrow> Point \<Rightarrow> Point \<Rightarrow> real \<Rightarrow> real \<Rightarrow> real res" where
  "line_heading s start fin nominal_heading avgscale =
     (let upwind = norm_angle (lt_wind_dir s - pi);
          min_closehaul = norm_angle (upwind - close_haul_angle (lt_consts s));
          max_closehaul = norm_angle (upwind + close_haul_angle (lt_consts s));
          goal_wind_diff = norm_angle (nominal_heading - upwind)
      in if \<bar>goal_wind_diff\<bar> > close_haul_angle (lt_consts s) + kWindTol then Inr nominal_heading
         else let dist_to_line = DistanceFromLine start fin (cur_pos s) * avgscale
              in bindr (at_index bounds (lt_i s)) (\<lambda>bound.
                   if \<bar>dist_to_line\<bar> \<ge> bound
                   then Inr (if norm_angle (lt_wind_dir s - nominal_heading) > 0 then max_closehaul else min_closehaul)
                   else fitting (line_angles s min_closehaul max_closehaul) (Inr
                       (if \<bar>ApparentWind s\<bar> < pi / 2
                        then if ApparentWind s < 0 then min_closehaul else max_closehaul
                        else if \<bar>norm_angle (min_closehaul - cur_theta s)\<bar> < \<bar>norm_angle (max_closehaul - cur_theta s)\<bar>
                        then min_closehaul else max_closehaul))))"

definition choose_heading :: "LineTacker \<Rightarrow> Point \<Rightarrow> Point \<Rightarrow> real \<Rightarrow> real \<Rightarrow> real res" where
  "choose_heading s start fin nominal_heading avgscale =
     (let upwind = norm_angle (lt_wind_dir s - pi);
          min_closehaul = norm_angle (upwind - close_haul_angle (lt_consts s));
          max_closehaul = norm_angle (upwind + close_haul_angle (lt_consts s));
          possible_headings = [nominal_heading, lt_heading s, min_closehaul, max_closehaul]
      in fitting [lt_wind_dir s - pi, upwind - close_haul_angle (lt_consts s), upwind + close_haul_angle (lt_consts s)]
          (case lt_tack_mode s of
             REWARD \<Rightarrow> fitting (concat (map (reward_angles s nominal_heading) possible_headings))
               (Inr (best_heading (IsValidHeading s) (total_reward s nominal_heading) possible_headings 0 nominal_heading))
           | LINE \<Rightarrow> line_heading s start fin nominal_heading avgscale
           | _ \<Rightarrow> Inr nominal_heading))"

definition GoalHeading :: "LineTacker \<Rightarrow> (real \<times> LineTacker) res" where
  "GoalHeading s0 =
     (let s = (if recalc_zero s0 then s0\<lparr>lt_waypoints := (lt_waypoints s0)[0 := cur_pos s0]\<rparr> else s0);
          nexti = crem (lt_i s + 1) (way_len s)
      in bindr (at_index (lt_waypoints s) (lt_i s)) (\<lambda>start.
         bindr (at_index (lt_waypoints s) nexti) (\<lambda>fin.
         let dy = snd fin - snd (cur_pos s);
             dx = fst fin - fst (cur_pos s);
             nominal_heading = atan2 dy dx;
             dist = sqrt (dy * dy + dx * dx);
             (latscale, lonscale) = GPSLatLonScale (snd (cur_pos s));
             avgscale = (latscale + lonscale) * (1 / 2)
         in bindr (at_index waypoint_moe nexti) (\<lambda>moe.
              let (is_done, s1) = next_leg dist moe avgscale (s\<lparr>cur_dist := dist * avgscale\<rparr>);
                  m = (lt_state_msg s1)\<lparr>finished := Some is_done, last_waypoint := Some (lt_i s1)\<rparr>;
                  s2 = lt_send (LtState m) (s1\<lparr>lt_state_msg := m\<rparr>)
              in bindr (choose_heading s2 start fin nominal_heading avgscale) (\<lambda>h. Inr (h, s2))))))"

definition lt_iterate :: "LineTacker \<Rightarrow> LineTacker res" where
  "lt_iterate s =
     (if way_len s = 0 \<or> lt_tack_mode s = TACKER_DISABLED then Inr s
      else bindr (GoalHeading s) (\<lambda>(gh, s1).
        let s2 = s1\<lparr>lt_heading := gh\<rparr>;
            s3 = (if lt_tack_mode s2 \<in> {LINE, REWARD, TACKER_NONE} then lt_send (LtHeading gh 0) s2 else s2)
        in Inr (lt_send (LtConsts (lt_consts s3)) s3)))"

section \<open>Handlers\<close>

definition tacker_defaults :: TackerConstants where
  "tacker_defaults = \<lparr>close_haul_angle = 9 / 10, in_irons_cost = 3, near_goal_cost = 3, hysteresis_cost = 13 / 10,
     diff_yaw_cost = 1, momentum_cost = 1, tacking_cost = 0\<rparr>"

text \<open>The parameter holds the values of the members that are not initialised.\<close>

definition LineTacker_new :: "LineTacker \<Rightarrow> WaypointList option \<Rightarrow> LineTacker" where
  "LineTacker_new junk way =
     (let s = junk\<lparr>lt_i := 0, msg_i_offset := 0, way_len := 0, recalc_zero := False, lt_repeat := False, cur_pos := (0, 0),
                lt_wind_dir := 0, cur_theta := 0, lt_tack_mode := TACKER_NONE, lt_heading := 0,
                lt_state_msg := \<lparr>finished = None, last_waypoint = None, near_waypoint = None\<rparr>, lt_sent := []\<rparr>;
          s1 = (case way of None \<Rightarrow> s | Some w \<Rightarrow> ProcessWaypoints w (lt_send (LtWaypoints w) s))
      in lt_send (LtConsts tacker_defaults) (s1\<lparr>lt_consts := tacker_defaults\<rparr>))"

definition lt_handle_boat :: "Point \<Rightarrow> real \<Rightarrow> real \<Rightarrow> LineTacker \<Rightarrow> LineTacker res" where
  "lt_handle_boat pos yaw_angle omega_z s =
     bindr (norm_angle_checked omega_z) (\<lambda>rate.
       Inr (s\<lparr>cur_theta := yaw_angle, cur_speed := 10, cur_pos := pos, cur_yaw_rate := rate\<rparr>))"

datatype LtEvent = LtSetConsts TackerConstants | LtTrueWind real real | LtWind real real | LtBoat Point real real
  | LtMode "TACKER option" | LtNewWaypoints WaypointList | LtIterate

primrec lt_step :: "LtEvent \<Rightarrow> LineTacker \<Rightarrow> LineTacker res" where
  "lt_step (LtSetConsts c) s = Inr (s\<lparr>lt_consts := c\<rparr>)"
| "lt_step (LtTrueWind x y) s = Inr (s\<lparr>lt_wind_dir := atan2 y x\<rparr>)"
| "lt_step (LtWind x y) s = Inr (s\<lparr>apparent_wind_dir := atan2 y x\<rparr>)"
| "lt_step (LtBoat p y w) s = lt_handle_boat p y w s"
| "lt_step (LtMode m) s = Inr (case m of Some t \<Rightarrow> s\<lparr>lt_tack_mode := t\<rparr> | None \<Rightarrow> s)"
| "lt_step (LtNewWaypoints w) s = Inr (ProcessWaypoints w s)"
| "lt_step LtIterate s = lt_iterate s"

section \<open>The indices stay within the arrays\<close>

definition lt_inv :: "LineTacker \<Rightarrow> bool" where
  "lt_inv s \<longleftrightarrow> length (lt_waypoints s) = 10 \<and> 0 \<le> lt_i s \<and> 0 \<le> msg_i_offset s \<and> 0 \<le> way_len s \<and> way_len s \<le> 10 \<and>
     (way_len s \<noteq> 0 \<longrightarrow> lt_i s < way_len s)"

definition lt_angles_inv :: "LineTacker \<Rightarrow> bool" where
  "lt_angles_inv s \<longleftrightarrow> \<bar>lt_wind_dir s\<bar> \<le> pi \<and> \<bar>lt_heading s\<bar> \<le> pi \<and> \<bar>apparent_wind_dir s\<bar> \<le> 10 ^ 9 \<and> \<bar>cur_theta s\<bar> \<le> 10 ^ 9 \<and>
     \<bar>close_haul_angle (lt_consts s)\<bar> \<le> 10 ^ 9"

fun lt_event_ok :: "LtEvent \<Rightarrow> bool" where
  "lt_event_ok (LtSetConsts c) = (\<bar>close_haul_angle c\<bar> \<le> 10 ^ 9)"
| "lt_event_ok (LtBoat p y w) = (\<bar>y\<bar> \<le> 10 ^ 9 \<and> \<bar>w\<bar> \<le> 10 ^ 9)"
| "lt_event_ok e = True"

text \<open>A list that is not started from its beginning has at least the waypoints that are already behind.\<close>

definition list_long_enough :: "WaypointList \<Rightarrow> LineTacker \<Rightarrow> bool" where
  "list_long_enough w s \<longleftrightarrow> restart w \<or> msg_i_offset s + lt_i s \<le> int (length (points w))"

fun lt_list_ok :: "LtEvent \<Rightarrow> LineTacker \<Rightarrow> bool" where
  "lt_list_ok (LtNewWaypoints w) s = list_long_enough w s"
| "lt_list_ok e s = True"

lemma lt_inv_update [simp]:
  "lt_inv (lt_send m s) = lt_inv s" "lt_inv (s\<lparr>lt_state_msg := m'\<rparr>) = lt_inv s" "lt_inv (s\<lparr>lt_heading := h\<rparr>) = lt_inv s"
  "lt_inv (s\<lparr>cur_dist := d\<rparr>) = lt_inv s" "lt_inv (s\<lparr>lt_waypoints := (lt_waypoints s)[i := p]\<rparr>) = lt_inv s"
  "lt_inv (s\<lparr>lt_consts := c\<rparr>) = lt_inv s" "lt_inv (s\<lparr>lt_wind_dir := w\<rparr>) = lt_inv s" "lt_inv (s\<lparr>apparent_wind_dir := a\<rparr>) = lt_inv s"
  "lt_inv (s\<lparr>lt_tack_mode := t\<rparr>) = lt_inv s"
  by (simp_all add: lt_inv_def lt_send_def)

lemma lt_angles_inv_update [simp]:
  "lt_angles_inv (lt_send m s) = lt_angles_inv s" "lt_angles_inv (s\<lparr>lt_state_msg := m'\<rparr>) = lt_angles_inv s"
  "lt_angles_inv (s\<lparr>cur_dist := d\<rparr>) = lt_angles_inv s" "lt_angles_inv (s\<lparr>lt_waypoints := ws\<rparr>) = lt_angles_inv s"
  "lt_angles_inv (s\<lparr>lt_tack_mode := t\<rparr>) = lt_angles_inv s" "lt_angles_inv (s\<lparr>lt_i := i\<rparr>) = lt_angles_inv s"
  "lt_angles_inv (ProcessWaypoints w s) = lt_angles_inv s"
  by (simp_all add: lt_angles_inv_def lt_send_def ProcessWaypoints_def Let_def)

lemma ProcessWaypoints_inv:
  assumes "lt_inv s" "list_long_enough w s"
  shows "lt_inv (ProcessWaypoints w s)"
proof -
  define starti where "starti = (if restart w then 0 else msg_i_offset s + lt_i s)"
  define off :: int where "off = (if \<not> defined_start w then 1 else 0)"
  define cnt where "cnt = min (int (length (points w)) - starti) (N_WAYPOINTS - off)"
  have "0 \<le> starti" "starti \<le> int (length (points w))" using assms by (auto simp: starti_def lt_inv_def list_long_enough_def)
  then have bounds: "0 \<le> cnt" "cnt \<le> 10 - off" "0 \<le> off" "off \<le> 1" by (auto simp: cnt_def off_def N_WAYPOINTS_def)
  define ws where "ws = take (nat off) (lt_waypoints s) @ map (\<lambda>i. points w ! nat (int i + starti)) [0..<nat cnt] @
    drop (nat off + nat cnt) (lt_waypoints s)"
  have "length ws = 10" using assms(1) bounds by (simp add: ws_def lt_inv_def)
  moreover have "ProcessWaypoints w s = s\<lparr>recalc_zero := \<not> defined_start w, lt_repeat := repeat w, lt_waypoints := ws,
      lt_i := 0, msg_i_offset := starti, way_len := cnt + off\<rparr>"
    unfolding ProcessWaypoints_def Let_def ws_def cnt_def off_def starti_def by simp
  ultimately show ?thesis using bounds \<open>0 \<le> starti\<close> by (simp add: lt_inv_def)
qed

lemma crem_pos: "0 \<le> a \<Longrightarrow> 0 < b \<Longrightarrow> 0 \<le> crem a b \<and> crem a b < b"
  by (cases "a = 0") (auto simp: crem_def)

lemma at_index_total: "0 \<le> i \<Longrightarrow> i < int (length xs) \<Longrightarrow> at_index xs i = Inr (xs ! nat i)"
  by (simp add: at_index_def nth_checked_def nat_less_iff)

lemma next_leg_inv: "lt_inv s \<Longrightarrow> way_len s \<noteq> 0 \<Longrightarrow> lt_inv (snd (next_leg d moe a s)) \<and> way_len (snd (next_leg d moe a s)) = way_len s"
  using crem_pos [of "lt_i s + 1" "way_len s"] by (auto simp: next_leg_def lt_inv_def)

lemma fitting_eq_Inr [simp]: "fitting as x = Inr y \<longleftrightarrow> list_all norm_angle_fits as \<and> x = Inr y"
  by (simp add: fitting_def)

lemma fits_close: "\<bar>a\<bar> \<le> 10 ^ 9 + 10 * pi \<Longrightarrow> norm_angle_fits a"
  using pi_less_4 by (intro norm_angle_fits_small) simp

lemma fits_diff:
  assumes "\<bar>a\<bar> \<le> 10 ^ 9 + pi" "\<bar>b\<bar> \<le> 10 ^ 9 + pi"
  shows "norm_angle_fits (a - b)" "norm_angle_fits (a - b + pi)"
proof -
  have "\<bar>a - b\<bar> \<le> 8 * 10 ^ 9" "\<bar>a - b + pi\<bar> \<le> 8 * 10 ^ 9" using assms pi_less_4 pi_gt_zero by (auto simp: abs_le_iff)
  then show "norm_angle_fits (a - b)" "norm_angle_fits (a - b + pi)" by (simp_all add: norm_angle_fits_small)
qed

lemma line_angles_fit:
  assumes "lt_angles_inv s" "\<bar>a\<bar> \<le> pi" "\<bar>b\<bar> \<le> pi"
  shows "list_all norm_angle_fits (line_angles s a b)"
  using assms pi_gt_zero by (auto simp: line_angles_def lt_angles_inv_def intro!: fits_close)

lemma reward_angles_fit:
  assumes "lt_angles_inv s" "\<bar>n\<bar> \<le> pi" "\<bar>h\<bar> \<le> pi"
  shows "list_all norm_angle_fits (reward_angles s n h)"
proof -
  have le: "\<bar>a\<bar> \<le> 10 ^ 9 + pi" if "\<bar>a\<bar> \<le> pi \<or> \<bar>a\<bar> \<le> 10 ^ 9" for a using that pi_gt_zero by (auto intro: add_increasing add_increasing2)
  have "\<bar>norm_angle (lt_wind_dir s - pi)\<bar> \<le> pi" by (rule norm_angle_in_range)
  with assms show ?thesis by (simp add: reward_angles_def lt_angles_inv_def fits_diff le [simplified])
qed

lemma line_heading_total:
  assumes "lt_inv s" "lt_angles_inv s" "way_len s \<noteq> 0"
  shows "\<exists>h. line_heading s a b n sc = Inr h"
  using assms line_angles_fit [OF assms(2) norm_angle_in_range norm_angle_in_range]
  by (simp add: line_heading_def Let_def at_index_total lt_inv_def bounds_def)

lemma best_heading_cases:
  "best_heading valid reward hs m b = b \<or> best_heading valid reward hs m b \<in> set hs \<and> valid (best_heading valid reward hs m b)"
  by (induction hs arbitrary: m b) force+

lemma choose_heading_total:
  assumes "lt_inv s" "lt_angles_inv s" "way_len s \<noteq> 0" "\<bar>n\<bar> \<le> pi"
  shows "\<exists>h. choose_heading s a b n sc = Inr h \<and> \<bar>h\<bar> \<le> pi"
proof -
  define u c where "u = norm_angle (lt_wind_dir s - pi)" and "c = close_haul_angle (lt_consts s)"
  define hs where "hs = [n, lt_heading s, norm_angle (u - c), norm_angle (u + c)]"
  have u: "\<bar>u\<bar> \<le> pi" "norm_angle_fits (lt_wind_dir s - pi)" "norm_angle_fits (u - c)" "norm_angle_fits (u + c)"
    using norm_angle_in_range [of "lt_wind_dir s - pi"] assms(2) pi_gt_zero
    by (auto simp: u_def c_def lt_angles_inv_def intro!: fits_close)
  have hs: "\<bar>h\<bar> \<le> pi" if "h \<in> set hs" for h
    using that assms(2, 4) norm_angle_in_range by (auto simp: hs_def lt_angles_inv_def)
  then have "list_all norm_angle_fits (concat (map (reward_angles s n) hs))"
    using reward_angles_fit [OF assms(2, 4)] by (auto simp: list_all_iff)
  moreover have "\<bar>best_heading v r hs 0 n\<bar> \<le> pi" for v r using best_heading_cases [of v r hs 0 n] hs assms(4) by auto
  moreover have "\<exists>h. line_heading s a b n sc = Inr h \<and> \<bar>h\<bar> \<le> pi"
  proof -
    obtain h where h: "line_heading s a b n sc = Inr h" using line_heading_total [OF assms(1-3)] by blast
    then have "h = n \<or> h = norm_angle (u - c) \<or> h = norm_angle (u + c)"
      by (auto simp: line_heading_def Let_def bindr_eq_Inr u_def c_def split: if_splits)
    with h assms(4) norm_angle_in_range show ?thesis by auto
  qed
  ultimately show ?thesis
    using u assms(4) unfolding choose_heading_def Let_def u_def [symmetric] c_def [symmetric] hs_def [symmetric]
    by (auto split: TACKER.split)
qed

text \<open>The direction of the next waypoint.\<close>

definition lt_nominal :: "LineTacker \<Rightarrow> real" where
  "lt_nominal s =
     (let ws = (if recalc_zero s then (lt_waypoints s)[0 := cur_pos s] else lt_waypoints s);
          fin = ws ! nat (crem (lt_i s + 1) (way_len s))
      in atan2 (snd fin - snd (cur_pos s)) (fst fin - fst (cur_pos s)))"

text \<open>What a goal heading is computed from.\<close>

lemma GoalHeading_total:
  assumes "lt_inv s" "lt_angles_inv s" "way_len s \<noteq> 0"
  obtains h s2 start fin avgscale m where "GoalHeading s = Inr (h, s2)" "\<bar>h\<bar> \<le> pi" "lt_inv s2" "lt_angles_inv s2"
    "lt_tack_mode s2 = lt_tack_mode s" "lt_wind_dir s2 = lt_wind_dir s" "lt_consts s2 = lt_consts s"
    "choose_heading s2 start fin (lt_nominal s) avgscale = Inr h" "lt_sent s2 = lt_sent s @ [LtState m]"
proof -
  define s1 where "s1 = (if recalc_zero s then s\<lparr>lt_waypoints := (lt_waypoints s)[0 := cur_pos s]\<rparr> else s)"
  have s1: "lt_inv s1" "lt_angles_inv s1" "way_len s1 = way_len s" "lt_i s1 = lt_i s" "lt_tack_mode s1 = lt_tack_mode s"
    "lt_wind_dir s1 = lt_wind_dir s" "lt_consts s1 = lt_consts s" "lt_sent s1 = lt_sent s" "cur_pos s1 = cur_pos s"
    using assms(1, 2) by (simp_all add: s1_def)
  define nexti where "nexti = crem (lt_i s1 + 1) (way_len s1)"
  have idx: "0 \<le> nexti" "nexti < 10" "0 \<le> lt_i s1" "lt_i s1 < 10" "length (lt_waypoints s1) = 10"
    using crem_pos [of "lt_i s1 + 1" "way_len s1"] s1(1, 3) assms(3) by (auto simp: nexti_def lt_inv_def)
  obtain lat lon where sc: "GPSLatLonScale (snd (cur_pos s1)) = (lat, lon)" by (cases "GPSLatLonScale (snd (cur_pos s1))")
  define start fin where "start = lt_waypoints s1 ! nat (lt_i s1)" and "fin = lt_waypoints s1 ! nat nexti"
  define dy dx where "dy = snd fin - snd (cur_pos s1)" and "dx = fst fin - fst (cur_pos s1)"
  define avgscale where "avgscale = (lat + lon) * (1 / 2)"
  define leg where "leg = next_leg (sqrt (dy * dy + dx * dx)) (waypoint_moe ! nat nexti) avgscale (s1\<lparr>cur_dist := sqrt (dy * dy + dx * dx) * avgscale\<rparr>)"
  define m where "m = (lt_state_msg (snd leg))\<lparr>finished := Some (fst leg), last_waypoint := Some (lt_i (snd leg))\<rparr>"
  define s2 where "s2 = lt_send (LtState m) ((snd leg)\<lparr>lt_state_msg := m\<rparr>)"
  have nominal: "lt_nominal s = atan2 dy dx"
    using s1(3, 4, 9) by (auto simp: lt_nominal_def dy_def dx_def fin_def nexti_def s1_def Let_def)
  have leg: "lt_inv (snd leg)" "way_len (snd leg) = way_len s1"
    using next_leg_inv [of "s1\<lparr>cur_dist := sqrt (dy * dy + dx * dx) * avgscale\<rparr>"] s1(1, 3) assms(3) by (simp_all add: leg_def)
  have same: "lt_tack_mode (snd leg) = lt_tack_mode s1" "lt_wind_dir (snd leg) = lt_wind_dir s1" "lt_consts (snd leg) = lt_consts s1"
    "lt_sent (snd leg) = lt_sent s1" "lt_angles_inv (snd leg)"
    using s1(2) by (auto simp: leg_def next_leg_def)
  have s2: "lt_inv s2" "lt_angles_inv s2" "way_len s2 = way_len s"
    using leg same(5) s1(3) by (simp_all add: s2_def lt_send_def) (simp_all add: lt_inv_def lt_angles_inv_def)
  then obtain h where h: "choose_heading s2 start fin (atan2 dy dx) avgscale = Inr h" "\<bar>h\<bar> \<le> pi"
    using choose_heading_total [OF _ _ _ atan2_bounds] assms(3) by metis
  have "at_index (lt_waypoints s1) (lt_i s1) = Inr start" "at_index (lt_waypoints s1) nexti = Inr fin"
    "at_index waypoint_moe nexti = Inr (waypoint_moe ! nat nexti)"
    using idx by (simp_all add: at_index_total start_def fin_def waypoint_moe_def)
  then have "GoalHeading s = Inr (h, s2)"
    using h unfolding GoalHeading_def Let_def
    by (simp add: split_beta sc m_def s2_def leg_def avgscale_def dy_def dx_def flip: s1_def nexti_def)
  then show ?thesis
    using s2 same s1 h by (intro that [of h s2 start fin avgscale m]) (simp_all add: nominal s2_def lt_send_def)
qed

lemma lt_iterate_total:
  assumes "lt_inv s" "lt_angles_inv s"
  shows "\<exists>s'. lt_iterate s = Inr s' \<and> lt_inv s' \<and> lt_angles_inv s'"
proof (cases "way_len s = 0 \<or> lt_tack_mode s = TACKER_DISABLED")
  case False
  then obtain h s2 where "GoalHeading s = Inr (h, s2)" "\<bar>h\<bar> \<le> pi" "lt_inv s2" "lt_angles_inv s2"
    using GoalHeading_total [OF assms] by metis
  with False show ?thesis by (simp add: lt_iterate_def Let_def lt_angles_inv_def lt_send_def) (simp add: lt_inv_def)
qed (use assms in \<open>auto simp: lt_iterate_def\<close>)

lemma lt_step_inv:
  assumes "lt_inv s \<and> lt_angles_inv s" "lt_event_ok e" "lt_list_ok e s"
  shows "\<exists>s'. lt_step e s = Inr s' \<and> lt_inv s' \<and> lt_angles_inv s'"
proof (cases e)
  case LtIterate
  then show ?thesis using assms lt_iterate_total by simp
next
  case (LtNewWaypoints w)
  then show ?thesis using assms ProcessWaypoints_inv [of s w] by simp
next
  case (LtMode m)
  then show ?thesis using assms by (cases m) simp_all
next
  case (LtBoat p y w)
  then have "norm_angle_fits w" using assms by (intro norm_angle_fits_small) simp
  with LtBoat assms show ?thesis by (simp add: lt_handle_boat_def norm_angle_checked_def lt_inv_def lt_angles_inv_def)
qed (use assms atan2_bounds pi_less_4 in \<open>auto simp: lt_angles_inv_def intro: order_trans [OF atan2_bounds]\<close>)

interpretation tacker: guarded_machine lt_step "\<lambda>s. lt_inv s \<and> lt_angles_inv s" lt_event_ok lt_list_ok
  by unfold_locales (rule lt_step_inv)

section \<open>Properties\<close>

text \<open>Angles that differ by whole turns are equally far from zero.\<close>

lemma norm_angle_shift: "\<bar>norm_angle (x + of_int k * (2 * pi))\<bar> = \<bar>norm_angle x\<bar>"
proof -
  obtain i j :: int where i: "norm_angle x = x - of_int i * (2 * pi)"
    and j: "norm_angle (x + of_int k * (2 * pi)) = x + of_int k * (2 * pi) - of_int j * (2 * pi)"
    using norm_angle_turns by blast
  define n where "n = k + i - j"
  have eq: "norm_angle (x + of_int k * (2 * pi)) = norm_angle x + of_int n * (2 * pi)"
    unfolding i j n_def by (simp add: algebra_simps)
  have "\<bar>of_int n * (2 * pi)\<bar> \<le> 2 * pi"
    using norm_angle_in_range [of x] norm_angle_in_range [of "x + of_int k * (2 * pi)"] eq by linarith
  then have "\<bar>real_of_int n\<bar> \<le> 1" by (simp add: abs_mult)
  then have "n = -1 \<or> n = 0 \<or> n = 1" by linarith
  then show ?thesis
  proof (elim disjE)
    assume "n = -1"
    then show ?thesis
      using eq norm_angle_in_range [of x] norm_angle_in_range [of "x + of_int k * (2 * pi)"] by (simp add: abs_le_iff)
  next
    assume "n = 1"
    then show ?thesis
      using eq norm_angle_in_range [of x] norm_angle_in_range [of "x + of_int k * (2 * pi)"] by (simp add: abs_le_iff)
  qed (use eq in simp)
qed

lemma closehaul_off_wind:
  assumes "\<bar>a\<bar> \<le> pi"
  shows "\<bar>norm_angle (norm_angle (u + a) - u)\<bar> = \<bar>a\<bar>"
proof -
  obtain k :: int where k: "norm_angle (u + a) = u + a - of_int k * (2 * pi)" using norm_angle_turns by blast
  have "norm_angle (u + a) - u = a + of_int (- k) * (2 * pi)" by (simp add: k)
  then show ?thesis using norm_angle_shift [of a "- k"] norm_angle_id [OF assms] by simp
qed

lemma line_heading_off_wind:
  assumes "line_heading s a b n sc = Inr h" "0 \<le> close_haul_angle (lt_consts s)" "close_haul_angle (lt_consts s) \<le> pi"
  shows "close_haul_angle (lt_consts s) \<le> \<bar>norm_angle (h - norm_angle (lt_wind_dir s - pi))\<bar>"
proof -
  define u where "u = norm_angle (lt_wind_dir s - pi)"
  define c where "c = close_haul_angle (lt_consts s)"
  have haul: "\<bar>norm_angle (norm_angle (u + c) - u)\<bar> = c" "\<bar>norm_angle (norm_angle (u - c) - u)\<bar> = c"
    using closehaul_off_wind [of c u] closehaul_off_wind [of "- c" u] assms(2, 3) by (simp_all add: c_def)
  have "h = n \<and> c + kWindTol < \<bar>norm_angle (n - u)\<bar> \<or> h = norm_angle (u + c) \<or> h = norm_angle (u - c)"
    using assms(1) by (auto simp: line_heading_def Let_def bindr_eq_Inr u_def c_def split: if_splits)
  then show ?thesis using haul by (auto simp: kWindTol_def simp flip: u_def c_def)
qed

lemma reward_heading_valid:
  "best_heading (IsValidHeading s) r hs m n = n \<or>
   pi / 4 \<le> \<bar>norm_angle (best_heading (IsValidHeading s) r hs m n - lt_wind_dir s + pi)\<bar>"
  using best_heading_cases [of "IsValidHeading s" r hs m n] by (auto simp: IsValidHeading_def not_less)

text \<open>Which headings each mode of the tacker may command.\<close>

definition allowed_heading :: "LineTacker \<Rightarrow> real \<Rightarrow> bool" where
  "allowed_heading s h \<longleftrightarrow>
     (case lt_tack_mode s of
        LINE \<Rightarrow> (let c = close_haul_angle (lt_consts s)
                 in 0 \<le> c \<and> c \<le> pi \<longrightarrow> c \<le> \<bar>norm_angle (h - norm_angle (lt_wind_dir s - pi))\<bar>)
      | REWARD \<Rightarrow> h = lt_nominal s \<or> pi / 4 \<le> \<bar>norm_angle (h - lt_wind_dir s + pi)\<bar>
      | _ \<Rightarrow> h = lt_nominal s)"

lemma choose_heading_allowed:
  assumes "choose_heading s2 a b (lt_nominal s) sc = Inr h" "lt_tack_mode s2 = lt_tack_mode s" "lt_wind_dir s2 = lt_wind_dir s"
    "lt_consts s2 = lt_consts s"
  shows "allowed_heading s h"
proof (cases "lt_tack_mode s")
  case LINE
  then have "line_heading s2 a b (lt_nominal s) sc = Inr h" using assms(1, 2) by (simp add: choose_heading_def Let_def)
  then show ?thesis using line_heading_off_wind [of s2] assms(3, 4) LINE by (simp add: allowed_heading_def Let_def)
next
  case REWARD
  then obtain r hs where "h = best_heading (IsValidHeading s2) r hs 0 (lt_nominal s)"
    using assms(1, 2) by (auto simp: choose_heading_def Let_def simp del: best_heading.simps)
  then show ?thesis using reward_heading_valid [of s2 r hs 0 "lt_nominal s"] assms(3) REWARD by (simp add: allowed_heading_def)
qed (use assms in \<open>simp_all add: choose_heading_def Let_def allowed_heading_def\<close>)

lemma LineTacker_new_inv:
  assumes "length (lt_waypoints junk) = 10" "\<bar>apparent_wind_dir junk\<bar> \<le> 10 ^ 9"
  shows "lt_inv (LineTacker_new junk way) \<and> lt_angles_inv (LineTacker_new junk way)"
proof -
  define s0 where "s0 = junk\<lparr>lt_i := 0, msg_i_offset := 0, way_len := 0, recalc_zero := False, lt_repeat := False, cur_pos := (0, 0),
    lt_wind_dir := 0, cur_theta := 0, lt_tack_mode := TACKER_NONE, lt_heading := 0,
    lt_state_msg := \<lparr>finished = None, last_waypoint = None, near_waypoint = None\<rparr>, lt_sent := []\<rparr>"
  have s0: "lt_inv s0" "list_long_enough w (lt_send m (s0\<lparr>lt_consts := c\<rparr>))" for w m c
    using assms(1) by (simp_all add: s0_def lt_inv_def list_long_enough_def lt_send_def)
  have "lt_angles_inv (s0\<lparr>lt_consts := tacker_defaults\<rparr>)" "\<And>w s. ProcessWaypoints w s\<lparr>lt_consts := c\<rparr> = ProcessWaypoints w (s\<lparr>lt_consts := c\<rparr>)"
    "\<And>m s. lt_send m s\<lparr>lt_consts := c\<rparr> = lt_send m (s\<lparr>lt_consts := c\<rparr>)" for c
    using assms(2) by (simp_all add: lt_angles_inv_def s0_def tacker_defaults_def ProcessWaypoints_def lt_send_def Let_def)
  with s0 show ?thesis
    using ProcessWaypoints_inv by (cases way) (simp_all add: LineTacker_new_def Let_def flip: s0_def)
qed

text \<open>
  C13: A line tacker handles any messages without a fault and without leaving its arrays, if a waypoint list that is not to be started from
  its beginning has at least the waypoints already behind, and yaws, yaw rates, close-hauled angles and the apparent wind it has before the
  first message about it are below \<open>10\<^sup>9\<close>.  An iteration without waypoints, or in the disabled mode, does nothing; any other one sends,
  unless the mode is that of the line planner, one heading.  In the line mode this is at least the close-hauled angle, if that lies between
  nothing and half a turn, away from the direction the wind comes from.  In the reward mode it is an eighth of a turn away from it or, like in the
  mode without tacking, where the wind does not count, the direction of the next waypoint.
\<close>

theorem tacker_keeps_off_the_wind:
  assumes "length (lt_waypoints junk) = 10" "\<bar>apparent_wind_dir junk\<bar> \<le> 10 ^ 9"
    and "list_all lt_event_ok es" "stays lt_step lt_list_ok es (LineTacker_new junk way)"
  shows "\<exists>s s'. run_events lt_step es (LineTacker_new junk way) = Inr s \<and> lt_step LtIterate s = Inr s' \<and>
    (if way_len s = 0 \<or> lt_tack_mode s = TACKER_DISABLED then s' = s
     else \<exists>h m. lt_sent s' = lt_sent s @ [LtState m] @ (if lt_tack_mode s = LINE_PLAN then [] else [LtHeading h 0]) @ [LtConsts (lt_consts s)] \<and>
            allowed_heading s h)"
proof -
  obtain s where s: "run_events lt_step es (LineTacker_new junk way) = Inr s" "lt_inv s" "lt_angles_inv s"
    using tacker.run_good [OF LineTacker_new_inv [OF assms(1, 2)] assms(3, 4)] by blast
  show ?thesis
  proof (cases "way_len s = 0 \<or> lt_tack_mode s = TACKER_DISABLED")
    case False
    then obtain h s2 a b sc m where g: "GoalHeading s = Inr (h, s2)" "lt_tack_mode s2 = lt_tack_mode s"
      "lt_wind_dir s2 = lt_wind_dir s" "lt_consts s2 = lt_consts s" "choose_heading s2 a b (lt_nominal s) sc = Inr h"
      "lt_sent s2 = lt_sent s @ [LtState m]"
      using GoalHeading_total [OF s(2, 3)] by metis
    have "allowed_heading s h" using choose_heading_allowed g(2-5) by metis
    with s(1) g False show ?thesis
      by (cases "lt_tack_mode s") (auto simp: lt_iterate_def Let_def lt_send_def intro!: exI [of _ h])
  qed (use s(1) in \<open>auto simp: lt_iterate_def\<close>)
qed

theorem tacker_keeps_off_the_wind_witness:
  "\<forall>junk. \<exists>s s' h m. run_events lt_step [LtNewWaypoints \<lparr>points = [(0, 0), (1, 1)], restart = True, defined_start = True, repeat = False\<rparr>,
      LtMode (Some LINE), LtTrueWind (- 1) 0, LtNewWaypoints \<lparr>points = [(0, 0), (2, 0)], restart = False, defined_start = True, repeat = False\<rparr>]
      (LineTacker_new (junk\<lparr>lt_waypoints := replicate 10 (0, 0), apparent_wind_dir := 0\<rparr>) None) = Inr s \<and> lt_step LtIterate s = Inr s' \<and>
    lt_sent s' = lt_sent s @ [LtState m, LtHeading h 0, LtConsts (lt_consts s)] \<and> 9 / 10 \<le> \<bar>norm_angle h\<bar>"
proof
  fix junk :: LineTacker
  define j where "j = junk\<lparr>lt_waypoints := replicate 10 (0, 0), apparent_wind_dir := 0\<rparr>"
  define es where "es = [LtNewWaypoints \<lparr>points = [(0, 0), (1, 1)], restart = True, defined_start = True, repeat = False\<rparr>,
      LtMode (Some LINE), LtTrueWind (- 1) 0, LtNewWaypoints \<lparr>points = [(0, 0), (2, 0)], restart = False, defined_start = True, repeat = False\<rparr>]"
  have "length (lt_waypoints j) = 10" "\<bar>apparent_wind_dir j\<bar> \<le> 10 ^ 9" "list_all lt_event_ok es" by (simp_all add: j_def es_def)
  moreover have "stays lt_step lt_list_ok es (LineTacker_new j None)"
    by (simp add: es_def LineTacker_new_def list_long_enough_def ProcessWaypoints_def lt_send_def Let_def)
  ultimately have run: "\<exists>s s'. run_events lt_step es (LineTacker_new j None) = Inr s \<and> lt_step LtIterate s = Inr s' \<and>
    (if way_len s = 0 \<or> lt_tack_mode s = TACKER_DISABLED then s' = s
     else \<exists>h m. lt_sent s' = lt_sent s @ [LtState m] @ (if lt_tack_mode s = LINE_PLAN then [] else [LtHeading h 0]) @ [LtConsts (lt_consts s)] \<and>
            allowed_heading s h)"
    by (rule tacker_keeps_off_the_wind)
  have "way_len s = 2 \<and> lt_tack_mode s = LINE \<and> lt_wind_dir s = pi \<and> close_haul_angle (lt_consts s) = 9 / 10"
    if "run_events lt_step es (LineTacker_new j None) = Inr s" for s
    using that by (auto simp: es_def LineTacker_new_def ProcessWaypoints_def lt_send_def tacker_defaults_def N_WAYPOINTS_def atan2_def Let_def)
  with run pi_ge_two show "\<exists>s s' h m. run_events lt_step es (LineTacker_new j None) = Inr s \<and> lt_step LtIterate s = Inr s' \<and>
    lt_sent s' = lt_sent s @ [LtState m, LtHeading h 0, LtConsts (lt_consts s)] \<and> 9 / 10 \<le> \<bar>norm_angle h\<bar>"
    by (fastforce simp: allowed_heading_def norm_angle_id)
qed

text \<open>
  Away from lines that are nearly parallel to an axis, the distance computed from slopes and
  intercepts is the one the planner computes from the normal vector, up to its sign.
\<close>

theorem line_distances_agree:
  assumes "1 / 10 ^ 3 \<le> \<bar>snd fin - snd start\<bar>" "1 / 10 ^ 3 \<le> \<bar>fst fin - fst start\<bar>"
  shows "\<bar>DistanceFromLine start fin loc\<bar> = \<bar>DistToLine start fin loc\<bar>"
proof -
  define a b u v where "a = fst fin - fst start" and "b = snd fin - snd start" and "u = fst loc - fst fin" and "v = snd loc - snd fin"
  have nz: "a \<noteq> 0" "b \<noteq> 0" using assms by (auto simp: a_def b_def)
  define N where "N = a * a + b * b"
  have N: "N > 0" using nz(1) by (simp add: N_def sum_squares_gt_zero_iff)
  define x where "x = (snd loc - - a / b * fst loc - (snd fin - - 1 / (- a / b) * fst fin)) / (- 1 / (- a / b) - - a / b)"
  have sl: "- 1 / (- a / b) - - a / b = N / (a * b)" using nz by (simp add: N_def field_simps)
  have num: "snd loc - - a / b * fst loc - (snd fin - - 1 / (- a / b) * fst fin) = fst loc * (N / (a * b)) + (v - b / a * u)"
    using nz by (simp add: N_def u_def v_def field_simps)
  have dx: "x - fst loc = b * (a * v - b * u) / N"
    unfolding x_def sl num using nz N by (simp add: field_simps)
  have dy: "- a / b * x + (snd loc - - a / b * fst loc) - snd loc = - a * (a * v - b * u) / N"
  proof -
    have "- a / b * x + (snd loc - - a / b * fst loc) - snd loc = - a / b * (x - fst loc)" by (simp add: right_diff_distrib)
    then show ?thesis unfolding dx using nz by simp
  qed
  define q where "q = a * v - b * u"
  have "(b * q / N) * (b * q / N) + (- a * q / N) * (- a * q / N) = q\<^sup>2 * N / (N * N)"
    by (simp add: N_def power2_eq_square field_simps flip: add_divide_distrib)
  also have "\<dots> = q\<^sup>2 / N" using N by simp
  finally have sq: "sqrt ((b * q / N) * (b * q / N) + (- a * q / N) * (- a * q / N)) = \<bar>q\<bar> / sqrt N"
    by (simp add: real_sqrt_divide)
  have "\<not> \<bar>snd fin - snd start\<bar> < 1 / 10 ^ 3" "\<not> \<bar>fst fin - fst start\<bar> < 1 / 10 ^ 3" using assms by simp_all
  then have "\<bar>DistanceFromLine start fin loc\<bar> =
      \<bar>sqrt ((x - fst loc) * (x - fst loc) + (- a / b * x + (snd loc - - a / b * fst loc) - snd loc) *
        (- a / b * x + (snd loc - - a / b * fst loc) - snd loc))\<bar>"
    unfolding DistanceFromLine_def Let_def a_def b_def x_def by (simp add: abs_mult)
  also have "\<dots> = \<bar>q\<bar> / sqrt N" unfolding dx dy using sq N by (simp add: q_def)
  finally have lhs: "\<bar>DistanceFromLine start fin loc\<bar> = \<bar>q\<bar> / sqrt N" .
  have p: "psub fin start = (a, b)" by (cases fin; cases start) (simp add: a_def b_def)
  have pN: "pnorm (a, b) = sqrt N" by (simp add: pnorm_def squaredNorm_def N_def)
  have "pdot (perp (a, b)) (psub loc start) = q"
    by (cases loc; cases start; cases fin) (simp add: a_def b_def u_def v_def q_def algebra_simps)
  then have "DistToLine start fin loc * sqrt N = q" using DistToLine_times_length [of start fin loc] by (simp add: p pN)
  then have "\<bar>DistToLine start fin loc\<bar> * sqrt N = \<bar>q\<bar>" using N by (metis abs_mult abs_of_pos real_sqrt_gt_zero)
  then have "\<bar>DistToLine start fin loc\<bar> = \<bar>q\<bar> / sqrt N" using N by (simp add: eq_divide_eq)
  then show ?thesis using lhs by simp
qed

theorem line_distances_agree_witness:
  "\<bar>DistanceFromLine (0, 0) (4, 3) (5, 0)\<bar> = \<bar>DistToLine (0, 0) (4, 3) (5, 0)\<bar>"
  by (rule line_distances_agree) simp_all

text \<open>
  Positions are in degrees, so that a leg of less than a thousandth of a degree in latitude,
  about a hundred metres, counts as one along a parallel.  For a leg due north of that length the
  distance of a position beside its middle is zero, however far away it is.
\<close>

theorem short_leg_has_no_sides:
  "DistanceFromLine (0, 0) (0, 9 / 10 ^ 4) (x, 9 / 10 ^ 4 / 2) = 0 \<and>
   \<bar>DistToLine (0, 0) (0, 9 / 10 ^ 4) (x, 9 / 10 ^ 4 / 2)\<bar> = \<bar>x\<bar>"
proof -
  have "DistToLine (0, 0) (0, 9 / 10 ^ 4) (x, 9 / 10 ^ 4 / 2) * pnorm (0, 9 / 10 ^ 4) = - (9 / 10 ^ 4) * x"
    using DistToLine_times_length [of "(0, 0)" "(0, 9 / 10 ^ 4)" "(x, 9 / 10 ^ 4 / 2)"] by simp
  moreover have "pnorm (0, d) = \<bar>d\<bar>" for d by (simp add: pnorm_def squaredNorm_def)
  ultimately have "DistToLine (0, 0) (0, 9 / 10 ^ 4) (x, 9 / 10 ^ 4 / 2) = - x" by simp
  then show ?thesis by (simp add: DistanceFromLine_def)
qed

end
