(* ===== verification/Controllers.thy ===== *)
theory Controllers
  imports Control_Msgs
begin

text \<open>
  The sail and rudder controller (\<^verbatim>\<open>control/simple.cc\<close>) and the ballast controller
  (\<^verbatim>\<open>control/ballast.cc\<close>).  Both publish their part of the controller constants on one queue and
  take over constants from it that have all of their own fields.
\<close>

section \<open>Constants\<close>

record ControllerConstants =
  max_rudder :: "real option"
  rudder_kp :: "real option"
  winch_kp :: "real option"
  sail_heel_k :: "real option"
  qf :: "real option"
  rudder_ki :: "real option"
  ballast_arm_kp :: "real option"
  ballast_arm_kd :: "real option"
  ballast_arm_kff_arm :: "real option"
  ballast_arm_kff_heel :: "real option"
  ballast_heel_kp :: "real option"
  ballast_heel_ki :: "real option"
  ballast_heel_kd :: "real option"
  ballast_heel_kff_goal :: "real option"
  nominal_heel :: "real option"
  rigid_port_servo_pos :: "real option"
  rigid_starboard_servo_pos :: "real option"

definition no_constants :: ControllerConstants where
  "no_constants = \<lparr>max_rudder = None, rudder_kp = None, winch_kp = None, sail_heel_k = None, qf = None, rudder_ki = None,
     ballast_arm_kp = None, ballast_arm_kd = None, ballast_arm_kff_arm = None, ballast_arm_kff_heel = None,
     ballast_heel_kp = None, ballast_heel_ki = None, ballast_heel_kd = None, ballast_heel_kff_goal = None,
     nominal_heel = None, rigid_port_servo_pos = None, rigid_starboard_servo_pos = None\<rparr>"

section \<open>Sail and rudder\<close>

text \<open>The part of the boat's state that the controller reads.\<close>

record SimpleBoat =
  sb_vel_x :: real
  sb_vel_y :: real
  sb_yaw :: real
  sb_roll :: real
  sb_sail :: real
  sb_rudder :: real

text \<open>A sail voltage that is not a number is \<open>None\<close>.\<close>

datatype SimpleOut = OutSail "real option" real | OutRigid "int option" | OutRudder real real | OutHeel real
  | OutConsts ControllerConstants

record SimpleControl =
  do_rudder :: bool
  sc_boat :: SimpleBoat
  sc_constants :: ControllerConstants
  sc_counter :: int
  sc_heading :: real
  sc_extra_sail :: real
  wind_x :: real
  wind_y :: real
  auto_rigid_wing :: bool
  rudder_integrator :: real
  servo_pos :: "int option"
  simple_sent :: "SimpleOut list"

definition simple_constants :: ControllerConstants where
  "simple_constants = no_constants\<lparr>max_rudder := Some (1 / 2), rudder_kp := Some (1 / 2), rudder_ki := Some (2 / 100),
     winch_kp := Some 13, sail_heel_k := Some 0, nominal_heel := Some 0, rigid_port_servo_pos := Some 15,
     rigid_starboard_servo_pos := Some 85\<rparr>"

definition SimpleControl_new :: "bool \<Rightarrow> SimpleControl" where
  "SimpleControl_new rudder =
     \<lparr>do_rudder = rudder, sc_boat = \<lparr>sb_vel_x = 0, sb_vel_y = 0, sb_yaw = 0, sb_roll = 0, sb_sail = 0, sb_rudder = 0\<rparr>,
      sc_constants = simple_constants, sc_counter = 0, sc_heading = 0, sc_extra_sail = 0, wind_x = 0, wind_y = 0,
      auto_rigid_wing = True, rudder_integrator = 0, servo_pos = None, simple_sent = [OutConsts simple_constants]\<rparr>"

definition simple_handle_consts :: "ControllerConstants \<Rightarrow> SimpleControl \<Rightarrow> SimpleControl" where
  "simple_handle_consts m s =
     (if max_rudder m \<noteq> None \<and> rudder_kp m \<noteq> None \<and> winch_kp m \<noteq> None \<and> sail_heel_k m \<noteq> None \<and>
         rigid_port_servo_pos m \<noteq> None \<and> rigid_starboard_servo_pos m \<noteq> None \<and> nominal_heel m \<noteq> None
      then s\<lparr>sc_constants := m\<rparr> else s)"

definition simple_handle_heading :: "HeadingCmd \<Rightarrow> SimpleControl \<Rightarrow> SimpleControl" where
  "simple_handle_heading m s =
     s\<lparr>sc_heading := get_or (sc_heading s) (heading m), sc_extra_sail := get_or (sc_extra_sail s) (extra_sail m),
       rudder_integrator := 0\<rparr>"

definition simple_handle_mode :: "ControlMode \<Rightarrow> SimpleControl \<Rightarrow> SimpleControl" where
  "simple_handle_mode m s = (case rigid_mode m of None \<Rightarrow> s | Some r \<Rightarrow> s\<lparr>auto_rigid_wing := (r = AUTO)\<rparr>)"

definition simple_handle_sbus :: "int list \<Rightarrow> SimpleControl \<Rightarrow> SimpleControl res" where
  "simple_handle_sbus channels s =
     bindr (nth_checked channels 1) (\<lambda>c. bindr (to_int32 (of_int c * 100 / 2050)) (\<lambda>v. Inr (s\<lparr>servo_pos := Some v\<rparr>)))"

definition simple_send :: "SimpleOut \<Rightarrow> SimpleControl \<Rightarrow> SimpleControl" where
  "simple_send m s = s\<lparr>simple_sent := simple_sent s @ [m]\<rparr>"

definition simple_alphaw :: "SimpleControl \<Rightarrow> real" where
  "simple_alphaw s = norm_angle (atan2 (wind_y s) (- wind_x s))"

definition wind_source_dir :: "SimpleControl \<Rightarrow> real" where
  "wind_source_dir s = atan2 (- wind_y s) (- wind_x s)"

definition heading_err :: "SimpleControl \<Rightarrow> real" where
  "heading_err s = norm_angle (sc_heading s - sb_yaw (sc_boat s))"

definition sail_goal :: "SimpleControl \<Rightarrow> real" where
  "sail_goal s =
     (let alphaw = simple_alphaw s;
          turning_sail = (if alphaw > 0 then 1 else -1) * (9 / 10) * Clip (heading_err s) (- 1 / 2) (1 / 2)
      in min (max (\<bar>alphaw\<bar> - 8 / 10) 0) (3 / 2) + get_or 0 (sail_heel_k (sc_constants s)) * \<bar>sb_roll (sc_boat s)\<bar> +
         sc_extra_sail s + turning_sail)"

definition sail_voltage :: "real \<Rightarrow> SimpleControl \<Rightarrow> real option" where
  "sail_voltage goal s =
     (let sail_err = norm_angle (goal - sb_sail (sc_boat s))
      in if sail_err = 0 then None else Some (get_or 0 (winch_kp (sc_constants s)) * sail_err / sqrt \<bar>sail_err\<bar>))"

definition set_wing :: "SimpleControl \<Rightarrow> SimpleControl res" where
  "set_wing s =
     (if auto_rigid_wing s
      then bindr (to_int32 (get_or 0 (if wind_source_dir s > 0 then rigid_port_servo_pos (sc_constants s)
                                      else rigid_starboard_servo_pos (sc_constants s))))
             (\<lambda>v. Inr (s\<lparr>servo_pos := Some v\<rparr>))
      else Inr s)"

text \<open>The rudder, with the integral part that is limited and started anew with each heading command.\<close>

definition rudder_limit :: "SimpleControl \<Rightarrow> real" where
  "rudder_limit s =
     (let vx = sb_vel_x (sc_boat s); vy = sb_vel_y (sc_boat s); vel = sqrt (vx * vx + vy * vy); m = get_or 0 (max_rudder (sc_constants s))
      in if vel < 0 then 3 / 10 else if vel < 1 then m else 8 / 10 * m)"

definition integrate_error :: "SimpleControl \<Rightarrow> SimpleControl" where
  "integrate_error s = s\<lparr>rudder_integrator := Clip (rudder_integrator s + heading_err s * (1 / 100)) (- 3 / 2) (3 / 2)\<rparr>"

definition goal_rudder :: "SimpleControl \<Rightarrow> real" where
  "goal_rudder s =
     - Clip (get_or 0 (rudder_kp (sc_constants s)) * heading_err s + get_or 0 (rudder_ki (sc_constants s)) * rudder_integrator s)
         (- rudder_limit s) (rudder_limit s)"

definition simple_iterate :: "SimpleControl \<Rightarrow> SimpleControl res" where
  "simple_iterate s0 =
     (let s1 = s0\<lparr>sc_counter := sc_counter s0 + 1\<rparr>;
          goal = sail_goal s1;
          voltage = sail_voltage goal s1
      in bindr (set_wing s1) (\<lambda>s2.
           let s3 = integrate_error s2;
               rudder = goal_rudder s3;
               s4 = simple_send (OutSail voltage goal) s3;
               s5 = (if auto_rigid_wing s4 \<and> sc_counter s4 mod 10 = 0 then simple_send (OutRigid (servo_pos s4)) s4 else s4);
               s6 = (if do_rudder s5 then simple_send (OutRudder rudder (1 * (rudder - sb_rudder (sc_boat s5)))) s5 else s5);
               s7 = (if \<bar>simple_alphaw s6\<bar> > 14 / 10
                     then simple_send (OutHeel (get_or 0 (nominal_heel (sc_constants s6)) * of_int (Sign (wind_source_dir s6)))) s6 else s6)
           in Inr (if sc_counter s7 mod 100 = 0 then simple_send (OutConsts (sc_constants s7)) s7 else s7)))"

text \<open>The angles that an iteration normalises; the step of the node checks that their turns fit an \<^verbatim>\<open>int\<close>.\<close>

definition simple_angles :: "SimpleControl \<Rightarrow> real list" where
  "simple_angles s =
     [sc_heading s - sb_yaw (sc_boat s), atan2 (wind_y s) (- wind_x s), sail_goal s - sb_sail (sc_boat s)]"

datatype SimpleEvent = SimpleBoatState SimpleBoat | SimpleConsts ControllerConstants | SimpleWind real real
  | SimpleHeading HeadingCmd | SimpleMode ControlMode | SimpleSbus "int list" | SimpleIterate

primrec simple_step :: "SimpleEvent \<Rightarrow> SimpleControl \<Rightarrow> SimpleControl res" where
  "simple_step (SimpleBoatState b) s = Inr (s\<lparr>sc_boat := b\<rparr>)"
| "simple_step (SimpleConsts c) s = Inr (simple_handle_consts c s)"
| "simple_step (SimpleWind x y) s = Inr (s\<lparr>wind_x := x, wind_y := y\<rparr>)"
| "simple_step (SimpleHeading h) s = Inr (simple_handle_heading h s)"
| "simple_step (SimpleMode m) s = Inr (simple_handle_mode m s)"
| "simple_step (SimpleSbus c) s = simple_handle_sbus c s"
| "simple_step SimpleIterate s = (if list_all norm_angle_fits (simple_angles s) then simple_iterate s else Inl BadCast)"

section \<open>Ballast\<close>

record BallastControl =
  bc_constants :: ControllerConstants
  heel_goal :: real
  heel :: real
  heel_dot :: real
  ballast :: real
  ballast_dot :: real
  heel_error_integrator :: real
  last_voltage :: real
  bc_counter :: int
  voltages :: "real list"
  sent_constants :: "ControllerConstants list"

definition ballast_constants :: ControllerConstants where
  "ballast_constants = no_constants\<lparr>ballast_heel_kp := Some (1 / 4), ballast_heel_ki := Some (5 / 100), ballast_heel_kd := Some 0,
     ballast_heel_kff_goal := Some (1 / 10), ballast_arm_kp := Some 40, ballast_arm_kd := Some 0,
     ballast_arm_kff_arm := Some 0, ballast_arm_kff_heel := Some 0\<rparr>"

definition BallastControl_new :: BallastControl where
  "BallastControl_new = \<lparr>bc_constants = ballast_constants, heel_goal = 0, heel = 0, heel_dot = 0, ballast = 0, ballast_dot = 0,
     heel_error_integrator = 0, last_voltage = 0, bc_counter = 0, voltages = [], sent_constants = [ballast_constants]\<rparr>"

definition ballast_handle_consts :: "ControllerConstants \<Rightarrow> BallastControl \<Rightarrow> BallastControl" where
  "ballast_handle_consts m s =
     (if ballast_heel_kp m \<noteq> None \<and> ballast_heel_ki m \<noteq> None \<and> ballast_heel_kd m \<noteq> None \<and> ballast_arm_kp m \<noteq> None \<and>
         ballast_arm_kd m \<noteq> None \<and> ballast_arm_kff_arm m \<noteq> None \<and> ballast_arm_kff_heel m \<noteq> None \<and> ballast_heel_kff_goal m \<noteq> None
      then let s1 = (if \<bar>get_or 0 (ballast_heel_ki m) - get_or 0 (ballast_heel_ki (bc_constants s))\<bar> > 1 / 10 ^ 3
                     then s\<lparr>heel_error_integrator := 0\<rparr> else s)
           in s1\<lparr>bc_constants := m\<rparr>
      else s)"

definition ballast_handle_heading :: "HeadingCmd \<Rightarrow> BallastControl \<Rightarrow> BallastControl" where
  "ballast_handle_heading m s =
     (case heading m of None \<Rightarrow> s
      | Some cmd \<Rightarrow>
          let s1 = (if cmd = 0 then s\<lparr>heel_error_integrator := 0\<rparr>
                    else if Sign cmd \<noteq> Sign (heel_goal s) then s\<lparr>heel_error_integrator := - heel_error_integrator s\<rparr> else s)
          in s1\<lparr>heel_goal := cmd\<rparr>)"

definition ballast_voltage :: "BallastControl \<Rightarrow> real" where
  "ballast_voltage s =
     (let c = bc_constants s;
          heel_error = norm_angle (heel_goal s - heel s);
          dheel_error = - heel_dot s;
          ballast_goal = Clip (get_or 0 (ballast_heel_kp c) * heel_error + get_or 0 (ballast_heel_ki c) * heel_error_integrator s +
                           get_or 0 (ballast_heel_kd c) * dheel_error + get_or 0 (ballast_heel_kff_goal c) * heel_goal s)
                           (- 12 / 10) (12 / 10);
          error0 = ballast_goal - ballast s;
          dballast_error = - ballast_dot s;
          deadband = 0;
          ballast_error = (if error0 > 0 then max 0 (error0 - deadband) else min 0 (error0 + deadband));
          voltage = Clip (get_or 0 (ballast_arm_kp c) * ballast_error + get_or 0 (ballast_arm_kd c) * dballast_error -
                      get_or 0 (ballast_arm_kff_arm c) * ballast s - get_or 0 (ballast_arm_kff_heel c) * heel s) (- 12) 12;
          voltage_deadband = (if last_voltage s = 0 then 35 / 10 else 15 / 10)
      in if \<bar>ballast_error\<bar> < 1 / 10 ^ 3 \<or> \<bar>ballast s\<bar> > 15 / 10 \<or> \<bar>voltage\<bar> < voltage_deadband then 0 else voltage)"

definition ballast_iterate :: "BallastControl \<Rightarrow> BallastControl" where
  "ballast_iterate s0 =
     (let heel_error = norm_angle (heel_goal s0 - heel s0);
          s1 = s0\<lparr>heel_error_integrator := Clip (heel_error_integrator s0 + heel_error * (1 / 100)) (- 5) 5\<rparr>;
          v = ballast_voltage s1;
          s2 = s1\<lparr>last_voltage := v, voltages := voltages s1 @ [v], bc_counter := bc_counter s1 + 1\<rparr>
      in if bc_counter s2 mod 110 = 0 then s2\<lparr>sent_constants := sent_constants s2 @ [bc_constants s2]\<rparr> else s2)"

datatype BallastEvent = BallastConsts ControllerConstants | BallastMode ControlMode | BallastHeading HeadingCmd
  | BallastBoat real real real real | BallastIterate

primrec ballast_step :: "BallastEvent \<Rightarrow> BallastControl \<Rightarrow> BallastControl res" where
  "ballast_step (BallastConsts c) s = Inr (ballast_handle_consts c s)"
| "ballast_step (BallastMode m) s = Inr (if ballast_mode m \<noteq> None then s\<lparr>heel_error_integrator := 0\<rparr> else s)"
| "ballast_step (BallastHeading h) s = Inr (ballast_handle_heading h s)"
| "ballast_step (BallastBoat yaw omega_z b bdot) s = Inr (s\<lparr>heel := yaw, heel_dot := omega_z, ballast := b, ballast_dot := bdot\<rparr>)"
| "ballast_step BallastIterate s = Inr (ballast_iterate s)"

declare simple_constants_def [node_init] SimpleControl_new_def [node_init] BallastControl_new_def [node_init]

section \<open>Properties\<close>

lemma Clip_bounds: "lo \<le> hi \<Longrightarrow> lo \<le> Clip a lo hi \<and> Clip a lo hi \<le> hi"
  by (auto simp: Clip_def)

lemma Clip_abs: "0 \<le> m \<Longrightarrow> \<bar>Clip a (- m) m\<bar> \<le> m"
  using Clip_bounds [of "- m" m a] by (simp add: abs_le_iff)

text \<open>The voltages of a motor that is only switched on with force and never driven beyond its limit.\<close>

definition volt_ok :: "real \<Rightarrow> real \<Rightarrow> bool" where
  "volt_ok prev v \<longleftrightarrow> \<bar>v\<bar> \<le> 12 \<and> (v = 0 \<or> (if prev = 0 then 35 / 10 else 15 / 10) \<le> \<bar>v\<bar>)"

fun volts_ok :: "real \<Rightarrow> real list \<Rightarrow> bool" where
  "volts_ok prev [] = True"
| "volts_ok prev (v # vs) = (volt_ok prev v \<and> volts_ok v vs)"

lemma volts_ok_snoc: "volts_ok p (vs @ [v]) \<longleftrightarrow> volts_ok p vs \<and> volt_ok (last (p # vs)) v"
  by (induction p vs rule: volts_ok.induct) auto

lemma ballast_voltage_ok: "volt_ok (last_voltage s) (ballast_voltage s)"
proof -
  have "\<bar>Clip a (- 12) 12\<bar> \<le> 12" for a using Clip_abs [of 12 a] by simp
  then show ?thesis unfolding volt_ok_def ballast_voltage_def Let_def by auto
qed

definition ballast_inv :: "BallastControl \<Rightarrow> bool" where
  "ballast_inv s \<longleftrightarrow> \<bar>heel_error_integrator s\<bar> \<le> 5 \<and> volts_ok 0 (voltages s) \<and> last_voltage s = last (0 # voltages s)"

lemma ballast_iterate_inv:
  assumes "ballast_inv s"
  shows "ballast_inv (ballast_iterate s)"
proof -
  define s1 where "s1 = s\<lparr>heel_error_integrator := Clip (heel_error_integrator s + norm_angle (heel_goal s - heel s) * (1 / 100)) (- 5) 5\<rparr>"
  have "\<bar>heel_error_integrator s1\<bar> \<le> 5"
    using Clip_abs [of 5 "heel_error_integrator s + norm_angle (heel_goal s - heel s) * (1 / 100)"] by (simp add: s1_def)
  moreover have "volts_ok 0 (voltages s @ [ballast_voltage s1])"
    using assms ballast_voltage_ok [of s1] by (simp add: volts_ok_snoc ballast_inv_def s1_def)
  ultimately show ?thesis
    by (simp add: ballast_iterate_def Let_def ballast_inv_def flip: s1_def) (simp add: s1_def)
qed

lemma ballast_step_inv: "ballast_inv s \<Longrightarrow> \<exists>s'. ballast_step e s = Inr s' \<and> ballast_inv s'"
  using ballast_iterate_inv
  by (cases e) (auto simp: ballast_inv_def ballast_handle_consts_def ballast_handle_heading_def Let_def split: option.splits)

interpretation ballast_node: node_machine ballast_step ballast_inv "\<lambda>_. True"
  by unfold_locales (rule ballast_step_inv)

text \<open>
  C16: Whatever messages the ballast controller gets, its integrator stays within five, the voltages it
  sends stay within twelve volts, a motor at rest is started with at least 3.5 volts and one that
  runs is kept running with at least 1.5 volts, and an arm whose position is out of its range is
  not driven.
\<close>

theorem ballast_voltages_safe:
  "\<exists>s. run_events ballast_step es BallastControl_new = Inr s \<and> \<bar>heel_error_integrator s\<bar> \<le> 5 \<and> volts_ok 0 (voltages s) \<and>
    (15 / 10 < \<bar>ballast s\<bar> \<longrightarrow> voltages (ballast_iterate s) = voltages s @ [0])"
proof -
  have "ballast_inv BallastControl_new" by (simp add: ballast_inv_def node_init)
  then obtain s where "run_events ballast_step es BallastControl_new = Inr s" "ballast_inv s"
    using ballast_node.run_inv [of BallastControl_new es] by (auto simp: list_all_iff)
  moreover have "voltages (ballast_iterate s) = voltages s @ [0]" if "15 / 10 < \<bar>ballast s\<bar>"
    using that by (simp add: ballast_iterate_def Let_def ballast_voltage_def)
  ultimately show ?thesis by (auto simp: ballast_inv_def)
qed

theorem ballast_voltages_safe_witness:
  "\<exists>s. run_events ballast_step [BallastBoat 0 0 2 0] BallastControl_new = Inr s \<and> voltages (ballast_iterate s) = [0]"
  using ballast_voltages_safe [of "[BallastBoat 0 0 2 0]"] by (simp add: BallastControl_new_def)

text \<open>The sail and rudder controller.\<close>

definition constants_ok :: "real \<Rightarrow> ControllerConstants \<Rightarrow> bool" where
  "constants_ok M c \<longleftrightarrow> 0 \<le> get_or 0 (max_rudder c) \<and> get_or 0 (max_rudder c) \<le> M \<and>
     \<bar>get_or 0 (winch_kp c)\<bar> \<le> 10 ^ 5 \<and> \<bar>get_or 0 (sail_heel_k c)\<bar> \<le> 10 ^ 3 \<and>
     \<bar>get_or 0 (rigid_port_servo_pos c)\<bar> < 2 ^ 31 \<and> \<bar>get_or 0 (rigid_starboard_servo_pos c)\<bar> < 2 ^ 31"

text \<open>Angles of at most a million radians, which keep every count of turns small.\<close>

definition boat_angles_ok :: "SimpleBoat \<Rightarrow> bool" where
  "boat_angles_ok b \<longleftrightarrow> \<bar>sb_yaw b\<bar> \<le> 10 ^ 6 \<and> \<bar>sb_roll b\<bar> \<le> 10 ^ 6 \<and> \<bar>sb_sail b\<bar> \<le> 10 ^ 6"

definition angles_inv :: "SimpleControl \<Rightarrow> bool" where
  "angles_inv s \<longleftrightarrow> boat_angles_ok (sc_boat s) \<and> \<bar>sc_heading s\<bar> \<le> 10 ^ 6 \<and> \<bar>sc_extra_sail s\<bar> \<le> 10 ^ 6 \<and>
     \<bar>get_or 0 (sail_heel_k (sc_constants s))\<bar> \<le> 10 ^ 3"

definition simple_inv :: "real \<Rightarrow> SimpleControl \<Rightarrow> bool" where
  "simple_inv M s \<longleftrightarrow> angles_inv s \<and> constants_ok M (sc_constants s) \<and> \<bar>rudder_integrator s\<bar> \<le> 3 / 2 \<and>
     (\<forall>p v. OutRudder p v \<in> set (simple_sent s) \<longrightarrow> \<bar>p\<bar> \<le> M) \<and>
     (\<forall>v g. OutSail (Some v) g \<in> set (simple_sent s) \<longrightarrow> \<bar>v\<bar> \<le> 10 ^ 6)"

definition heading_angles_ok :: "HeadingCmd \<Rightarrow> bool" where
  "heading_angles_ok h \<longleftrightarrow> \<bar>get_or 0 (heading h)\<bar> \<le> 10 ^ 6 \<and> \<bar>get_or 0 (extra_sail h)\<bar> \<le> 10 ^ 6"

primrec simple_event_ok :: "real \<Rightarrow> SimpleEvent \<Rightarrow> bool" where
  "simple_event_ok M (SimpleBoatState b) = boat_angles_ok b"
| "simple_event_ok M (SimpleConsts c) = constants_ok M c"
| "simple_event_ok M (SimpleWind x y) = True"
| "simple_event_ok M (SimpleHeading h) = heading_angles_ok h"
| "simple_event_ok M (SimpleMode m) = True"
| "simple_event_ok M (SimpleSbus c) = (2 \<le> length c \<and> 0 \<le> c ! 1 \<and> c ! 1 < 2048)"
| "simple_event_ok M SimpleIterate = True"

lemma abs_Clip_half: "\<bar>Clip a (- 1 / 2) (1 / 2)\<bar> \<le> 1 / 2"
  using Clip_abs [of "1 / 2" a] by simp

lemma sail_goal_bound:
  assumes "angles_inv s"
  shows "\<bar>sail_goal s\<bar> \<le> 2 * 10 ^ 9"
proof -
  define a where "a = min (max (\<bar>simple_alphaw s\<bar> - 8 / 10) 0) (3 / 2)"
  define k where "k = get_or 0 (sail_heel_k (sc_constants s)) * \<bar>sb_roll (sc_boat s)\<bar>"
  define t where "t = (if simple_alphaw s > 0 then 1 else -1) * (9 / 10) * Clip (heading_err s) (- 1 / 2) (1 / 2)"
  have "\<bar>k\<bar> \<le> 10 ^ 3 * 10 ^ 6"
    using assms unfolding k_def abs_mult by (intro mult_mono) (simp_all add: angles_inv_def boat_angles_ok_def)
  moreover have "\<bar>a\<bar> \<le> 3 / 2" unfolding a_def by linarith
  moreover have "\<bar>t\<bar> \<le> 1" using abs_Clip_half [of "heading_err s"] by (auto simp: t_def)
  moreover have "sail_goal s = a + k + sc_extra_sail s + t" by (simp add: sail_goal_def a_def k_def t_def Let_def)
  ultimately show ?thesis using assms unfolding angles_inv_def by (simp add: abs_le_iff) linarith
qed

lemma simple_angles_fit:
  assumes "angles_inv s"
  shows "list_all norm_angle_fits (simple_angles s)"
proof -
  have "norm_angle_fits (sc_heading s - sb_yaw (sc_boat s))" "norm_angle_fits (sail_goal s - sb_sail (sc_boat s))"
    using assms sail_goal_bound [OF assms]
    by (auto intro!: norm_angle_fits_small simp: angles_inv_def boat_angles_ok_def)
  moreover have "norm_angle_fits (atan2 (wind_y s) (- wind_x s))"
    using atan2_bounds [of "wind_y s" "- wind_x s"] pi_less_4 by (intro norm_angle_fits_small) simp
  ultimately show ?thesis by (simp add: simple_angles_def)
qed

lemma sail_voltage_bound:
  assumes "sail_voltage goal s = Some v" "\<bar>get_or 0 (winch_kp (sc_constants s))\<bar> \<le> 10 ^ 5"
  shows "\<bar>v\<bar> \<le> 10 ^ 6"
proof -
  define e where "e = norm_angle (goal - sb_sail (sc_boat s))"
  have e: "\<bar>e\<bar> \<le> 4" using norm_angle_in_range [of "goal - sb_sail (sc_boat s)"] pi_less_4 by (simp add: e_def)
  have v: "e \<noteq> 0" "v = get_or 0 (winch_kp (sc_constants s)) * e / sqrt \<bar>e\<bar>"
    using assms(1) by (simp_all add: sail_voltage_def Let_def e_def split: if_splits)
  have "\<bar>e\<bar> / sqrt \<bar>e\<bar> = sqrt \<bar>e\<bar>" by (simp add: real_div_sqrt)
  also have "\<dots> \<le> sqrt 4" using e by (simp only: real_sqrt_le_iff)
  finally have "\<bar>get_or 0 (winch_kp (sc_constants s))\<bar> * (\<bar>e\<bar> / sqrt \<bar>e\<bar>) \<le> 10 ^ 5 * 2"
    using assms(2) by (intro mult_mono) simp_all
  then show ?thesis by (simp add: v(2) abs_mult abs_divide)
qed

lemma rudder_limit_bounds: "constants_ok M (sc_constants s) \<Longrightarrow> 0 \<le> rudder_limit s \<and> rudder_limit s \<le> M"
  by (auto simp: rudder_limit_def constants_ok_def Let_def not_less not_sum_squares_lt_zero)

lemma goal_rudder_bound:
  assumes "constants_ok M (sc_constants s)"
  shows "\<bar>goal_rudder s\<bar> \<le> M"
proof -
  have "\<bar>Clip a (- rudder_limit s) (rudder_limit s)\<bar> \<le> M" for a
    using rudder_limit_bounds [OF assms] Clip_abs [of "rudder_limit s" a] by linarith
  then show ?thesis by (simp add: goal_rudder_def)
qed

lemma set_wing_total:
  assumes "simple_inv M s"
  shows "\<exists>s'. set_wing s = Inr s' \<and> (s' = s \<or> (\<exists>v. s' = s\<lparr>servo_pos := v\<rparr>))"
  using assms by (auto simp: set_wing_def simple_inv_def constants_ok_def to_int32_small)

lemma simple_send_inv:
  "simple_inv M s \<Longrightarrow> (\<And>p v. m = OutRudder p v \<Longrightarrow> \<bar>p\<bar> \<le> M) \<Longrightarrow> (\<And>v g. m = OutSail (Some v) g \<Longrightarrow> \<bar>v\<bar> \<le> 10 ^ 6) \<Longrightarrow>
    simple_inv M (simple_send m s)"
  by (auto simp: simple_inv_def simple_send_def angles_inv_def)

lemma simple_send_constants [simp]: "sc_constants (simple_send m s) = sc_constants s"
  by (simp add: simple_send_def)

lemma simple_iterate_inv:
  assumes "simple_inv M s"
  shows "\<exists>s'. simple_iterate s = Inr s' \<and> simple_inv M s'"
proof -
  have s1: "simple_inv M (s\<lparr>sc_counter := sc_counter s + 1\<rparr>)" using assms by (simp add: simple_inv_def angles_inv_def)
  then obtain s2 where s2: "set_wing (s\<lparr>sc_counter := sc_counter s + 1\<rparr>) = Inr s2" "simple_inv M s2"
    using set_wing_total [OF s1] by (auto simp: simple_inv_def angles_inv_def)
  have kp: "\<bar>get_or 0 (winch_kp (sc_constants (s\<lparr>sc_counter := sc_counter s + 1\<rparr>)))\<bar> \<le> 10 ^ 5"
    using s1 by (simp add: simple_inv_def constants_ok_def)
  have s3: "simple_inv M (integrate_error s2)" "sc_constants (integrate_error s2) = sc_constants s2"
    using s2(2) Clip_abs [of "3 / 2"] by (simp_all add: simple_inv_def angles_inv_def integrate_error_def)
  then have rudder: "\<bar>goal_rudder (integrate_error s2)\<bar> \<le> M" by (intro goal_rudder_bound) (simp add: simple_inv_def)
  show ?thesis
    unfolding simple_iterate_def Let_def s2(1) bindr_simps
    by (rule exI, rule conjI, rule refl) (auto intro!: simple_send_inv s3(1) intro: sail_voltage_bound [OF _ kp] simp: rudder)
qed

lemma simple_step_inv:
  assumes "simple_inv M s" "simple_event_ok M e"
  shows "\<exists>s'. simple_step e s = Inr s' \<and> simple_inv M s'"
proof (cases e)
  case (SimpleSbus c)
  then have "\<bar>real_of_int (c ! 1) * 100 / 2050\<bar> < 2 ^ 31" using assms(2) by (simp add: abs_less_iff)
  then show ?thesis
    using SimpleSbus assms by (simp add: simple_handle_sbus_def nth_checked_def to_int32_small simple_inv_def angles_inv_def)
next
  case (SimpleMode m)
  then show ?thesis using assms by (cases "rigid_mode m") (simp_all add: simple_handle_mode_def simple_inv_def angles_inv_def)
next
  case (SimpleHeading h)
  then show ?thesis
    using assms by (cases "heading h"; cases "extra_sail h") (auto simp: simple_handle_heading_def heading_angles_ok_def simple_inv_def angles_inv_def)
next
  case SimpleIterate
  then show ?thesis using assms simple_iterate_inv simple_angles_fit by (simp add: simple_inv_def)
qed (use assms in \<open>auto simp: simple_handle_consts_def simple_inv_def angles_inv_def constants_ok_def\<close>)

interpretation sailor: node_machine simple_step "simple_inv M" "simple_event_ok M" for M
  by unfold_locales (rule simple_step_inv)

text \<open>
  C17: For messages in range the controller does not fault, in particular no count of turns overflows, its integrator stays within 1.5 and every rudder
  command is within \<open>M\<close> of the middle.  In range are radio messages with at least two channels, the second between 0 and 2047, yaw, roll, sail angle,
  commanded heading and extra sail of at most a million radians, and constants with a largest rudder angle between 0 and \<open>M\<close>,
  a gain of the winch of at most 100000, one of the heel of at most 1000, and servo positions that fit an \<^verbatim>\<open>int\<close>; \<open>M\<close> is at least the default of half a radian.
\<close>

theorem rudder_commands_bounded:
  assumes "1 / 2 \<le> M" "list_all (simple_event_ok M) es"
  shows "\<exists>s. run_events simple_step es (SimpleControl_new r) = Inr s \<and> \<bar>rudder_integrator s\<bar> \<le> 3 / 2 \<and>
    (\<forall>p v. OutRudder p v \<in> set (simple_sent s) \<longrightarrow> \<bar>p\<bar> \<le> M)"
proof -
  have "simple_inv M (SimpleControl_new r)"
    using assms(1) by (simp add: simple_inv_def angles_inv_def boat_angles_ok_def constants_ok_def node_init)
  from sailor.run_inv [OF this assms(2)] show ?thesis by (auto simp: simple_inv_def)
qed

theorem rudder_commands_bounded_witness:
  "\<exists>s. run_events simple_step [SimpleWind 1 0, SimpleHeading \<lparr>heading = Some 1, extra_sail = None\<rparr>, SimpleIterate, SimpleSbus [0, 2047]]
      (SimpleControl_new True) = Inr s \<and> (\<forall>p v. OutRudder p v \<in> set (simple_sent s) \<longrightarrow> \<bar>p\<bar> \<le> 1 / 2)"
proof -
  have ok: "list_all (simple_event_ok (1 / 2)) [SimpleWind 1 0, SimpleHeading \<lparr>heading = Some 1, extra_sail = None\<rparr>, SimpleIterate, SimpleSbus [0, 2047]]"
    by (simp add: heading_angles_ok_def)
  show ?thesis using rudder_commands_bounded [OF order_refl ok] by blast
qed

text \<open>A sail that is exactly where it should be gets a voltage that is not a number.\<close>

theorem sail_at_goal_gets_nan:
  "\<exists>s. run_events simple_step [SimpleWind (- 1) 0, SimpleIterate] (SimpleControl_new r) = Inr s \<and> OutSail None 0 \<in> set (simple_sent s)"
proof -
  define s1 where "s1 = (SimpleControl_new r)\<lparr>wind_x := - 1, wind_y := 0\<rparr>"
  define s2 where "s2 = s1\<lparr>sc_counter := sc_counter s1 + 1\<rparr>"
  have goal: "sail_goal s2 = 0" "sail_voltage 0 s2 = None"
    by (simp_all add: s2_def s1_def SimpleControl_new_def sail_goal_def simple_alphaw_def heading_err_def Let_def Clip_def
        simple_constants_def atan2_def norm_angle_id sail_voltage_def)
  have "\<exists>s. simple_iterate s1 = Inr s \<and> OutSail None 0 \<in> set (simple_sent s)"
  proof -
    have "simple_inv (1 / 2) s2"
      by (simp add: simple_inv_def angles_inv_def boat_angles_ok_def s2_def s1_def SimpleControl_new_def simple_constants_def constants_ok_def)
    then obtain s3 where "set_wing s2 = Inr s3" using set_wing_total by blast
    then show ?thesis
      by (auto simp: simple_iterate_def Let_def goal simple_send_def simp flip: s2_def)
  qed
  moreover have "list_all norm_angle_fits (simple_angles s1)"
    by (rule simple_angles_fit) (simp add: angles_inv_def boat_angles_ok_def s1_def SimpleControl_new_def simple_constants_def)
  ultimately show ?thesis by (auto simp: s1_def)
qed

end
