(* ===== verification/Adaptive.thy ===== *)
theory Adaptive
  imports Controllers
begin

text \<open>
  The adaptive controller (\<^verbatim>\<open>control/adaptive.cc\<close>): a model of the forces on sail, keel and rudder,
  a search for the sail angle with the best force for a wanted torque, and the adaptation of the
  model's parameters.  A division by zero gives an infinity or a value that is not a number.
\<close>

section \<open>Floating-point results of a division\<close>

datatype xreal = Fin real | PosInf | NegInf | NotANumber

text \<open>\<^verbatim>\<open>std::min\<close> and \<^verbatim>\<open>std::max\<close> with a finite second argument; they return the first argument when it is not a number.\<close>

fun xmin :: "xreal \<Rightarrow> real \<Rightarrow> xreal" where
  "xmin (Fin x) m = Fin (min x m)"
| "xmin PosInf m = Fin m"
| "xmin NegInf m = NegInf"
| "xmin NotANumber m = NotANumber"

fun xmax :: "xreal \<Rightarrow> real \<Rightarrow> xreal" where
  "xmax (Fin x) m = Fin (max x m)"
| "xmax PosInf m = PosInf"
| "xmax NegInf m = Fin m"
| "xmax NotANumber m = NotANumber"

text \<open>
  A quotient whose divisor is a product, less a finite number.  A product that is zero is the negative zero when an odd number of
  its factors is negative; a factor that is itself zero is taken to be the positive one.
\<close>

definition xdiv_product :: "real \<Rightarrow> real list \<Rightarrow> real \<Rightarrow> xreal" where
  "xdiv_product a bs c =
     (if prod_list bs \<noteq> 0 then Fin (a / prod_list bs - c)
      else if a = 0 then NotANumber
      else if (a > 0) = even (length (filter (\<lambda>b. b < 0) bs)) then PosInf
      else NegInf)"

section \<open>Constants\<close>

record AirfoilConstants =
  air_A :: real
  air_rho :: real
  air_C :: real
  air_K :: real
  drageps :: real
  maxalpha :: real

record BoatConstants =
  sail_foil :: AirfoilConstants
  keel_foil :: AirfoilConstants
  rudder_foil :: AirfoilConstants
  hs :: real
  hk :: real
  hr :: real
  rs :: real
  rk :: real
  rr :: real
  ls :: real
  lr :: real
  hb :: real
  boat_m :: real
  boat_g :: real
  boat_J :: real
  Blon :: real
  Blat :: real
  Bomega :: real
  taubias :: real

definition boat_consts :: BoatConstants where
  "boat_consts =
     \<lparr>sail_foil = \<lparr>air_A = 2, air_rho = 1225 / 1000, air_C = 14 / 10, air_K = 15 / 10, drageps = 0, maxalpha = pi / 2\<rparr>,
      keel_foil = \<lparr>air_A = 3 / 10, air_rho = 1000, air_C = 14 / 10, air_K = 8, drageps = 1 / 10, maxalpha = 1 / 4\<rparr>,
      rudder_foil = \<lparr>air_A = 4 / 100, air_rho = 1000, air_C = 17 / 10, air_K = 5, drageps = 5 / 100, maxalpha = 1 / 4\<rparr>,
      hs = 15 / 10, hk = - 7 / 10, hr = 0, rs = 1 / 10, rk = 0, rr = - 9 / 10, ls = 35 / 100, lr = 0, hb = - 7 / 10,
      boat_m = 25, boat_g = 98 / 10, boat_J = 10, Blon = 15, Blat = 25, Bomega = 500, taubias = 0\<rparr>"

definition betamin :: "real list" where "betamin = [0, 0, 1 / 100, - 1, - 10, 1]"
definition betamax :: "real list" where "betamax = [1000, 10000, 1, 1, 10, 1]"

definition beta :: "BoatConstants \<Rightarrow> real list" where
  "beta c = [Blon c, Bomega c, air_A (rudder_foil c), rs c, taubias c, 1]"

definition set_beta :: "real list \<Rightarrow> BoatConstants \<Rightarrow> BoatConstants" where
  "set_beta b c = c\<lparr>Blon := b ! 0, Bomega := b ! 1, rudder_foil := (rudder_foil c)\<lparr>air_A := b ! 2\<rparr>, rs := b ! 3, taubias := b ! 4\<rparr>"

definition IncrementBeta :: "real list \<Rightarrow> BoatConstants \<Rightarrow> BoatConstants" where
  "IncrementBeta diff c =
     set_beta (map (\<lambda>i. min (max (beta c ! i + diff ! i) (betamin ! i)) (betamax ! i)) [0..<6]) c"

section \<open>Forces and torques\<close>

definition SailAirfoil :: "BoatConstants \<Rightarrow> real \<Rightarrow> real \<Rightarrow> real \<times> real" where
  "SailAirfoil c alpha v =
     (let trimalpha = max (\<bar>alpha\<bar> - 5 / 100) 0;
          mag = air_C (sail_foil c) * (1 - exp (- air_K (sail_foil c) * trimalpha))
      in (1 / 2 * air_rho (sail_foil c) * air_A (sail_foil c) * v * v * mag, (pi / 2 - \<bar>alpha\<bar>) * of_int (Sign alpha)))"

definition foil_force :: "AirfoilConstants \<Rightarrow> real \<Rightarrow> real \<Rightarrow> real \<times> real" where
  "foil_force f alpha v =
     (let mag = air_K f * min \<bar>alpha\<bar> (maxalpha f)
      in (1 / 2 * air_rho f * air_A f * v * v * mag, (pi / 2 - drageps f) * of_int (Sign alpha)))"

definition KeelAirfoil :: "BoatConstants \<Rightarrow> real \<Rightarrow> real \<Rightarrow> real \<times> real" where
  "KeelAirfoil c = foil_force (keel_foil c)"

definition RudderAirfoil :: "BoatConstants \<Rightarrow> real \<Rightarrow> real \<Rightarrow> real \<times> real" where
  "RudderAirfoil c = foil_force (rudder_foil c)"

definition SailForce :: "BoatConstants \<Rightarrow> real \<Rightarrow> real \<Rightarrow> real \<Rightarrow> real \<times> real" where
  "SailForce c thetaw vw deltas =
     (let alpha = - norm_angle (thetaw + deltas + pi); (Fs, ang) = SailAirfoil c alpha vw in (Fs, norm_angle (ang - thetaw)))"

definition KeelForce :: "BoatConstants \<Rightarrow> real \<Rightarrow> real \<Rightarrow> real \<times> real" where
  "KeelForce c thetac vc =
     (let alpha = - norm_angle thetac; (Fk, ang) = KeelAirfoil c alpha vc in (Fk, norm_angle (ang - thetac + pi)))"

definition RudderForce :: "BoatConstants \<Rightarrow> real \<Rightarrow> real \<Rightarrow> real \<Rightarrow> real \<times> real" where
  "RudderForce c thetac vc deltar =
     (let alpha = - norm_angle (thetac + deltar); (Fr, ang) = RudderAirfoil c alpha vc in (Fr, norm_angle (ang - thetac + pi)))"

definition SailTorque :: "BoatConstants \<Rightarrow> real \<Rightarrow> real \<Rightarrow> real \<Rightarrow> real \<Rightarrow> real" where
  "SailTorque c Fs gammas deltas hl =
     Fs * ((rs c - ls c * cos deltas) * sin gammas * cos hl + hk c * cos gammas * sin hl)"

definition KeelTorque :: "BoatConstants \<Rightarrow> real \<Rightarrow> real \<Rightarrow> real \<Rightarrow> real" where
  "KeelTorque c Fk gammak hl = Fk * (rk c * sin gammak * cos hl + hk c * cos gammak * sin hl)"

definition RudderTorque :: "BoatConstants \<Rightarrow> real \<Rightarrow> real \<Rightarrow> real \<Rightarrow> real" where
  "RudderTorque c Fr gammar hl = Fr * rr c * sin gammar * cos hl"

definition CalcHeel :: "BoatConstants \<Rightarrow> real \<Rightarrow> real \<Rightarrow> real \<Rightarrow> real \<Rightarrow> real" where
  "CalcHeel c Fs gammas Fk gammak =
     arctan ((Fs * hs c * sin gammas + Fk * hk c * sin gammak) / (hb c * boat_m c * boat_g c))"

definition dot6 :: "real list \<Rightarrow> real list \<Rightarrow> real" where
  "dot6 a b = sum_list (map (\<lambda>i. a ! i * b ! i) [0..<6])"

text \<open>The forces are linear in the parameters: rows that are multiplied with them.\<close>

definition NetForce :: "BoatConstants \<Rightarrow> real \<Rightarrow> real \<Rightarrow> real \<Rightarrow> real \<Rightarrow> real \<Rightarrow> real \<Rightarrow> real \<Rightarrow>
    real \<times> real \<times> real \<times> real \<times> (real list \<times> real list)" where
  "NetForce c thetaw vw thetac vc deltas deltar omega =
     (let (Fs, gammas) = SailForce c thetaw vw deltas;
          (Fk, gammak) = KeelForce c thetac vc;
          (Fr, gammar) = RudderForce c thetac vc deltar;
          heel = CalcHeel c Fs gammas Fk gammak;
          taus = SailTorque c Fs gammas deltas heel;
          tauk = KeelTorque c Fk gammak heel;
          taur = RudderTorque c Fr gammar heel;
          YFlon = [- vc * \<bar>vc\<bar> * cos thetac, 0, Fr * cos gammar / air_A (rudder_foil c), 0, 0, Fs * cos gammas + Fk * cos gammak];
          FBlat = Blat c * vc * sin thetac;
          Flat = (Fs * sin gammas + Fk * sin gammak + Fr * sin gammar) * cos heel + FBlat;
          Ytaurs = Fs * sin gammas * cos heel;
          Ytau = [0, - omega * \<bar>omega\<bar>, taur / air_A (rudder_foil c), Ytaurs, 1, tauk + (taus - Ytaurs * rs c)]
      in (dot6 YFlon (beta c), Flat, dot6 Ytau (beta c), heel, YFlon, Ytau))"

definition RudderForTorque :: "BoatConstants \<Rightarrow> real \<Rightarrow> real \<Rightarrow> real \<Rightarrow> real \<Rightarrow> real \<Rightarrow> real \<Rightarrow> xreal" where
  "RudderForTorque c taus tauk taugoal hl thetac vc =
     (let f = rudder_foil c;
          denom = [1 / 2, air_rho f, air_A f, vc, vc, air_K f, cos thetac, cos hl, rr c]
      in xdiv_product (taugoal - taus - tauk - taubias c) denom thetac)"

definition ClipRudder :: "BoatConstants \<Rightarrow> xreal \<Rightarrow> real \<Rightarrow> xreal" where
  "ClipRudder c deltar thetac =
     (let maxrud = maxalpha (rudder_foil c) in xmax (xmin deltar (maxrud - thetac)) (- maxrud - thetac))"

section \<open>The search\<close>

datatype Constraint = kQuadratic | kStarboard | kPort

definition sail_range :: "real \<Rightarrow> real \<times> real" where
  "sail_range thetaw =
     (let maxsail0 = \<bar>norm_angle (pi - thetaw)\<bar>;
          minsail = max (maxsail0 - pi / 2) 0;
          maxsail = min maxsail0 (pi / 2)
      in (if thetaw > 0 then minsail else - maxsail, if thetaw < 0 then - minsail else maxsail))"

text \<open>One sail angle: the rudder angle that goes with it, and the cost of the pair.\<close>

definition trial_rudder :: "BoatConstants \<Rightarrow> real \<Rightarrow> real \<Rightarrow> real \<Rightarrow> real \<Rightarrow> real \<Rightarrow> Constraint \<Rightarrow> real \<Rightarrow> xreal" where
  "trial_rudder c thetaw vw thetac vc taug constraint trialds =
     (let mindr = Clip (- maxalpha (rudder_foil c) - thetac) (- 1 / 2) 0;
          maxdr = Clip (maxalpha (rudder_foil c) - thetac) 0 (1 / 2);
          (Fs, gammas) = SailForce c thetaw vw trialds;
          (Fk, gammak) = KeelForce c thetac vc;
          heel = CalcHeel c Fs gammas Fk gammak;
          taus = SailTorque c Fs gammas trialds heel;
          tauk = KeelTorque c Fk gammak heel;
          trialdr = RudderForTorque c taus tauk taug heel thetac vc
      in case constraint of
           kQuadratic \<Rightarrow> ClipRudder c trialdr thetac
         | kStarboard \<Rightarrow> xmax trialdr maxdr
         | kPort \<Rightarrow> xmin trialdr mindr)"

definition trial_cost :: "BoatConstants \<Rightarrow> real \<times> real \<times> real \<Rightarrow> real \<Rightarrow> real \<Rightarrow> real \<Rightarrow> real \<Rightarrow> real \<Rightarrow> Constraint \<Rightarrow> real \<Rightarrow> real \<Rightarrow> real" where
  "trial_cost c Q thetaw vw thetac vc taug constraint trialds trialdr =
     (let (Qf, Qtaumax, Qtaueq) = Q;
          (Fs, gammas) = SailForce c thetaw vw trialds;
          (Fk, gammak) = KeelForce c thetac vc;
          heel = CalcHeel c Fs gammas Fk gammak;
          taus = SailTorque c Fs gammas trialds heel;
          tauk = KeelTorque c Fk gammak heel;
          (Fr, gammar) = RudderForce c thetac vc trialdr;
          taur = RudderTorque c Fr gammar heel;
          Flon = Fs * cos gammas + Fk * cos gammak + Fr * cos gammar;
          taue = taus + tauk + taur + taubias c
      in - Qf * Flon + (case constraint of
           kQuadratic \<Rightarrow> Qtaueq * (taue - taug) * (taue - taug)
         | kStarboard \<Rightarrow> Qtaumax * taue
         | kPort \<Rightarrow> - Qtaumax * taue))"

text \<open>The best pair so far with its cost; a rudder angle out of its range is skipped.\<close>

primrec search_loop :: "BoatConstants \<Rightarrow> (real \<Rightarrow> xreal) \<Rightarrow> (real \<Rightarrow> real \<Rightarrow> real) \<Rightarrow> real \<Rightarrow> real list \<Rightarrow>
    (real \<times> real \<times> real) option \<Rightarrow> (real \<times> real \<times> real) option" where
  "search_loop c rudder_of cost_of thetac [] best = best"
| "search_loop c rudder_of cost_of thetac (trialds # rest) best =
     (let trialdr = rudder_of trialds
      in case trialdr of
           Fin dr \<Rightarrow>
             if ClipRudder c trialdr thetac \<noteq> trialdr then search_loop c rudder_of cost_of thetac rest best
             else let cost = cost_of trialds dr
                  in search_loop c rudder_of cost_of thetac rest
                       (if (case best of None \<Rightarrow> True | Some (mincost, _) \<Rightarrow> cost < mincost) then Some (cost, trialds, dr) else best)
         | _ \<Rightarrow> search_loop c rudder_of cost_of thetac rest best)"

definition trial_sails :: "real \<Rightarrow> nat \<Rightarrow> real list" where
  "trial_sails thetaw nsteps =
     (let (minds, maxds) = sail_range thetaw; deltadeltas = (maxds - minds) / of_int (max 1 (int nsteps - 1))
      in map (\<lambda>ii. minds + real ii * deltadeltas) [0..<nsteps])"

definition GlobalMaxForceForTorque :: "BoatConstants \<Rightarrow> real \<times> real \<times> real \<Rightarrow> real \<Rightarrow> real \<Rightarrow> real \<Rightarrow> real \<Rightarrow> real \<Rightarrow> Constraint \<Rightarrow> nat \<Rightarrow>
    (real \<times> real) option" where
  "GlobalMaxForceForTorque c Q thetaw vw thetac vc taug constraint nsteps =
     map_option snd (search_loop c (trial_rudder c thetaw vw thetac vc taug constraint)
       (trial_cost c Q thetaw vw thetac vc taug constraint) thetac (trial_sails thetaw nsteps) None)"

section \<open>The node\<close>

datatype AdOut = AdSail "real option" real | AdRudder real | AdConsts ControllerConstants

record AdaptiveControl =
  physics :: BoatConstants
  Qf :: real
  Kbeta_rest :: "nat \<Rightarrow> nat \<Rightarrow> real"
  ad_constants :: ControllerConstants
  ad_heading :: real
  ad_yaw :: real
  ad_thetaw :: real
  ad_vw :: real
  ad_thetac :: real
  ad_vc :: real
  ad_omega :: real
  yaw_ref :: real
  omega_ref :: real
  ad_sail :: real
  ad_sent :: "AdOut list"

definition Qtaumax :: real where "Qtaumax = 4 / 10"
definition Qtaueq :: real where "Qtaueq = 4 / 100"
definition Kref :: real where "Kref = 99 / 100"
definition Kmax_exp_vel :: real where "Kmax_exp_vel = 2 / 10"
definition Kmax_exp_acc :: real where "Kmax_exp_acc = 2 / 10"
definition ad_dt :: real where "ad_dt = 5 / 100"

text \<open>
  Only the diagonal of the gain matrix is set; the other entries are not initialised.  They are arbitrary real numbers here:
  memory that happens to hold infinities or values that are not a number is left out.
\<close>

definition Kbeta :: "AdaptiveControl \<Rightarrow> nat \<Rightarrow> nat \<Rightarrow> real" where
  "Kbeta s i j = (if i = j then [0, 0, 0, 4 / 1000, 0, 0] ! i else Kbeta_rest s i j)"

definition Adaptor :: "AdaptiveControl \<Rightarrow> real \<Rightarrow> real \<Rightarrow> real list" where
  "Adaptor s deltas deltar =
     (let (_, _, _, _, YFlon, Ytau) = NetForce (physics s) (ad_thetaw s) (ad_vw s) (ad_thetac s) (ad_vc s) deltas deltar 0;
          sigma0 = 0 + (1 * 0 + 0 * norm_angle (yaw_ref s - ad_yaw s));
          sigma1 = (omega_ref s - ad_omega s) + (0 * 0 + 1 * norm_angle (yaw_ref s - ad_yaw s))
      in map (\<lambda>i. - sum_list (map (\<lambda>j. Kbeta s i j * (YFlon ! j * sigma0 + Ytau ! j * sigma1)) [0..<6])) [0..<6])"

definition UpdateYawRef :: "AdaptiveControl \<Rightarrow> AdaptiveControl" where
  "UpdateYawRef s =
     (let yaw1 = norm_angle (Kref * norm_angle (yaw_ref s - ad_yaw s) + ad_yaw s);
          omega1 = Kref * omega_ref s + (1 - Kref) * ad_omega s;
          exp_vel = Clip (norm_angle (ad_heading s - yaw1)) (- Kmax_exp_vel) Kmax_exp_vel;
          exp_acc = Clip (norm_angle (exp_vel - omega1)) (- Kmax_exp_acc) Kmax_exp_acc;
          (yaw2, omega2) =
            (if Kmax_exp_vel < 0 then (ad_heading s, omega1)
             else if Kmax_exp_acc < 0 then (yaw1 + exp_vel * ad_dt, omega1)
             else (yaw1 + omega1 * ad_dt + 1 / 2 * exp_acc * ad_dt * ad_dt, omega1 + exp_acc * ad_dt))
      in s\<lparr>yaw_ref := norm_angle yaw2, omega_ref := omega2\<rparr>)"

definition Controller :: "AdaptiveControl \<Rightarrow> (real \<times> real) option \<times> AdaptiveControl" where
  "Controller s =
     (let taue = get_or 0 (rudder_kp (ad_constants s)) * norm_angle (ad_heading s - ad_yaw s) - 15 * ad_omega s
      in case GlobalMaxForceForTorque (physics s) (Qf s, Qtaumax, Qtaueq) (ad_thetaw s) (ad_vw s) (ad_thetac s) (ad_vc s) taue kQuadratic 20 of
           None \<Rightarrow> (None, s)
         | Some (deltas, deltar) \<Rightarrow>
             let betadot = Adaptor s deltas deltar;
                 s1 = s\<lparr>physics := IncrementBeta (map (\<lambda>b. b * ad_dt) betadot) (physics s)\<rparr>
             in (Some (deltas, deltar), UpdateYawRef s1))"

definition ad_iterate :: "AdaptiveControl \<Rightarrow> AdaptiveControl" where
  "ad_iterate s0 =
     (let (r, s) = Controller s0;
          (deltas0, deltar) = (case r of None \<Rightarrow> (0, 0) | Some p \<Rightarrow> p);
          deltas = \<bar>deltas0\<bar>;
          sail_err = norm_angle (deltas - ad_sail s);
          voltage = (if sail_err = 0 then None else Some (get_or 0 (winch_kp (ad_constants s)) * sail_err / sqrt \<bar>sail_err\<bar>))
      in s\<lparr>ad_sent := ad_sent s @ [AdSail voltage deltas, AdRudder (Clip deltar (- 1 / 2) (1 / 2)), AdConsts (ad_constants s)]\<rparr>)"

definition ad_defaults :: ControllerConstants where
  "ad_defaults = no_constants\<lparr>winch_kp := Some 13, rudder_kp := Some 25, qf := Some 1\<rparr>"

definition AdaptiveControl_new :: "(nat \<Rightarrow> nat \<Rightarrow> real) \<Rightarrow> AdaptiveControl" where
  "AdaptiveControl_new junk =
     \<lparr>physics = boat_consts, Qf = 1, Kbeta_rest = junk, ad_constants = ad_defaults, ad_heading = 2 * pi / 4, ad_yaw = 0,
      ad_thetaw = 0, ad_vw = 0, ad_thetac = 0, ad_vc = 0, ad_omega = 0, yaw_ref = 0, omega_ref = 0, ad_sail = 0,
      ad_sent = [AdConsts ad_defaults]\<rparr>"

datatype AdEvent = AdBoat real real real real real | AdWind real real | AdHeading "real option"
  | AdNewConsts ControllerConstants | AdSbus | AdIterate

primrec ad_step :: "AdEvent \<Rightarrow> AdaptiveControl \<Rightarrow> AdaptiveControl" where
  "ad_step (AdBoat vx vy y w sl) s =
     s\<lparr>ad_yaw := y, ad_omega := w, ad_thetac := 0, ad_vc := sqrt (vx * vx + vy * vy), ad_sail := sl\<rparr>"
| "ad_step (AdWind wx wy) s = s\<lparr>ad_thetaw := norm_angle (atan2 (- wy) wx), ad_vw := sqrt (wy * wy + wx * wx) * (16 / 10)\<rparr>"
| "ad_step (AdHeading h) s = (case h of None \<Rightarrow> s | Some v \<Rightarrow> s\<lparr>ad_heading := v\<rparr>)"
| "ad_step (AdNewConsts c) s = (case qf c of None \<Rightarrow> s | Some q \<Rightarrow> s\<lparr>ad_constants := c, Qf := q\<rparr>)"
| "ad_step AdSbus s = s"
| "ad_step AdIterate s = ad_iterate s"

section \<open>The search finds the best trial\<close>

definition in_rudder_range :: "BoatConstants \<Rightarrow> real \<Rightarrow> real \<Rightarrow> bool" where
  "in_rudder_range c thetac dr \<longleftrightarrow> - maxalpha (rudder_foil c) - thetac \<le> dr \<and> dr \<le> maxalpha (rudder_foil c) - thetac"

lemma ClipRudder_fixed:
  "0 \<le> maxalpha (rudder_foil c) \<Longrightarrow> ClipRudder c (Fin dr) thetac = Fin dr \<longleftrightarrow> in_rudder_range c thetac dr"
  by (auto simp: ClipRudder_def in_rudder_range_def Let_def)

lemma ClipRudder_cases:
  assumes "0 \<le> maxalpha (rudder_foil c)"
  shows "ClipRudder c x thetac = NotANumber \<and> x = NotANumber \<or> (\<exists>dr. ClipRudder c x thetac = Fin dr \<and> in_rudder_range c thetac dr)"
  using assms by (cases x) (auto simp: ClipRudder_def in_rudder_range_def Let_def max_def min_def)

definition valid_trial :: "BoatConstants \<Rightarrow> (real \<Rightarrow> xreal) \<Rightarrow> real \<Rightarrow> real \<Rightarrow> real \<Rightarrow> bool" where
  "valid_trial c rudder_of thetac ds dr \<longleftrightarrow> rudder_of ds = Fin dr \<and> ClipRudder c (Fin dr) thetac = Fin dr"

lemma search_loop_spec:
  assumes "search_loop c rudder_of cost_of thetac xs best = res"
  shows "(\<forall>x\<in>set xs. \<forall>dr. valid_trial c rudder_of thetac x dr \<longrightarrow> (\<exists>m p. res = Some (m, p) \<and> m \<le> cost_of x dr)) \<and>
    (\<forall>m p. best = Some (m, p) \<longrightarrow> (\<exists>m' p'. res = Some (m', p') \<and> m' \<le> m)) \<and>
    (res = best \<or> (\<exists>x\<in>set xs. \<exists>dr. valid_trial c rudder_of thetac x dr \<and> res = Some (cost_of x dr, x, dr)))"
  using assms
proof (induction xs arbitrary: best)
  case (Cons x xs)
  show ?case
  proof (cases "\<exists>dr. valid_trial c rudder_of thetac x dr")
    case False
    then have skip: "search_loop c rudder_of cost_of thetac (x # xs) best = search_loop c rudder_of cost_of thetac xs best"
      by (cases "rudder_of x") (auto simp: valid_trial_def Let_def)
    from Cons.IH [of best] Cons.prems show ?thesis using False unfolding skip by auto
  next
    case True
    then obtain dr where dr: "valid_trial c rudder_of thetac x dr" "\<And>dr'. valid_trial c rudder_of thetac x dr' \<Longrightarrow> dr' = dr" by (auto simp: valid_trial_def)
    define b where "b = (if (case best of None \<Rightarrow> True | Some (mincost, _) \<Rightarrow> cost_of x dr < mincost) then Some (cost_of x dr, x, dr) else best)"
    have "search_loop c rudder_of cost_of thetac (x # xs) best = search_loop c rudder_of cost_of thetac xs b"
      using dr(1) by (simp add: valid_trial_def b_def)
    with Cons.prems have res: "search_loop c rudder_of cost_of thetac xs b = res" by simp
    have b: "\<exists>m p. b = Some (m, p) \<and> m \<le> cost_of x dr" "\<And>m p. best = Some (m, p) \<Longrightarrow> \<exists>m' p'. b = Some (m', p') \<and> m' \<le> m"
      "b = best \<or> b = Some (cost_of x dr, x, dr)"
      by (auto simp: b_def split: option.splits)
    note IH = Cons.IH [OF res]
    have 1: "\<exists>m p. res = Some (m, p) \<and> m \<le> cost_of x dr" using IH b(1) by fastforce
    have 2: "\<exists>m' p'. res = Some (m', p') \<and> m' \<le> m" if "best = Some (m, p)" for m p
      using IH b(2) [OF that] by fastforce
    have 3: "res = best \<or> (\<exists>y\<in>set (x # xs). \<exists>dr. valid_trial c rudder_of thetac y dr \<and> res = Some (cost_of y dr, y, dr))"
      using IH b(3) dr(1) by auto
    show ?thesis using 1 2 3 IH dr(2) by auto
  qed
qed simp

lemma sail_range_bounds:
  "- (pi / 2) \<le> fst (sail_range w)" "fst (sail_range w) \<le> snd (sail_range w)" "snd (sail_range w) \<le> pi / 2"
proof -
  define a where "a = \<bar>norm_angle (pi - w)\<bar>"
  have "0 \<le> a" "a \<le> pi" using norm_angle_in_range [of "pi - w"] by (simp_all add: a_def)
  then show "- (pi / 2) \<le> fst (sail_range w)" "fst (sail_range w) \<le> snd (sail_range w)" "snd (sail_range w) \<le> pi / 2"
    by (auto simp: sail_range_def Let_def max_def min_def simp flip: a_def)
qed

lemma trial_sails_range:
  assumes "ds \<in> set (trial_sails w n)"
  shows "\<bar>ds\<bar> \<le> pi / 2"
proof -
  obtain lo hi where r: "sail_range w = (lo, hi)" by (cases "sail_range w")
  have b: "- (pi / 2) \<le> lo" "lo \<le> hi" "hi \<le> pi / 2" using sail_range_bounds [of w] by (simp_all add: r)
  define k :: real where "k = of_int (max 1 (int n - 1))"
  have k: "1 \<le> k" by (simp add: k_def)
  obtain ii where ii: "ii < n" "ds = lo + real ii * ((hi - lo) / k)"
    using assms by (auto simp: trial_sails_def r k_def)
  have "real ii \<le> k" using ii(1) by (simp add: k_def max_def)
  then have "real ii / k \<le> 1" "0 \<le> real ii / k" using k by simp_all
  then have "real ii / k * (hi - lo) \<le> 1 * (hi - lo)" "0 \<le> real ii / k * (hi - lo)"
    using b(2) mult_right_mono [of "real ii / k" 1 "hi - lo"] mult_nonneg_nonneg [of "real ii / k" "hi - lo"] by simp_all
  then have "lo \<le> ds" "ds \<le> hi" using ii(2) by simp_all
  then show ?thesis using b by (simp add: abs_le_iff)
qed

text \<open>
  C19: The search returns a sail angle of its grid, within a right angle, and a rudder angle within the
  rudder's range, and no other pair that it tries has a lower cost.  When it looks for the torque
  itself it finds a pair unless, for a boat that does not move, the rudder angle is undefined
  for every sail angle.
\<close>

theorem best_sail_for_torque:
  assumes "0 \<le> maxalpha (rudder_foil c)"
  shows "(\<forall>ds dr. GlobalMaxForceForTorque c Q thetaw vw thetac vc taug con n = Some (ds, dr) \<longrightarrow>
      ds \<in> set (trial_sails thetaw n) \<and> \<bar>ds\<bar> \<le> pi / 2 \<and> in_rudder_range c thetac dr \<and>
      (\<forall>x\<in>set (trial_sails thetaw n). \<forall>r. trial_rudder c thetaw vw thetac vc taug con x = Fin r \<and> in_rudder_range c thetac r \<longrightarrow>
        trial_cost c Q thetaw vw thetac vc taug con ds dr \<le> trial_cost c Q thetaw vw thetac vc taug con x r)) \<and>
    (GlobalMaxForceForTorque c Q thetaw vw thetac vc taug kQuadratic n = None \<longleftrightarrow>
      (\<forall>x\<in>set (trial_sails thetaw n). trial_rudder c thetaw vw thetac vc taug kQuadratic x = NotANumber))"
proof (intro conjI allI impI)
  fix ds dr
  assume found: "GlobalMaxForceForTorque c Q thetaw vw thetac vc taug con n = Some (ds, dr)"
  define rud where "rud = trial_rudder c thetaw vw thetac vc taug con"
  define cost where "cost = trial_cost c Q thetaw vw thetac vc taug con"
  define res where "res = search_loop c rud cost thetac (trial_sails thetaw n) None"
  note sp = search_loop_spec [OF res_def [symmetric]]
  obtain m where m: "res = Some (m, ds, dr)" using found by (auto simp: GlobalMaxForceForTorque_def res_def rud_def cost_def)
  with sp have "ds \<in> set (trial_sails thetaw n)" and v: "valid_trial c rud thetac ds dr" and "m = cost ds dr" by auto
  then show "ds \<in> set (trial_sails thetaw n)" "\<bar>ds\<bar> \<le> pi / 2" using trial_sails_range by blast+
  show "in_rudder_range c thetac dr" using v ClipRudder_fixed [OF assms] by (simp add: valid_trial_def)
  show "\<forall>x\<in>set (trial_sails thetaw n). \<forall>r. trial_rudder c thetaw vw thetac vc taug con x = Fin r \<and> in_rudder_range c thetac r \<longrightarrow>
      trial_cost c Q thetaw vw thetac vc taug con ds dr \<le> trial_cost c Q thetaw vw thetac vc taug con x r"
    using sp m \<open>m = cost ds dr\<close> ClipRudder_fixed [OF assms] unfolding valid_trial_def rud_def cost_def by auto
next
  define rud where "rud = trial_rudder c thetaw vw thetac vc taug kQuadratic"
  define cost where "cost = trial_cost c Q thetaw vw thetac vc taug kQuadratic"
  define res where "res = search_loop c rud cost thetac (trial_sails thetaw n) None"
  note sp = search_loop_spec [OF res_def [symmetric]]
  have none: "GlobalMaxForceForTorque c Q thetaw vw thetac vc taug kQuadratic n = None \<longleftrightarrow> res = None"
    by (simp add: GlobalMaxForceForTorque_def res_def rud_def cost_def)
  have clip: "rud x = NotANumber \<or> (\<exists>dr. valid_trial c rud thetac x dr)" for x
    using ClipRudder_cases [OF assms] ClipRudder_fixed [OF assms] unfolding rud_def trial_rudder_def valid_trial_def Let_def
    by (auto simp: split_beta)
  show "(GlobalMaxForceForTorque c Q thetaw vw thetac vc taug kQuadratic n = None) =
      (\<forall>x\<in>set (trial_sails thetaw n). trial_rudder c thetaw vw thetac vc taug kQuadratic x = NotANumber)"
    unfolding none rud_def [symmetric] using sp clip by (auto simp: valid_trial_def)
qed

theorem best_sail_for_torque_witness:
  "0 \<le> maxalpha (rudder_foil boat_consts) \<and>
   (GlobalMaxForceForTorque boat_consts (1, 1, 1) 1 2 0 1 0 kQuadratic 20 = None \<longleftrightarrow>
      (\<forall>x\<in>set (trial_sails 1 20). trial_rudder boat_consts 1 2 0 1 0 kQuadratic x = NotANumber))"
proof -
  have "0 \<le> maxalpha (rudder_foil boat_consts)" by (simp add: boat_consts_def)
  then show ?thesis using best_sail_for_torque [of boat_consts "(1, 1, 1)" 1 2 0 1 0 kQuadratic 20] by blast
qed

section \<open>Bounds\<close>

definition params_ok :: "BoatConstants \<Rightarrow> bool" where
  "params_ok c \<longleftrightarrow> list_all2 (\<le>) betamin (beta c) \<and> list_all2 (\<le>) (beta c) betamax"

lemma IncrementBeta_ok: "params_ok (IncrementBeta diff c)" "maxalpha (rudder_foil (IncrementBeta diff c)) = maxalpha (rudder_foil c)"
  by (simp_all add: params_ok_def IncrementBeta_def set_beta_def beta_def betamin_def betamax_def upt_rec)

definition ad_inv :: "AdaptiveControl \<Rightarrow> bool" where
  "ad_inv s \<longleftrightarrow> params_ok (physics s) \<and> 0 \<le> maxalpha (rudder_foil (physics s)) \<and> \<bar>yaw_ref s\<bar> \<le> pi \<and>
     (\<forall>r. AdRudder r \<in> set (ad_sent s) \<longrightarrow> \<bar>r\<bar> \<le> 1 / 2) \<and>
     (\<forall>v p. AdSail v p \<in> set (ad_sent s) \<longrightarrow> 0 \<le> p \<and> p \<le> pi / 2)"

lemma GlobalMax_sail: "GlobalMaxForceForTorque c Q w vw t vc g con n = Some (ds, dr) \<Longrightarrow> \<bar>ds\<bar> \<le> pi / 2"
  using search_loop_spec [OF refl, where c = c and rudder_of = "trial_rudder c w vw t vc g con" and thetac = t and xs = "trial_sails w n"
    and cost_of = "trial_cost c Q w vw t vc g con" and best = None]
  by (auto simp: GlobalMaxForceForTorque_def simp del: le_divide_eq_numeral1 intro: trial_sails_range)

lemma UpdateYawRef_fields:
  "physics (UpdateYawRef s) = physics s" "ad_sent (UpdateYawRef s) = ad_sent s" "\<bar>yaw_ref (UpdateYawRef s)\<bar> \<le> pi"
  by (simp_all add: UpdateYawRef_def Let_def split_beta norm_angle_in_range)

lemma Controller_inv:
  assumes "ad_inv s"
  shows "ad_inv (snd (Controller s))" "ad_sent (snd (Controller s)) = ad_sent s"
    "\<And>ds dr. fst (Controller s) = Some (ds, dr) \<Longrightarrow> \<bar>ds\<bar> \<le> pi / 2"
  using assms GlobalMax_sail
  by (auto simp: Controller_def Let_def ad_inv_def UpdateYawRef_fields IncrementBeta_ok split: option.splits)

lemma ad_step_inv:
  assumes "ad_inv s"
  shows "ad_inv (ad_step e s)"
proof (cases e)
  case AdIterate
  obtain r s1 where c: "Controller s = (r, s1)" by (cases "Controller s")
  have s1: "ad_inv s1" using Controller_inv(1) [OF assms] by (simp add: c)
  have rud: "\<bar>Clip x (- 1 / 2) (1 / 2)\<bar> \<le> 1 / 2" for x using Clip_abs [of "1 / 2" x] by simp
  show ?thesis
  proof (cases r)
    case None
    then show ?thesis using AdIterate s1 rud by (auto simp: ad_iterate_def c ad_inv_def Let_def)
  next
    case (Some p)
    obtain ds dr where p: "p = (ds, dr)" by (cases p)
    have "\<bar>ds\<bar> \<le> pi / 2" using Controller_inv(3) [OF assms] Some p by (simp add: c)
    then show ?thesis using AdIterate s1 rud Some p by (auto simp: ad_iterate_def c ad_inv_def Let_def)
  qed
qed (use assms in \<open>auto simp: ad_inv_def split: option.splits\<close>)

text \<open>
  C20: Whatever messages the adaptive controller gets, and whatever the uninitialised entries of its
  gain matrix are, the parameters of its model stay within their limits, the reference yaw stays
  an angle, the rudder commands stay within half a radian and the sail commands between the middle
  and a right angle.
\<close>

theorem adaptive_outputs_bounded:
  "let s = fold ad_step es (AdaptiveControl_new junk)
   in params_ok (physics s) \<and> \<bar>yaw_ref s\<bar> \<le> pi \<and> (\<forall>r. AdRudder r \<in> set (ad_sent s) \<longrightarrow> \<bar>r\<bar> \<le> 1 / 2) \<and>
    (\<forall>v p. AdSail v p \<in> set (ad_sent s) \<longrightarrow> 0 \<le> p \<and> p \<le> pi / 2)"
proof -
  have "ad_inv (fold ad_step es (AdaptiveControl_new junk))"
  proof (induction es rule: rev_induct)
    case Nil
    show ?case
      by (simp add: ad_inv_def AdaptiveControl_new_def params_ok_def beta_def betamin_def betamax_def boat_consts_def)
  qed (simp add: ad_step_inv)
  then show ?thesis by (simp add: Let_def ad_inv_def)
qed

theorem adaptive_outputs_bounded_witness:
  "\<exists>r. AdRudder r \<in> set (ad_sent (fold ad_step [AdBoat 1 0 0 0 0, AdWind 2 1, AdIterate] (AdaptiveControl_new (\<lambda>_ _. 0)))) \<and> \<bar>r\<bar> \<le> 1 / 2"
proof -
  have "\<exists>r. AdRudder r \<in> set (ad_sent (ad_iterate s))" for s by (auto simp: ad_iterate_def Let_def split: prod.splits)
  then obtain r where "AdRudder r \<in> set (ad_sent (fold ad_step [AdBoat 1 0 0 0 0, AdWind 2 1, AdIterate] (AdaptiveControl_new (\<lambda>_ _. 0))))"
    by (auto simp del: ad_step.simps(1-5))
  with adaptive_outputs_bounded [of "[AdBoat 1 0 0 0 0, AdWind 2 1, AdIterate]" "\<lambda>_ _. 0"] show ?thesis unfolding Let_def by blast
qed

end
