(* ===== verification/Frames.thy ===== *)
theory Frames
  imports Nav_Util
begin

text \<open>
  Vectors and matrices as the simulator uses them: differences, norms, transposes and inverses of
  three-by-three matrices, and what is needed of rotation matrices.  The inverse is the one by
  cofactors, which is what Eigen computes for matrices of this size.
\<close>

section \<open>Operations\<close>

fun vsub :: "vec3 \<Rightarrow> vec3 \<Rightarrow> vec3" where
  "vsub (a, b, c) (x, y, z) = (a - x, b - y, c - z)"

definition vnorm :: "vec3 \<Rightarrow> real" where
  "vnorm a = sqrt (vdot a a)"

fun mtranspose :: "mat3 \<Rightarrow> mat3" where
  "mtranspose ((a0, a1, a2), (b0, b1, b2), (c0, c1, c2)) = ((a0, b0, c0), (a1, b1, c1), (a2, b2, c2))"

fun mdet :: "mat3 \<Rightarrow> real" where
  "mdet (r0, r1, r2) = vdot r0 (vcross r1 r2)"

fun minverse :: "mat3 \<Rightarrow> mat3" where
  "minverse (r0, r1, r2) =
     mtranspose (vscale (1 / mdet (r0, r1, r2)) (vcross r1 r2), vscale (1 / mdet (r0, r1, r2)) (vcross r2 r0),
                 vscale (1 / mdet (r0, r1, r2)) (vcross r0 r1))"

fun madd :: "mat3 \<Rightarrow> mat3 \<Rightarrow> mat3" where
  "madd (a, b, c) (x, y, z) = (vadd a x, vadd b y, vadd c z)"

fun mscale :: "real \<Rightarrow> mat3 \<Rightarrow> mat3" where
  "mscale k (a, b, c) = (vscale k a, vscale k b, vscale k c)"

fun diag3 :: "real \<Rightarrow> real \<Rightarrow> real \<Rightarrow> mat3" where
  "diag3 a b c = ((a, 0, 0), (0, b, 0), (0, 0, c))"

section \<open>Rotations\<close>

definition is_rotation :: "mat3 \<Rightarrow> bool" where
  "is_rotation R \<longleftrightarrow>
     mmul (mtranspose R) R = identity3 \<and> mmul R (mtranspose R) = identity3 \<and> mdet R = 1"

lemma mat3_cases:
  fixes M :: mat3
  obtains a0 a1 a2 b0 b1 b2 c0 c1 c2 where "M = ((a0, a1, a2), (b0, b1, b2), (c0, c1, c2))"
  by (metis surj_pair)

lemma vec3_cases:
  fixes v :: vec3
  obtains x y z where "v = (x, y, z)"
  by (metis surj_pair)

lemma mmul_assoc: "mmul (mmul A B) C = mmul A (mmul B C)"
  by (cases A rule: mat3_cases; cases B rule: mat3_cases; cases C rule: mat3_cases)
    (simp add: mmul_def algebra_simps)

lemma mapply_mmul: "mapply (mmul A B) v = mapply A (mapply B v)"
  by (cases A rule: mat3_cases; cases B rule: mat3_cases; cases v rule: vec3_cases)
    (simp add: mmul_def mapply_def algebra_simps)

lemma mapply_identity [simp]: "mapply identity3 v = v"
  by (cases v rule: vec3_cases) (simp add: mapply_def identity3_def)

lemma identity_mmul: "mmul identity3 M = M"
  by (cases M rule: mat3_cases) (simp add: mat_simps)

lemma vdot_commute: "vdot a b = vdot b a"
  by (cases a rule: vec3_cases; cases b rule: vec3_cases) (simp add: mult.commute)

lemma vdot_vadd: "vdot (vadd a b) c = vdot a c + vdot b c"
  by (cases a rule: vec3_cases; cases b rule: vec3_cases; cases c rule: vec3_cases) (simp add: algebra_simps)

lemma vdot_vscale: "vdot (vscale k a) b = k * vdot a b"
  by (cases a rule: vec3_cases; cases b rule: vec3_cases) (simp add: algebra_simps)

lemma vdot_nonneg: "0 \<le> vdot a a"
  by (cases a rule: vec3_cases) simp

lemma vnorm_nonneg: "0 \<le> vnorm a"
  by (simp add: vnorm_def vdot_nonneg)

lemma vnorm_squared: "(vnorm a)\<^sup>2 = vdot a a"
  by (simp add: vnorm_def vdot_nonneg)

lemma vdot_mapply: "vdot (mapply R a) b = vdot a (mapply (mtranspose R) b)"
  by (cases R rule: mat3_cases; cases a rule: vec3_cases; cases b rule: vec3_cases)
    (simp add: mapply_def algebra_simps)

lemma mtranspose_twice [simp]: "mtranspose (mtranspose R) = R"
  by (cases R rule: mat3_cases) simp

lemma rotation_vdot: "is_rotation R \<Longrightarrow> vdot (mapply R a) (mapply R b) = vdot a b"
  by (simp add: vdot_mapply is_rotation_def flip: mapply_mmul)

lemma rotation_vnorm: "is_rotation R \<Longrightarrow> vnorm (mapply R a) = vnorm a"
  by (simp add: vnorm_def rotation_vdot)

lemma minverse_mmul:
  assumes "mdet R \<noteq> 0"
  shows "mmul (minverse R) R = identity3"
proof -
  obtain a0 a1 a2 b0 b1 b2 c0 c1 c2 where R: "R = ((a0, a1, a2), (b0, b1, b2), (c0, c1, c2))"
    by (rule mat3_cases)
  define k where "k = 1 / mdet R"
  have k: "k * (a0 * (b1 * c2 - b2 * c1) + a1 * (b2 * c0 - b0 * c2) + a2 * (b0 * c1 - b1 * c0)) = 1"
    using assms by (simp add: k_def R)
  have inv: "minverse R = mtranspose (vscale k (vcross (b0, b1, b2) (c0, c1, c2)),
      vscale k (vcross (c0, c1, c2) (a0, a1, a2)), vscale k (vcross (a0, a1, a2) (b0, b1, b2)))"
    unfolding k_def by (simp add: R)
  show ?thesis
    unfolding inv unfolding R mmul_def identity3_def by (simp; intro conjI; (algebra | (use k in algebra)))
qed

lemma rotation_minverse:
  assumes "is_rotation R"
  shows "minverse R = mtranspose R"
proof -
  have "minverse R = mmul (minverse R) (mmul R (mtranspose R))"
    using assms by (simp add: is_rotation_def mmul_identity)
  also have "\<dots> = mmul (mmul (minverse R) R) (mtranspose R)" by (rule mmul_assoc [symmetric])
  also have "\<dots> = mtranspose R"
    using assms by (simp add: is_rotation_def minverse_mmul identity_mmul)
  finally show ?thesis .
qed

lemma minverse_diag:
  "a \<noteq> 0 \<Longrightarrow> b \<noteq> 0 \<Longrightarrow> c \<noteq> 0 \<Longrightarrow> minverse (diag3 a b c) = diag3 (1 / a) (1 / b) (1 / c)"
  by simp

lemma sin_cos_one: "sin (a :: real) * sin a + cos a * cos a = 1"
  using sin_cos_squared_add [of a] by (simp add: power2_eq_square)

text \<open>The orientation of a boat that heels and yaws but does not pitch.\<close>

definition heel_yaw_matrix :: "real \<Rightarrow> real \<Rightarrow> mat3" where
  "heel_yaw_matrix heel yaw =
     (let ch = cos heel; sh = sin heel; cy = cos yaw; sy = sin yaw
      in ((cy, - sy * ch, sy * sh), (sy, ch * cy, - cy * sh), (0, sh, ch)))"

lemma heel_yaw_rotation: "is_rotation (heel_yaw_matrix heel yaw)"
proof -
  have h: "sin heel * sin heel + cos heel * cos heel = 1" and y: "sin yaw * sin yaw + cos yaw * cos yaw = 1"
    by (rule sin_cos_one)+
  show ?thesis
    unfolding is_rotation_def heel_yaw_matrix_def Let_def mmul_def identity3_def
    by (simp add: algebra_simps; intro conjI; (use h y in algebra)?)
qed

lemma heel_yaw_is_rpy: "heel_yaw_matrix heel yaw = RollPitchYawToMatrix (heel, 0, yaw)"
  by (simp add: heel_yaw_matrix_def RollPitchYawToMatrix_def Let_def mat_simps mult.commute)

lemma heel_yaw_cong:
  "sin h' = sin h \<Longrightarrow> cos h' = cos h \<Longrightarrow> sin y' = sin y \<Longrightarrow> cos y' = cos y \<Longrightarrow>
   heel_yaw_matrix h' y' = heel_yaw_matrix h y"
  by (simp add: heel_yaw_matrix_def)

end
