(* ===== verification/Sim_Physics.thy ===== *)
theory Sim_Physics
  imports Frames Control_Msgs
begin

text \<open>
  The simulated boat (\<^verbatim>\<open>TrivialDynamics\<close> of \<^verbatim>\<open>sim/sim_physics.h\<close> and \<^verbatim>\<open>sim/sim_physics.cc\<close>): forces
  and torques of sail, rudder, keel and hull, the righting torque with the movable ballast, and the
  step of the simulation.  Numbers are real numbers, so that the checks for values that are not
  a number (\<^verbatim>\<open>sim_physics.cc:279\<close> and \<^verbatim>\<open>189\<close>) are never taken.
\<close>

section \<open>State\<close>

record SimDebugMsg =
  dbg_fs :: vec3
  dbg_fr :: vec3
  dbg_fk :: vec3
  dbg_fh :: vec3
  dbg_fnet :: vec3
  dbg_taus :: vec3
  dbg_taur :: vec3
  dbg_tauk :: vec3
  dbg_tauh :: vec3
  dbg_tauright :: vec3
  dbg_taunet :: vec3

record TrivialDynamics =
  td_dt :: real
  td_deltas :: real
  td_deltar :: real
  td_deltab :: real
  td_x :: vec3
  td_v :: vec3
  td_yaw :: real
  td_heel :: real
  td_RBI :: mat3
  td_omega :: vec3
  td_wind :: vec3
  td_debug :: "SimDebugMsg list"

text \<open>The constants of the boat.\<close>

definition td_rr :: real where "td_rr = - 1"
definition td_rs :: real where "td_rs = 2 / 10"
definition td_rk :: real where "td_rk = 0"
definition td_ls :: real where "td_ls = 3 / 10"
definition td_lr :: real where "td_lr = 3 / 100"
definition td_hs :: real where "td_hs = 1"
definition td_hr :: real where "td_hr = - 2 / 10"
definition td_hk :: real where "td_hk = - 7 / 10"
definition td_lm :: real where "td_lm = 1"
definition td_mm :: real where "td_mm = 15"
definition td_CoM :: vec3 where "td_CoM = (0, 0, - 5 / 10)"
definition td_mass :: real where "td_mass = 30"
definition td_J :: mat3 where "td_J = diag3 25 25 20"

definition TrivialDynamics_new :: "real \<Rightarrow> TrivialDynamics" where
  "TrivialDynamics_new dt =
     \<lparr>td_dt = dt, td_deltas = 13 / 10, td_deltar = 0, td_deltab = 1, td_x = (0, 0, 0), td_v = (0, 0, 0), td_yaw = 0,
      td_heel = 0, td_RBI = identity3, td_omega = (0, 0, 0), td_wind = (0, 0, 0), td_debug = []\<rparr>"

definition td_set_wind :: "vec3 \<Rightarrow> TrivialDynamics \<Rightarrow> TrivialDynamics" where
  "td_set_wind w s = s\<lparr>td_wind := w\<rparr>"

definition get_apparent_dir :: "TrivialDynamics \<Rightarrow> real" where
  "get_apparent_dir s =
     (let (wx, wy, _) = mapply (mtranspose (td_RBI s)) (vsub (td_wind s) (td_v s)) in atan2 (- wy) (- wx))"

definition get_alpha_sail :: "TrivialDynamics \<Rightarrow> real" where
  "get_alpha_sail s = norm_angle (get_apparent_dir s - td_deltas s)"

definition get_rdot_for_goal :: "TrivialDynamics \<Rightarrow> real \<Rightarrow> real" where
  "get_rdot_for_goal s goal = 5 * (goal - td_deltar s)"

definition get_sdot_for_goal :: "TrivialDynamics \<Rightarrow> real \<Rightarrow> real" where
  "get_sdot_for_goal s goal = 5 * (goal - \<bar>td_deltas s\<bar>)"

section \<open>Forces and torques in the frame of the boat\<close>

definition lift_coefficient :: "real \<Rightarrow> real \<Rightarrow> real" where
  "lift_coefficient maxlift alpha =
     (let kPeak1 = 4 / 10; kPeak2 = 8 / 10
      in if alpha > kPeak1
         then if alpha > kPeak2 then maxlift * (1 - (alpha - kPeak2) / (pi / 2 - kPeak2)) else maxlift
         else maxlift / kPeak1 * alpha)"

definition drag_coefficient :: "real \<Rightarrow> real \<Rightarrow> real \<Rightarrow> real" where
  "drag_coefficient mindrag maxdrag alpha = (maxdrag / mindrag) powr (alpha * 2 / pi) * mindrag"

definition AeroForces :: "TrivialDynamics \<Rightarrow> vec3 \<Rightarrow> real \<Rightarrow> real \<Rightarrow> real \<Rightarrow> real \<Rightarrow> real \<Rightarrow> real \<Rightarrow> bool \<Rightarrow> vec3" where
  "AeroForces self va delta rho A mindrag maxdrag maxlift luff =
     (let (va0, va1, _) = va;
          alphasigned = norm_angle (atan2 (- va1) (- va0) - delta);
          alpha0 = \<bar>alphasigned\<bar>;
          sign_alpha = (if alpha0 = 0 then 1 else trunc (alphasigned / alpha0));
          alpha = (if luff \<and> alpha0 < 25 / 100 then 25 / 100 else alpha0);
          k = of_int sign_alpha;
          liftrot = ((0, - k, 0), (k, 0, 0), (0, 0, 1));
          Cl = lift_coefficient maxlift alpha;
          Cd = drag_coefficient mindrag maxdrag alpha;
          sqNorm = vdot va va;
          s = 1 / 2 * rho * A * vdot va va;
          va' = (if sqNorm > 5 / 1000 then vscale (1 / vnorm va) va else va);
          lift = vscale (Cl * s) (mapply liftrot va');
          drag = vscale (Cd * s) va';
          (f0, f1, f2) = vadd lift drag
      in (f0, f1 * mentry (td_RBI self) 2 2, f2))"

definition flat :: "vec3 \<Rightarrow> vec3" where
  "flat v = (let (a, b, _) = v in (a, b, 0))"

definition SailForces :: "TrivialDynamics \<Rightarrow> vec3" where
  "SailForces s =
     (let wa = flat (mapply (mtranspose (td_RBI s)) (vsub (td_wind s) (td_v s)));
          delta = td_deltas s
      in AeroForces s wa delta (1225 / 1000) 4 (5 / 100) 1 (15 / 10) False)"

definition water_flow :: "TrivialDynamics \<Rightarrow> vec3" where
  "water_flow s = flat (mapply (mtranspose (td_RBI s)) (vscale (- 1) (td_v s)))"

definition RudderForces :: "TrivialDynamics \<Rightarrow> vec3" where
  "RudderForces s = AeroForces s (water_flow s) (td_deltar s * (15 / 10)) 1000 (7 / 100) (1 / 100) (5 / 100) (17 / 10) False"

definition KeelForces :: "TrivialDynamics \<Rightarrow> vec3" where
  "KeelForces s = AeroForces s (water_flow s) 0 1000 (4 / 10) (2 / 100) (11 / 10) 2 False"

definition HullForces :: "TrivialDynamics \<Rightarrow> vec3" where
  "HullForces s = AeroForces s (water_flow s) 0 1000 (1 / 10) (1 / 100) (2 / 10) 0 False"

definition SailTorques :: "TrivialDynamics \<Rightarrow> vec3 \<Rightarrow> vec3" where
  "SailTorques s f = vcross (td_rs - td_ls * cos (td_deltas s), - td_ls * sin (td_deltas s), td_hs) f"

definition RudderTorques :: "TrivialDynamics \<Rightarrow> vec3 \<Rightarrow> vec3" where
  "RudderTorques s f = vcross (td_rr - td_lr * cos (td_deltar s), - td_lr * sin (td_deltar s), td_hr) f"

definition KeelTorques :: "vec3 \<Rightarrow> vec3" where
  "KeelTorques f = vcross (td_rk, 0, td_hk) f"

definition HullTorques :: "TrivialDynamics \<Rightarrow> vec3" where
  "HullTorques s =
     (let (wx, wy, wz) = td_omega s
      in vscale (- 1) (mapply (diag3 100 200 200) (wx * \<bar>wx\<bar>, wy * \<bar>wy\<bar>, wz * \<bar>wz\<bar>)))"

definition RightingTorques :: "TrivialDynamics \<Rightarrow> real \<Rightarrow> vec3" where
  "RightingTorques s heel =
     (let g = 98 / 10;
          kMaxTorque = td_mass * g * (case td_CoM of (_, _, z) \<Rightarrow> z);
          kMovableSlope = 3333 / 10000;
          tauballast = td_mm * td_lm * g * sin (td_deltab s) * cos (heel + kMovableSlope * td_deltab s);
          kAccountForPitch = 0 * (- 2000) * mentry (td_RBI s) 2 0
      in (mentry (td_RBI s) 2 1 * kMaxTorque + tauballast, kAccountForPitch, 0))"

section \<open>The step of the simulation\<close>

definition sail_side :: "TrivialDynamics \<Rightarrow> real \<Rightarrow> real" where
  "sail_side s deltas_in =
     (let d = max (norm_angle deltas_in) 0;
          (wx, wy, _) = td_wind s;
          (vx, vy, _) = td_v s;
          apparent_wind_dir = norm_angle (atan2 (wy - vx) (wx - vy) - td_yaw s)
      in norm_angle (if apparent_wind_dir > 0 then - d else d))"

definition set_actuators :: "real \<Rightarrow> real \<Rightarrow> TrivialDynamics \<Rightarrow> TrivialDynamics" where
  "set_actuators deltas_in deltar_in s =
     s\<lparr>td_deltas := sail_side s deltas_in, td_deltar := min (max deltar_in (- 6 / 10)) (6 / 10),
       td_deltab := min (max (td_deltab s) (- 15 / 10)) (15 / 10)\<rparr>"

definition forces_and_torques :: "TrivialDynamics \<Rightarrow> SimDebugMsg" where
  "forces_and_torques s =
     (let Fs = SailForces s; Fr = RudderForces s; Fk = KeelForces s; Fh = HullForces s;
          Fnet = vadd (vadd (vadd Fs Fr) Fk) Fh;
          taus = SailTorques s Fs; taur = RudderTorques s Fr; tauk = KeelTorques Fk; tauh = HullTorques s;
          tauright = RightingTorques s (arcsin (mentry (td_RBI s) 2 1));
          tau = vadd (vadd (vadd (vadd taus taur) tauk) tauh) tauright
      in \<lparr>dbg_fs = Fs, dbg_fr = Fr, dbg_fk = Fk, dbg_fh = Fh, dbg_fnet = mapply (td_RBI s) Fnet, dbg_taus = taus,
          dbg_taur = taur, dbg_tauk = tauk, dbg_tauh = tauh, dbg_tauright = tauright, dbg_taunet = tau\<rparr>)"

definition integrate :: "SimDebugMsg \<Rightarrow> TrivialDynamics \<Rightarrow> TrivialDynamics" where
  "integrate m s =
     (let dt = td_dt s;
          omegadot = vscale dt (mapply (minverse td_J) (dbg_taunet m));
          (w0, w1, w2) = vadd (td_omega s) omegadot;
          (_, _, yawdot) = mapply (td_RBI s) (w0, w1, w2);
          heel = norm_angle (td_heel s + w0 * dt);
          yaw = norm_angle (td_yaw s + yawdot * dt);
          v = flat (vadd (td_v s) (vscale dt (vscale (1 / td_mass) (dbg_fnet m))))
      in s\<lparr>td_heel := heel, td_yaw := yaw, td_omega := (w0, yawdot * sin heel, yawdot * cos heel), td_v := v,
           td_RBI := heel_yaw_matrix heel yaw, td_debug := td_debug s @ [m], td_x := vadd (td_x s) (vscale dt v)\<rparr>)"

definition Update_pos :: "real \<Rightarrow> real \<Rightarrow> TrivialDynamics \<Rightarrow> TrivialDynamics" where
  "Update_pos deltas_in deltar_in s =
     (let s1 = set_actuators deltas_in deltar_in s in integrate (forces_and_torques s1) s1)"

definition Update_vel :: "real \<Rightarrow> real \<Rightarrow> real \<Rightarrow> TrivialDynamics \<Rightarrow> TrivialDynamics" where
  "Update_vel sdot rdot bdot s =
     (let s1 = s\<lparr>td_deltas := \<bar>td_deltas s\<bar> + sdot * td_dt s, td_deltar := td_deltar s + rdot * td_dt s,
                 td_deltab := td_deltab s + bdot * td_dt s\<rparr>
      in Update_pos (td_deltas s1) (td_deltar s1) s1)"

text \<open>The logged state from which the simulation is restarted.\<close>

record SimState =
  ss_sail :: real
  ss_rudder :: real
  ss_ballast :: real
  ss_vel :: vec2
  ss_yaw :: real
  ss_roll :: real
  ss_pos :: "vec2 option"

definition set_from_state :: "SimState \<Rightarrow> TrivialDynamics \<Rightarrow> TrivialDynamics" where
  "set_from_state st s =
     s\<lparr>td_deltas := ss_sail st, td_deltar := ss_rudder st, td_deltab := ss_ballast st, td_x := vscale 0 (td_x s),
       td_v := (let (_, _, vz) = td_v s in (fst (ss_vel st), snd (ss_vel st), vz)), td_yaw := ss_yaw st,
       td_heel := ss_roll st, td_RBI := heel_yaw_matrix (ss_roll st) (ss_yaw st)\<rparr>"

text \<open>The derivative of the state vector; it overwrites members of the object on its way.\<close>

record XState =
  xs_heel :: real
  xs_yaw :: real
  xs_v :: vec2
  xs_omega :: vec3
  xs_deltas :: real
  xs_deltab :: real
  xs_deltabdot :: real

definition CalcXdot :: "XState \<Rightarrow> real \<Rightarrow> real \<Rightarrow> TrivialDynamics \<Rightarrow> XState \<times> TrivialDynamics" where
  "CalcXdot X deltasdot uballast s0 =
     (let heel = xs_heel X; yaw = xs_yaw X;
          ch = cos heel; sh = sin heel; cy = cos yaw; sy = sin yaw;
          s = s0\<lparr>td_v := (fst (xs_v X), snd (xs_v X), 0), td_omega := xs_omega X, td_deltas := xs_deltas X,
                 td_deltab := xs_deltab X, td_RBI := heel_yaw_matrix heel yaw\<rparr>;
          Fs = SailForces s; Fr = RudderForces s; Fk = KeelForces s; Fh = HullForces s;
          Fnet = flat (vadd (vadd (vadd Fs Fr) Fk) Fh);
          tau = vadd (vadd (vadd (vadd (SailTorques s Fs) (RudderTorques s Fr)) (KeelTorques Fk)) (HullTorques s))
                  (RightingTorques s heel);
          omegadot = mapply (minverse td_J) tau;
          (vdot0, vdot1, _) = vscale (1 / td_mass) (mapply (td_RBI s) Fnet);
          (_, w1, w2) = td_omega s;
          yawdot = sy * w1 + cy * w2;
          heeldot = sh * w1 + ch * w2;
          kBballast = 100 / (td_mm * td_lm * td_lm * 5);
          deltabddot = uballast / (td_mm * td_lm * td_lm) - kBballast * xs_deltabdot X
      in (\<lparr>xs_heel = heeldot, xs_yaw = yawdot, xs_v = (vdot0, vdot1), xs_omega = omegadot, xs_deltas = deltasdot,
           xs_deltab = xs_deltabdot X, xs_deltabdot = deltabddot\<rparr>, s))"

section \<open>The state stays that of a boat\<close>

datatype TdOp = SetWind vec3 | SetState SimState | StepPos real real | StepVel real real real

primrec td_step :: "TdOp \<Rightarrow> TrivialDynamics \<Rightarrow> TrivialDynamics" where
  "td_step (SetWind w) s = td_set_wind w s"
| "td_step (SetState st) s = set_from_state st s"
| "td_step (StepPos ds dr) s = Update_pos ds dr s"
| "td_step (StepVel a b c) s = Update_vel a b c s"

text \<open>The matrix belongs to the angles and the boat stays in the plane of the water.\<close>

definition td_ok :: "TrivialDynamics \<Rightarrow> bool" where
  "td_ok s \<longleftrightarrow> td_RBI s = heel_yaw_matrix (td_heel s) (td_yaw s) \<and> snd (snd (td_v s)) = 0 \<and> snd (snd (td_x s)) = 0"

text \<open>What a step leaves behind: limited actuators, angles in range, and no rate of pitch.\<close>

definition td_moved :: "TrivialDynamics \<Rightarrow> bool" where
  "td_moved s \<longleftrightarrow>
     \<bar>td_deltar s\<bar> \<le> 6 / 10 \<and> \<bar>td_deltab s\<bar> \<le> 15 / 10 \<and> \<bar>td_deltas s\<bar> \<le> pi \<and> \<bar>td_heel s\<bar> \<le> pi \<and> \<bar>td_yaw s\<bar> \<le> pi \<and>
     (\<exists>heeldot yawdot. td_omega s =
        vadd (heeldot, 0, 0) (vscale yawdot (mapply (mtranspose (td_RBI s)) (0, 0, 1))))"

lemma flat_simps [simp]: "flat (a, b, c) = (a, b, 0)" "snd (snd (flat v)) = 0"
  by (simp_all add: flat_def split: prod.splits)

lemma vec_z [simp]: "snd (snd (vadd a b)) = snd (snd a) + snd (snd b)" "snd (snd (vscale k a)) = k * snd (snd a)"
  by (cases a rule: vec3_cases; cases b rule: vec3_cases; simp)+

lemma flat_dot: "snd (snd b) = 0 \<Longrightarrow> vdot (flat a) b = vdot a b"
  by (cases a rule: vec3_cases; cases b rule: vec3_cases; simp)

lemma td_new_ok: "td_ok (TrivialDynamics_new dt)"
  by (simp add: td_ok_def TrivialDynamics_new_def heel_yaw_matrix_def identity3_def Let_def)

lemma heel_yaw_vertical: "mapply (mtranspose (heel_yaw_matrix h y)) (0, 0, 1) = (0, sin h, cos h)"
  by (simp add: heel_yaw_matrix_def mapply_def Let_def)

lemma set_actuators_simps [simp]:
  "td_heel (set_actuators a b s) = td_heel s" "td_yaw (set_actuators a b s) = td_yaw s"
  "td_v (set_actuators a b s) = td_v s" "td_x (set_actuators a b s) = td_x s" "td_RBI (set_actuators a b s) = td_RBI s"
  "td_omega (set_actuators a b s) = td_omega s" "td_wind (set_actuators a b s) = td_wind s"
  "td_dt (set_actuators a b s) = td_dt s" "td_debug (set_actuators a b s) = td_debug s"
  by (simp_all add: set_actuators_def)

lemma set_actuators_limits:
  "\<bar>td_deltar (set_actuators a b s)\<bar> \<le> 6 / 10" "\<bar>td_deltab (set_actuators a b s)\<bar> \<le> 15 / 10"
  "\<bar>td_deltas (set_actuators a b s)\<bar> \<le> pi"
  by (auto simp: set_actuators_def sail_side_def Let_def norm_angle_in_range abs_le_iff split: prod.splits)
    (use norm_angle_in_range in \<open>auto simp: abs_le_iff minus_le_iff\<close>)

lemma integrate_ok:
  assumes "snd (snd (td_v s)) = 0" "snd (snd (td_x s)) = 0"
  shows "td_ok (integrate m s)"
  using assms by (simp add: td_ok_def integrate_def Let_def split: prod.splits)

lemma integrate_moved:
  "\<bar>td_heel (integrate m s)\<bar> \<le> pi" "\<bar>td_yaw (integrate m s)\<bar> \<le> pi"
  "\<exists>heeldot yawdot. td_omega (integrate m s) =
     vadd (heeldot, 0, 0) (vscale yawdot (mapply (mtranspose (td_RBI (integrate m s))) (0, 0, 1)))"
  by (auto simp: integrate_def Let_def norm_angle_in_range heel_yaw_vertical split: prod.splits)

lemma integrate_actuators [simp]:
  "td_deltar (integrate m s) = td_deltar s" "td_deltab (integrate m s) = td_deltab s" "td_deltas (integrate m s) = td_deltas s"
  "td_dt (integrate m s) = td_dt s"
  by (simp_all add: integrate_def Let_def split: prod.splits)

lemma Update_pos_ok:
  assumes "td_ok s"
  shows "td_ok (Update_pos ds dr s)" and "td_moved (Update_pos ds dr s)"
proof -
  show "td_ok (Update_pos ds dr s)"
    using assms by (simp add: Update_pos_def Let_def integrate_ok td_ok_def [of s])
  show "td_moved (Update_pos ds dr s)"
    unfolding td_moved_def Update_pos_def Let_def integrate_actuators
    by (intro conjI set_actuators_limits integrate_moved)
qed

lemma td_ok_actuators [simp]:
  "td_ok (s\<lparr>td_wind := w\<rparr>) = td_ok s" "td_ok (s\<lparr>td_deltas := a, td_deltar := b, td_deltab := c\<rparr>) = td_ok s"
  by (simp_all add: td_ok_def)

lemma Update_vel_ok:
  assumes "td_ok s"
  shows "td_ok (Update_vel a b c s)" and "td_moved (Update_vel a b c s)"
  using assms by (simp_all add: Update_vel_def Let_def Update_pos_ok)

lemma set_from_state_ok: "td_ok s \<Longrightarrow> td_ok (set_from_state st s)"
  by (cases "td_v s" rule: vec3_cases) (simp add: td_ok_def set_from_state_def)

lemma td_step_ok: "td_ok s \<Longrightarrow> td_ok (td_step op s)"
  by (cases op) (simp_all add: td_set_wind_def set_from_state_ok Update_pos_ok Update_vel_ok)

lemma td_run_ok: "td_ok (fold td_step ops (TrivialDynamics_new dt))"
  by (induction ops rule: rev_induct) (simp_all add: td_new_ok td_step_ok)

text \<open>
  C23: Whatever is done to the simulated boat, its orientation is the rotation of its heel and yaw and
  it stays in the plane of the water.  After each step, by position or by velocity, the rudder is
  within 0.6 and the ballast within 1.5 radians, heel and yaw are within half a turn, and the
  angular velocity is one about the long axis and one about the vertical: the boat does not pitch.
\<close>

theorem simulated_boat_consistent:
  "let s = fold td_step ops (TrivialDynamics_new dt)
   in td_RBI s = RollPitchYawToMatrix (td_heel s, 0, td_yaw s) \<and> is_rotation (td_RBI s) \<and>
      snd (snd (td_x s)) = 0 \<and> snd (snd (td_v s)) = 0 \<and>
      td_moved (Update_pos ds dr s) \<and> td_moved (Update_vel sdot rdot bdot s)"
  using td_run_ok [of ops dt] Update_pos_ok(2) [OF td_run_ok] Update_vel_ok(2) [OF td_run_ok]
  by (simp add: Let_def td_ok_def heel_yaw_rotation flip: heel_yaw_is_rpy)

section \<open>Water and calm air take energy from the boat\<close>

lemma drag_coefficient_nonneg: "0 \<le> mindrag \<Longrightarrow> 0 \<le> drag_coefficient mindrag maxdrag alpha"
  by (simp add: drag_coefficient_def)

lemma lift_coefficient_zero [simp]: "lift_coefficient 0 alpha = 0"
  by (simp add: lift_coefficient_def Let_def)

lemma lift_coefficient_bound:
  assumes "0 \<le> maxlift" "0 \<le> alpha" "alpha \<le> pi"
  shows "\<bar>lift_coefficient maxlift alpha\<bar> \<le> 3 * maxlift"
proof -
  define q where "q = (alpha - 8 / 10) / (pi / 2 - 8 / 10)"
  have d: "0 < pi / 2 - 8 / 10" using pi_ge_three by simp
  have "alpha - 8 / 10 \<le> 4 * (pi / 2 - 8 / 10)" using assms(3) pi_ge_three by simp
  then have q: "q \<le> 4" using d by (simp add: q_def pos_divide_le_eq)
  have "\<bar>maxlift * (1 - q)\<bar> \<le> maxlift * 3" if "8 / 10 < alpha"
  proof -
    have "0 \<le> q" using that d by (simp add: q_def)
    then show ?thesis using q assms(1) unfolding abs_mult by (intro mult_mono) auto
  qed
  moreover have "\<bar>maxlift / (4 / 10) * alpha\<bar> \<le> maxlift * 3" if "alpha \<le> 4 / 10"
    using that assms mult_left_mono [of alpha "4 / 10" maxlift] by (simp add: abs_mult)
  ultimately show ?thesis using assms(1) by (simp add: lift_coefficient_def Let_def q_def mult.commute)
qed

lemma AeroForces_shape:
  assumes "0 \<le> rho * A" "0 \<le> mindrag" "0 \<le> maxlift"
  obtains c Cd Cl where "0 \<le> c" "c \<le> rho * A / 2 * vnorm (a, b, 0)" "0 \<le> Cd" "\<bar>Cl\<bar> \<le> 3 * maxlift"
    "AeroForces s (a, b, 0) delta rho A mindrag maxdrag maxlift False =
      (c * (Cd * a - Cl * b), c * (Cd * b + Cl * a) * mentry (td_RBI s) 2 2, 0)"
proof -
  define al where "al = norm_angle (atan2 (- b) (- a) - delta)"
  define k where "k = real_of_int (if \<bar>al\<bar> = 0 then 1 else trunc (al / \<bar>al\<bar>))"
  define V where "V = vnorm (a, b, 0)"
  define n where "n = (if vdot (a, b, 0) (a, b, 0) > 5 / 1000 then 1 / V else 1)"
  define S where "S = 1 / 2 * rho * A * vdot (a, b, 0) (a, b, 0)"
  have V: "0 \<le> V" "vdot (a, b, 0) (a, b, 0) = V * V" by (simp_all add: V_def vnorm_nonneg) (simp add: vnorm_def)
  have n: "0 \<le> n" "(if vdot (a, b, 0) (a, b, 0) > 5 / 1000 then vscale (1 / V) (a, b, 0) else (a, b, 0)) = vscale n (a, b, 0)"
    using V(1) by (simp_all add: n_def)
  have nV: "n = (if V * V > 5 / 1000 then 1 / V else 1)" by (simp only: n_def V(2))
  have VVn: "V * V * n \<le> V"
  proof (cases "V * V > 5 / 1000")
    case False
    then have "V \<le> 1" using mult_strict_mono' [of 1 V 1 V] by (cases "V \<le> 1") auto
    then show ?thesis using False V mult_left_le [of V V] by (simp add: nV)
  qed (simp add: nV)
  have S: "0 \<le> S" using mult_nonneg_nonneg [OF assms(1) vdot_nonneg [of "(a, b, 0)"]] by (simp add: S_def mult.assoc)
  have "S * n = rho * A / 2 * (V * V * n)" unfolding S_def V(2) by simp
  then have c: "S * n \<le> rho * A / 2 * V" using mult_left_mono [OF VVn, of "rho * A / 2"] assms(1) by (simp only: divide_nonneg_pos)
  have "\<bar>k\<bar> \<le> 1" by (cases al "0 :: real" rule: linorder_cases) (simp_all add: k_def trunc_def)
  moreover have Cl: "\<bar>lift_coefficient maxlift \<bar>al\<bar>\<bar> \<le> 3 * maxlift"
    using lift_coefficient_bound [OF assms(3)] norm_angle_in_range by (simp add: al_def)
  ultimately have kCl: "\<bar>k * lift_coefficient maxlift \<bar>al\<bar>\<bar> \<le> 3 * maxlift"
    using mult_mono [of "\<bar>k\<bar>" 1 "\<bar>lift_coefficient maxlift \<bar>al\<bar>\<bar>" "3 * maxlift"] by (simp add: abs_mult)
  have "AeroForces s (a, b, 0) delta rho A mindrag maxdrag maxlift False =
      (S * n * (drag_coefficient mindrag maxdrag \<bar>al\<bar> * a - k * lift_coefficient maxlift \<bar>al\<bar> * b),
       S * n * (drag_coefficient mindrag maxdrag \<bar>al\<bar> * b + k * lift_coefficient maxlift \<bar>al\<bar> * a) * mentry (td_RBI s) 2 2, 0)"
    unfolding AeroForces_def Let_def prod.case al_def [symmetric] k_def [symmetric] V_def [symmetric] n(2) S_def [symmetric]
    by (simp add: mapply_def algebra_simps del: mentry.simps)
  then show ?thesis
    using that [of "S * n" "drag_coefficient mindrag maxdrag \<bar>al\<bar>" "k * lift_coefficient maxlift \<bar>al\<bar>"] S n(1) c kCl
      drag_coefficient_nonneg [OF assms(2)] by (simp add: V_def)
qed

text \<open>
  The power that a foil takes out of the motion.  The sideways part of its force is scaled by the cosine of the heel, so that
  the rest of the force is no longer at right angles to the flow: the lift of a heeled boat may add power, within a bound.
\<close>

lemma AeroForces_power:
  assumes "0 \<le> rho * A" "0 \<le> mindrag" "0 \<le> maxlift" "0 \<le> mentry (td_RBI s) 2 2" "mentry (td_RBI s) 2 2 \<le> 1"
  shows "- vdot (AeroForces s (flat f) delta rho A mindrag maxdrag maxlift False) f \<le>
    (1 - mentry (td_RBI s) 2 2) * (3 / 4 * (rho * A) * maxlift * vnorm (flat f) ^ 3)"
proof -
  obtain a b z where f: "f = (a, b, z)" by (rule vec3_cases)
  define V r where "V = vnorm (a, b, 0)" and "r = mentry (td_RBI s) 2 2"
  obtain c Cd Cl where sh: "0 \<le> c" "c \<le> rho * A / 2 * V" "0 \<le> Cd" "\<bar>Cl\<bar> \<le> 3 * maxlift"
    "AeroForces s (a, b, 0) delta rho A mindrag maxdrag maxlift False = (c * (Cd * a - Cl * b), c * (Cd * b + Cl * a) * r, 0)"
    using AeroForces_shape [OF assms(1-3)] unfolding V_def r_def by metis
  have V: "0 \<le> V" "V * V = a * a + b * b" by (simp_all add: V_def vnorm_nonneg) (simp add: vnorm_def)
  have r: "0 \<le> r" "r \<le> 1" using assms(4, 5) by (simp_all add: r_def)
  have ab: "\<bar>a * b\<bar> \<le> V * V / 2"
    using sum_squares_bound [of "\<bar>a\<bar>" "\<bar>b\<bar>"] by (simp add: V(2) abs_mult power2_eq_square)
  have "c * \<bar>Cl\<bar> * \<bar>a * b\<bar> \<le> rho * A / 2 * V * (3 * maxlift) * (V * V / 2)"
    using sh(1,2,4) ab assms(1,3) V(1) by (intro mult_mono mult_nonneg_nonneg) auto
  then have lift: "c * Cl * (a * b) \<le> 3 / 4 * (rho * A) * maxlift * V ^ 3"
    using abs_ge_self [of "c * Cl * (a * b)"] sh(1) by (simp add: abs_mult power3_eq_cube algebra_simps)
  have "- vdot (AeroForces s (flat f) delta rho A mindrag maxdrag maxlift False) f =
      (1 - r) * (c * Cl * (a * b)) - c * Cd * (a * a + r * (b * b))"
    using sh(5) by (simp add: f algebra_simps)
  also have "\<dots> \<le> (1 - r) * (c * Cl * (a * b))" using sh(1,3) r by simp
  also have "\<dots> \<le> (1 - r) * (3 / 4 * (rho * A) * maxlift * V ^ 3)" using lift r by (intro mult_left_mono) simp_all
  finally show ?thesis by (simp add: f V_def r_def)
qed

definition body_velocity :: "TrivialDynamics \<Rightarrow> vec3" where
  "body_velocity s = mapply (mtranspose (td_RBI s)) (td_v s)"

lemma mapply_vscale: "mapply R (vscale k v) = vscale k (mapply R v)"
  by (cases R rule: mat3_cases; cases v rule: vec3_cases) (simp add: mapply_def algebra_simps)

lemma water_flow_body: "water_flow s = flat (vscale (- 1) (body_velocity s))"
  by (simp add: water_flow_def body_velocity_def mapply_vscale)

lemma vsub_zero: "vsub (0, 0, 0) v = vscale (- 1) v"
  by (cases v rule: vec3_cases) simp

lemma calm_sail_flow: "mapply (mtranspose (td_RBI s)) (vsub (0, 0, 0) (td_v s)) = vscale (- 1) (body_velocity s)"
  by (simp only: vsub_zero body_velocity_def mapply_vscale)

lemma vdot_neg: "vdot a (vscale (- 1) b) = - vdot a b"
  by (cases a rule: vec3_cases; cases b rule: vec3_cases) simp

lemmas force_defs = RudderForces_def KeelForces_def HullForces_def water_flow_body

text \<open>How much power a heeled boat may gain from the sideways scaling, for a foil of a given size.\<close>

definition heel_gain :: "real \<Rightarrow> TrivialDynamics \<Rightarrow> real" where
  "heel_gain k s = (1 - cos (td_heel s)) * (k * vnorm (water_flow s) ^ 3)"

lemma heel_gain_add: "heel_gain a s + heel_gain b s = heel_gain (a + b) s" "heel_gain 0 s = 0"
  by (simp_all add: heel_gain_def algebra_simps)

lemma forces_against_motion:
  assumes "mentry (td_RBI s) 2 2 = cos (td_heel s)" "0 \<le> cos (td_heel s)"
  shows "vdot (RudderForces s) (body_velocity s) \<le> heel_gain (8925 / 100) s" and "vdot (KeelForces s) (body_velocity s) \<le> heel_gain 600 s"
    and "vdot (HullForces s) (body_velocity s) \<le> 0"
    and "td_wind s = (0, 0, 0) \<Longrightarrow> vdot (SailForces s) (body_velocity s) \<le> heel_gain (55125 / 10000) s"
  using assms AeroForces_power [of 1000 "7 / 100" "1 / 100" "17 / 10" s "vscale (- 1) (body_velocity s)" "td_deltar s * (15 / 10)" "5 / 100"]
    AeroForces_power [of 1000 "4 / 10" "2 / 100" 2 s "vscale (- 1) (body_velocity s)" 0 "11 / 10"]
    AeroForces_power [of 1000 "1 / 10" "1 / 100" 0 s "vscale (- 1) (body_velocity s)" 0 "2 / 10"]
    AeroForces_power [of "1225 / 1000" 4 "5 / 100" "15 / 10" s "vscale (- 1) (body_velocity s)" "td_deltas s" 1]
  by (simp_all add: force_defs vdot_neg SailForces_def calm_sail_flow heel_gain_def Let_def del: mentry.simps)

lemma hull_torque_against_motion: "vdot (HullTorques s) (td_omega s) \<le> 0"
proof -
  obtain wx wy wz where w: "td_omega s = (wx, wy, wz)" by (rule vec3_cases)
  have "0 \<le> \<bar>t\<bar> * (t * t)" for t :: real by simp
  then have "0 \<le> 100 * (\<bar>wx\<bar> * (wx * wx)) + 200 * (\<bar>wy\<bar> * (wy * wy)) + 200 * (\<bar>wz\<bar> * (wz * wz))"
    by (simp del: abs_mult_self_eq)
  then show ?thesis by (simp add: HullTorques_def w mapply_def algebra_simps)
qed

lemma net_force_power:
  "vdot (dbg_fnet (forces_and_torques s)) (td_v s) =
   vdot (SailForces s) (body_velocity s) + vdot (RudderForces s) (body_velocity s) +
   vdot (KeelForces s) (body_velocity s) + vdot (HullForces s) (body_velocity s)"
  by (simp add: forces_and_torques_def Let_def vdot_mapply vdot_vadd body_velocity_def)

text \<open>
  C24: Resistance takes energy from the boat.  For a boat on the water that has not capsized the force of the
  hull is directed against the motion and its torque against the rotation, whatever the wind is.  Rudder and keel, and without wind
  the sail and so the net force that a step applies and reports, drive an upright boat never.  They can drive a heeled one, because the code scales the
  sideways force down, but with a power of at most \<open>1 - cos heel\<close> times the cube of the speed times 89.25, 600, 5.5125 and 694.7625.
\<close>

theorem resistance_takes_energy:
  assumes "td_ok s" and "0 \<le> cos (td_heel s)"
  shows "vdot (HullForces s) (body_velocity s) \<le> 0 \<and> vdot (HullTorques s) (td_omega s) \<le> 0 \<and>
    vdot (RudderForces s) (body_velocity s) \<le> heel_gain (8925 / 100) s \<and> vdot (KeelForces s) (body_velocity s) \<le> heel_gain 600 s \<and>
    (td_wind s = (0, 0, 0) \<longrightarrow>
      vdot (SailForces s) (body_velocity s) \<le> heel_gain (55125 / 10000) s \<and>
      (\<exists>m. td_debug (Update_pos ds dr s) = td_debug s @ [m] \<and> vdot (dbg_fnet m) (td_v s) \<le> heel_gain (6947625 / 10000) s))"
proof -
  have r: "mentry (td_RBI s) 2 2 = cos (td_heel s)"
    using assms(1) by (simp add: td_ok_def heel_yaw_matrix_def Let_def)
  have "\<exists>m. td_debug (Update_pos ds dr s) = td_debug s @ [m] \<and> vdot (dbg_fnet m) (td_v s) \<le> heel_gain (6947625 / 10000) s"
    if calm: "td_wind s = (0, 0, 0)"
  proof -
    define s1 where "s1 = set_actuators ds dr s"
    have s1: "mentry (td_RBI s1) 2 2 = cos (td_heel s1)" "0 \<le> cos (td_heel s1)" "td_wind s1 = (0, 0, 0)" "td_v s1 = td_v s"
      "heel_gain k s1 = heel_gain k s" for k
      using r calm assms(2) by (simp_all add: s1_def heel_gain_def water_flow_def)
    have "heel_gain (8925 / 100) s1 + heel_gain 600 s1 + heel_gain (55125 / 10000) s1 = heel_gain (6947625 / 10000) s1"
      by (simp add: heel_gain_add)
    then have "vdot (dbg_fnet (forces_and_torques s1)) (td_v s1) \<le> heel_gain (6947625 / 10000) s1"
      unfolding net_force_power using forces_against_motion [OF s1(1,2)] s1(3) by linarith
    then show ?thesis using s1(4, 5)
      by (intro exI [of _ "forces_and_torques s1"]) (simp add: Update_pos_def integrate_def s1_def Let_def split: prod.splits)
  qed
  then show ?thesis using forces_against_motion [OF r assms(2)] hull_torque_against_motion by simp
qed

text \<open>An upright boat that runs at two metres per second, and one that is heeled by sixty degrees.\<close>

theorem resistance_takes_energy_witness:
  "(let s = set_from_state \<lparr>ss_sail = 1, ss_rudder = 1 / 10, ss_ballast = 0, ss_vel = (2, 0), ss_yaw = 0, ss_roll = 0, ss_pos = None\<rparr>
        (TrivialDynamics_new 1)
    in body_velocity s = (2, 0, 0) \<and> vdot (RudderForces s) (body_velocity s) \<le> 0 \<and>
       (\<exists>m. td_debug (Update_pos 1 0 s) = [m] \<and> vdot (dbg_fnet m) (2, 0, 0) \<le> 0)) \<and>
   (let s = set_from_state \<lparr>ss_sail = 1, ss_rudder = 0, ss_ballast = 0, ss_vel = (2, 0), ss_yaw = 0, ss_roll = pi / 3, ss_pos = None\<rparr>
        (TrivialDynamics_new 1)
    in vdot (HullForces s) (body_velocity s) \<le> 0 \<and> vdot (KeelForces s) (body_velocity s) \<le> 2400)"
  using resistance_takes_energy [OF set_from_state_ok [OF td_new_ok],
      of "\<lparr>ss_sail = 1, ss_rudder = 1 / 10, ss_ballast = 0, ss_vel = (2, 0), ss_yaw = 0, ss_roll = 0, ss_pos = None\<rparr>" 1 1 0]
    resistance_takes_energy [OF set_from_state_ok [OF td_new_ok],
      of "\<lparr>ss_sail = 1, ss_rudder = 0, ss_ballast = 0, ss_vel = (2, 0), ss_yaw = 0, ss_roll = pi / 3, ss_pos = None\<rparr>" 1 1 0]
  by (simp add: set_from_state_def TrivialDynamics_new_def heel_gain_def water_flow_def body_velocity_def heel_yaw_matrix_def
      mapply_def vnorm_def cos_60 sin_60 Let_def)

section \<open>Swapped rates\<close>

text \<open>
  What \<^verbatim>\<open>CalcXdot\<close> gives as the derivative of the heel is the rate of yaw, the vertical component of the
  angular velocity, as \<^verbatim>\<open>Update\<close> computes it; the derivative of the yaw is a combination with the wrong angle.
\<close>

theorem calc_xdot_heel_is_yaw_rate:
  "xs_heel (fst (CalcXdot X deltasdot u s)) = snd (snd (mapply (heel_yaw_matrix (xs_heel X) (xs_yaw X)) (xs_omega X)))"
  by (cases "xs_omega X" rule: vec3_cases) (simp add: CalcXdot_def Let_def mapply_def heel_yaw_matrix_def split: prod.splits)

end
