(* ===== verification/State_Estimator.thy ===== *)
theory State_Estimator
  imports Control_Msgs
begin

text \<open>
  The state estimator (\<^verbatim>\<open>sensor/state_estimator.cc\<close>): it turns the messages of the sensors on the
  CAN bus, with compass headings, into the boat's state, with mathematical angles, and publishes
  the wind.  Optional fields are options; a field group that is absent has all of its fields unset.
  The conversion of a rotation matrix to a quaternion is Eigen's and a parameter.
\<close>

section \<open>Messages and state\<close>

datatype WIND_REFERENCE = TRUE_NORTH_REF | MAGNETIC_NORTH_REF | APPARENT | TRUE_BOAT_REF | TRUE_WATER_REF

record Internal =
  in_sail :: "real option"
  in_rudder :: "real option"
  in_ballast :: "real option"
  in_saildot :: "real option"
  in_rudderdot :: "real option"
  in_ballastdot :: "real option"

type_synonym quat = "real \<times> real \<times> real \<times> real"

record EstimatedState =
  st_omega :: vec3
  st_pos :: vec3
  st_vel :: vec3
  st_euler :: vec3
  st_orientation :: quat
  st_internal :: Internal

datatype EsOut = StateOut EstimatedState | WindOut vec3 | TrueWindOut vec3

record StateEstimator =
  euler_angles :: vec3
  omega :: vec3
  pos :: vec3
  vel :: vec3
  internal :: Internal
  last_inclinometer :: real
  last_ballast :: real
  last_ballast_time :: int
  last_inclinometer_time :: int
  es_sent :: "EsOut list"

datatype EsEvent =
    EsHeading "real option"
  | EsRateTurn "real option"
  | EsAttitude "real option"
  | EsPosition "real option" "real option"
  | EsVelocity "real option" "real option"
  | EsWind "real option" "real option" "WIND_REFERENCE option"
  | EsInternal "real option" "real option" "real option" int int
  | EsInclinometer "real option" int int
  | EsIterate

section \<open>Handlers\<close>

definition es_heading :: "real option \<Rightarrow> StateEstimator \<Rightarrow> StateEstimator" where
  "es_heading h s =
     (case h of None \<Rightarrow> s
      | Some c \<Rightarrow> let (r, p, y) = euler_angles s in s\<lparr>euler_angles := (r, p, - c + pi / 2)\<rparr>)"

definition es_rate_turn :: "real option \<Rightarrow> StateEstimator \<Rightarrow> StateEstimator" where
  "es_rate_turn r s = (case r of None \<Rightarrow> s | Some rate \<Rightarrow> let (x, y, z) = omega s in s\<lparr>omega := (x, y, - rate)\<rparr>)"

definition es_attitude :: "real option \<Rightarrow> StateEstimator \<Rightarrow> StateEstimator" where
  "es_attitude pitch s = (case pitch of None \<Rightarrow> s | Some p \<Rightarrow> let (r, _, y) = euler_angles s in s\<lparr>euler_angles := (r, p, y)\<rparr>)"

definition es_position :: "real option \<Rightarrow> real option \<Rightarrow> StateEstimator \<Rightarrow> StateEstimator" where
  "es_position lat lon s =
     (case (lat, lon) of (Some la, Some lo) \<Rightarrow> let (_, _, z) = pos s in s\<lparr>pos := (lo, la, z)\<rparr> | _ \<Rightarrow> s)"

definition es_velocity :: "real option \<Rightarrow> real option \<Rightarrow> StateEstimator \<Rightarrow> StateEstimator" where
  "es_velocity sog cog s =
     (case (sog, cog) of
        (Some speed, Some c) \<Rightarrow>
          let h = pi / 2 - c; (_, _, z) = vel s in s\<lparr>vel := (speed * cos h, speed * sin h, z)\<rparr>
      | _ \<Rightarrow> s)"

definition es_send :: "EsOut \<Rightarrow> StateEstimator \<Rightarrow> StateEstimator" where
  "es_send m s = s\<lparr>es_sent := es_sent s @ [m]\<rparr>"

text \<open>The sensor gives the direction the wind comes from; what is sent is the way it blows.\<close>

definition wind_vector :: "bool \<Rightarrow> real \<Rightarrow> real \<Rightarrow> vec3" where
  "wind_vector true_wind wind_speed wind_angle =
     (let speed = - wind_speed; dir = - wind_angle + (if true_wind then pi / 2 else 0)
      in (speed * cos dir, speed * sin dir, 0))"

definition es_wind :: "real option \<Rightarrow> real option \<Rightarrow> WIND_REFERENCE option \<Rightarrow> StateEstimator \<Rightarrow> StateEstimator" where
  "es_wind wind_speed wind_angle ref s =
     (case (wind_speed, wind_angle, ref) of
        (Some v, Some a, Some r) \<Rightarrow>
          if r \<noteq> APPARENT then es_send (TrueWindOut (wind_vector True v a)) s
          else es_send (WindOut (wind_vector False v a)) s
      | _ \<Rightarrow> s)"

text \<open>The time that has passed, in seconds and at least a millisecond; \<open>t1\<close> and \<open>t2\<close> are two readings of the clock.\<close>

definition elapsed :: "int \<Rightarrow> int \<Rightarrow> real" where
  "elapsed now before = max (of_int (now - before) / 10 ^ 9) (1 / 1000)"

definition es_ballast :: "real \<Rightarrow> int \<Rightarrow> int \<Rightarrow> StateEstimator \<Rightarrow> StateEstimator" where
  "es_ballast ballast_angle t1 t2 s =
     (let dt = elapsed t1 (last_ballast_time s);
          ballastdot = (ballast_angle - last_ballast s) / dt;
          filtered = get_or 0 (in_ballastdot (internal s)) * (1 / 2) + (1 / 2) * ballastdot
      in s\<lparr>internal := (internal s)\<lparr>in_ballast := Some ballast_angle, in_ballastdot := Some filtered\<rparr>,
           last_ballast := ballast_angle, last_ballast_time := t2\<rparr>)"

definition es_internal :: "real option \<Rightarrow> real option \<Rightarrow> real option \<Rightarrow> int \<Rightarrow> int \<Rightarrow> StateEstimator \<Rightarrow> StateEstimator" where
  "es_internal sail rudder ballast t1 t2 s =
     (let s1 = (case sail of None \<Rightarrow> s | Some v \<Rightarrow> s\<lparr>internal := (internal s)\<lparr>in_sail := Some v\<rparr>\<rparr>);
          s2 = (case rudder of None \<Rightarrow> s1 | Some v \<Rightarrow> s1\<lparr>internal := (internal s1)\<lparr>in_rudder := Some v\<rparr>\<rparr>)
      in case ballast of None \<Rightarrow> s2 | Some v \<Rightarrow> es_ballast v t1 t2 s2)"

definition es_inclinometer :: "real option \<Rightarrow> int \<Rightarrow> int \<Rightarrow> StateEstimator \<Rightarrow> StateEstimator" where
  "es_inclinometer heel t1 t2 s =
     (case heel of None \<Rightarrow> s
      | Some h \<Rightarrow>
          let dt = elapsed t1 (last_inclinometer_time s);
              (_, p, y) = euler_angles s;
              (wx, wy, wz) = omega s
          in s\<lparr>euler_angles := (h, p, y), omega := (wx + 1 / 2 * ((h - last_inclinometer s) / dt - wx), wy, wz),
               last_inclinometer := h, last_inclinometer_time := t2\<rparr>)"

definition es_iterate :: "(mat3 \<Rightarrow> quat) \<Rightarrow> StateEstimator \<Rightarrow> StateEstimator" where
  "es_iterate quat_of s =
     es_send (StateOut \<lparr>st_omega = omega s, st_pos = pos s, st_vel = vel s, st_euler = euler_angles s,
       st_orientation = quat_of (RollPitchYawToMatrix (euler_angles s)), st_internal = internal s\<rparr>) s"

text \<open>The last readings of ballast and inclinometer are not initialised: they are a parameter.\<close>

definition StateEstimator_new :: "real \<Rightarrow> real \<Rightarrow> StateEstimator" where
  "StateEstimator_new junk1 junk2 =
     \<lparr>euler_angles = (0, 0, 0), omega = (0, 0, 0), pos = (0, 0, 0), vel = (0, 0, 0),
      internal = \<lparr>in_sail = None, in_rudder = None, in_ballast = None, in_saildot = None, in_rudderdot = None,
        in_ballastdot = None\<rparr>,
      last_inclinometer = junk1, last_ballast = junk2, last_ballast_time = 0, last_inclinometer_time = 0, es_sent = []\<rparr>"

primrec es_step :: "(mat3 \<Rightarrow> quat) \<Rightarrow> EsEvent \<Rightarrow> StateEstimator \<Rightarrow> StateEstimator" where
  "es_step q (EsHeading h) s = es_heading h s"
| "es_step q (EsRateTurn r) s = es_rate_turn r s"
| "es_step q (EsAttitude p) s = es_attitude p s"
| "es_step q (EsPosition lat lon) s = es_position lat lon s"
| "es_step q (EsVelocity sog cog) s = es_velocity sog cog s"
| "es_step q (EsWind v a r) s = es_wind v a r s"
| "es_step q (EsInternal sl rd b t1 t2) s = es_internal sl rd b t1 t2 s"
| "es_step q (EsInclinometer h t1 t2) s = es_inclinometer h t1 t2 s"
| "es_step q EsIterate s = es_iterate q s"

section \<open>The state as a function of the history\<close>

text \<open>The value that the last event which has one gives to a quantity.\<close>

definition latest :: "(EsEvent \<Rightarrow> 'a option) \<Rightarrow> 'a \<Rightarrow> EsEvent list \<Rightarrow> 'a" where
  "latest f d es = fold (\<lambda>e v. get_or v (f e)) es d"

lemma latest_simps [simp]: "latest f d [] = d" "latest f d (es @ [e]) = get_or (latest f d es) (f e)"
  by (simp_all add: latest_def)

fun yaw_of :: "EsEvent \<Rightarrow> real option" where
  "yaw_of (EsHeading (Some h)) = Some (pi / 2 - h)"
| "yaw_of _ = None"

fun roll_of :: "EsEvent \<Rightarrow> real option" where
  "roll_of (EsInclinometer (Some h) t1 t2) = Some h"
| "roll_of _ = None"

fun pitch_of :: "EsEvent \<Rightarrow> real option" where
  "pitch_of (EsAttitude (Some p)) = Some p"
| "pitch_of _ = None"

fun turn_of :: "EsEvent \<Rightarrow> real option" where
  "turn_of (EsRateTurn (Some r)) = Some (- r)"
| "turn_of _ = None"

fun lonlat_of :: "EsEvent \<Rightarrow> vec2 option" where
  "lonlat_of (EsPosition (Some lat) (Some lon)) = Some (lon, lat)"
| "lonlat_of _ = None"

fun speed_of :: "EsEvent \<Rightarrow> vec2 option" where
  "speed_of (EsVelocity (Some sog) (Some cog)) = Some (sog * sin cog, sog * cos cog)"
| "speed_of _ = None"

definition history_ok :: "EsEvent list \<Rightarrow> StateEstimator \<Rightarrow> bool" where
  "history_ok es s \<longleftrightarrow>
     euler_angles s = (latest roll_of 0 es, latest pitch_of 0 es, latest yaw_of 0 es) \<and>
     snd (snd (omega s)) = latest turn_of 0 es \<and>
     pos s = (fst (latest lonlat_of (0, 0) es), snd (latest lonlat_of (0, 0) es), 0) \<and>
     vel s = (fst (latest speed_of (0, 0) es), snd (latest speed_of (0, 0) es), 0)"

lemma sin_cos_compass: "cos (pi / 2 - c) = sin c" "sin (pi / 2 - c) = cos c"
  by (simp_all add: cos_diff sin_diff)

lemma history_step:
  assumes "history_ok es s"
  shows "history_ok (es @ [e]) (es_step q e s)"
proof (cases e)
  case (EsHeading h) with assms show ?thesis by (cases h) (auto simp: history_ok_def es_heading_def)
next
  case (EsRateTurn r) with assms show ?thesis
    by (cases r; cases "omega s") (auto simp: history_ok_def es_rate_turn_def)
next
  case (EsAttitude p) with assms show ?thesis by (cases p) (auto simp: history_ok_def es_attitude_def)
next
  case (EsPosition lat lon) with assms show ?thesis by (cases lat; cases lon) (auto simp: history_ok_def es_position_def)
next
  case (EsVelocity sog cog) with assms show ?thesis
    by (cases sog; cases cog) (auto simp: history_ok_def es_velocity_def sin_cos_compass)
next
  case (EsWind v a r) with assms show ?thesis
    by (cases v; cases a; cases r) (auto simp: history_ok_def es_wind_def es_send_def)
next
  case (EsInternal sl rd b t1 t2) with assms show ?thesis
    by (cases sl; cases rd; cases b) (auto simp: history_ok_def es_internal_def es_ballast_def Let_def)
next
  case (EsInclinometer h t1 t2) with assms show ?thesis
    by (cases h; cases "omega s") (auto simp: history_ok_def es_inclinometer_def Let_def)
next
  case EsIterate with assms show ?thesis by (auto simp: history_ok_def es_iterate_def es_send_def)
qed

lemma history_run: "history_ok es (fold (es_step q) es (StateEstimator_new j1 j2))"
proof (induction es rule: rev_induct)
  case Nil
  show ?case by (simp add: history_ok_def StateEstimator_new_def)
next
  case (snoc e es)
  then show ?case using history_step by simp
qed

text \<open>
  C18: The published state is a function of the messages so far: roll, pitch, yaw, rate of turn,
  position and velocity are those of the last message that had them, compass headings and courses
  turned into mathematical angles, and the orientation belongs to the published angles.
\<close>

theorem state_is_latest_reading:
  "\<exists>st. es_sent (es_step q EsIterate (fold (es_step q) es (StateEstimator_new j1 j2))) =
      es_sent (fold (es_step q) es (StateEstimator_new j1 j2)) @ [StateOut st] \<and>
    st_euler st = (latest roll_of 0 es, latest pitch_of 0 es, latest yaw_of 0 es) \<and>
    snd (snd (st_omega st)) = latest turn_of 0 es \<and>
    st_pos st = (fst (latest lonlat_of (0, 0) es), snd (latest lonlat_of (0, 0) es), 0) \<and>
    st_vel st = (fst (latest speed_of (0, 0) es), snd (latest speed_of (0, 0) es), 0) \<and>
    st_orientation st = q (RollPitchYawToMatrix (st_euler st))"
  using history_run [of es q j1 j2] by (simp add: history_ok_def es_iterate_def es_send_def)

section \<open>The filtered rate of heel\<close>

text \<open>Readings of a steady rate, \<open>d\<close> nanoseconds apart.\<close>

fun steady :: "(mat3 \<Rightarrow> quat) \<Rightarrow> real \<Rightarrow> real \<Rightarrow> int \<Rightarrow> int \<Rightarrow> nat \<Rightarrow> StateEstimator \<Rightarrow> StateEstimator" where
  "steady q h rate t d 0 s = es_step q (EsInclinometer (Some h) t t) s"
| "steady q h rate t d (Suc n) s =
     es_step q (EsInclinometer (Some (h + rate * real (Suc n) * (of_int d / 10 ^ 9))) (t + int (Suc n) * d) (t + int (Suc n) * d))
       (steady q h rate t d n s)"

lemma steady_last:
  "last_inclinometer (steady q h rate t d n s) = h + rate * real n * (of_int d / 10 ^ 9)"
  "last_inclinometer_time (steady q h rate t d n s) = t + int n * d"
  by (cases n; cases "euler_angles (steady q h rate t d (n - 1) s)"; cases "omega (steady q h rate t d (n - 1) s)";
      cases "euler_angles s"; cases "omega s"; simp add: es_inclinometer_def Let_def)+

text \<open>
  For readings at least a millisecond apart of a boat that heels at a steady rate, the error of
  the estimated rate is halved with every reading.
\<close>

theorem heel_rate_converges:
  assumes "10 ^ 6 \<le> d"
  shows "fst (omega (steady q h rate t d n s)) - rate = (fst (omega (steady q h rate t d 0 s)) - rate) / 2 ^ n"
proof (induction n)
  case (Suc n)
  define s' where "s' = steady q h rate t d n s"
  have dt: "elapsed (t + int (Suc n) * d) (last_inclinometer_time s') = of_int d / 10 ^ 9"
    using assms by (simp add: s'_def steady_last elapsed_def algebra_simps max_def)
  have pos: "of_int d / 10 ^ 9 > (0 :: real)" using assms by simp
  have diff: "h + rate * real (Suc n) * (of_int d / 10 ^ 9) - last_inclinometer s' = rate * (of_int d / 10 ^ 9)"
    unfolding s'_def steady_last by (simp add: algebra_simps add_divide_distrib)
  have "fst (omega (steady q h rate t d (Suc n) s)) =
      fst (omega s') + 1 / 2 * (rate * (of_int d / 10 ^ 9) / (of_int d / 10 ^ 9) - fst (omega s'))"
    unfolding steady.simps es_step.simps s'_def [symmetric]
    by (cases "euler_angles s'"; cases "omega s'") (simp only: es_inclinometer_def option.case Let_def prod.case dt diff, simp)
  also have "\<dots> = fst (omega s') + 1 / 2 * (rate - fst (omega s'))" using pos by simp
  finally have "fst (omega (steady q h rate t d (Suc n) s)) - rate = (fst (omega s') - rate) / 2" by (simp add: field_simps)
  then show ?case using Suc.IH by (simp add: s'_def field_simps)
qed simp

theorem heel_rate_converges_witness:
  "\<forall>q s. fst (omega (steady q 0 3 0 (10 ^ 7) 2 s)) - 3 = (fst (omega (steady q 0 3 0 (10 ^ 7) 0 s)) - 3) / 2 ^ 2"
  by (intro allI heel_rate_converges) simp

end
