(* ===== verification/Simulator.thy ===== *)
theory Simulator
  imports Sim_Physics State_Estimator
begin

text \<open>
  The simulator (\<^verbatim>\<open>sim/sim_inter.h\<close>, \<^verbatim>\<open>sim/sim_inter.cc\<close>) and the nodes that stand for the sensors:
  the fake weather station (\<^verbatim>\<open>sim/fake_airmar.h\<close>, \<^verbatim>\<open>sim/fake_airmar.cc\<close>), whose messages the state estimator
  reads, and the fake internal sensors.  A float that is not a number is \<^term>\<open>None\<close> where the code
  can meet one: in the commands, the commanded rudder angle and the rate of the ballast.
\<close>

section \<open>The fake weather station\<close>

record AirmarLast =
  la_heading :: real
  la_rate :: real
  la_attitude :: vec2
  la_pos :: vec2
  la_cog :: vec2
  la_wind :: "real \<times> real \<times> WIND_REFERENCE"

datatype AmOut =
    AmHeading real
  | AmRate real
  | AmAttitude real real
  | AmPos real real
  | AmCog real real
  | AmWind real real WIND_REFERENCE

text \<open>A state without Euler angles and a wind without its first coordinate are not used.\<close>

record FakeAirmar =
  fa_last :: AirmarLast
  fa_state :: "EstimatedState option"
  fa_wind :: "vec3 option"
  fa_lat :: real
  fa_lon :: real
  fa_lat_scale :: real
  fa_lon_scale :: real
  fa_counter :: int
  fa_sent :: "AmOut list"

definition am_dt :: real where "am_dt = 1 / 10"
definition kTContinuous :: real where "kTContinuous = - 21 / 10"

definition FakeAirmar_new :: FakeAirmar where
  "FakeAirmar_new =
     \<lparr>fa_last = \<lparr>la_heading = 0, la_rate = 0, la_attitude = (0, 0), la_pos = (0, 0), la_cog = (0, 0), la_wind = (0, 0, TRUE_NORTH_REF)\<rparr>,
      fa_state = None, fa_wind = None, fa_lat = 42276126 / 10 ^ 6 * pi / 180, fa_lon = - 71756934 / 10 ^ 6 * pi / 180,
      fa_lat_scale = 111078 / pi * 180, fa_lon_scale = 824996 / 10 / pi * 180, fa_counter = 0, fa_sent = []\<rparr>"

definition set_gps_zero :: "real \<Rightarrow> real \<Rightarrow> FakeAirmar \<Rightarrow> FakeAirmar" where
  "set_gps_zero lat lon a =
     (let (latscale, lonscale) = GPSLatLonScale lat
      in a\<lparr>fa_lat := lat, fa_lon := lon, fa_lat_scale := latscale, fa_lon_scale := lonscale\<rparr>)"

definition fa_handle_state :: "EstimatedState option \<Rightarrow> FakeAirmar \<Rightarrow> FakeAirmar" where
  "fa_handle_state st a = a\<lparr>fa_state := st\<rparr>"

definition fa_handle_wind :: "vec3 option \<Rightarrow> FakeAirmar \<Rightarrow> FakeAirmar" where
  "fa_handle_wind w a = a\<lparr>fa_wind := w\<rparr>"

text \<open>The noise is switched off: the function draws a number and returns zero.\<close>

definition Normal :: "real \<Rightarrow> real" where
  "Normal std = 0"

definition CalcNew :: "real \<Rightarrow> real \<Rightarrow> real \<Rightarrow> real" where
  "CalcNew before truth kT = (let diff = norm_angle (truth - before) in norm_angle (before + (1 - kT) * diff))"

definition am_send :: "AmOut \<Rightarrow> FakeAirmar \<Rightarrow> FakeAirmar" where
  "am_send m a = a\<lparr>fa_sent := fa_sent a @ [m]\<rparr>"

definition am_heading :: "EstimatedState \<Rightarrow> FakeAirmar \<Rightarrow> FakeAirmar" where
  "am_heading st a =
     (let kTdt = 0 * exp (am_dt * kTContinuous);
          (_, _, yaw) = st_euler st;
          heading = pi / 2 - yaw;
          h = CalcNew (la_heading (fa_last a)) heading kTdt
      in (am_send (AmHeading h) a)\<lparr>fa_last := (fa_last a)\<lparr>la_heading := h\<rparr>\<rparr>)"

definition am_rate :: "EstimatedState \<Rightarrow> FakeAirmar \<Rightarrow> FakeAirmar" where
  "am_rate st a =
     (let (_, _, wz) = st_omega st; r = - wz + Normal (5 / 100)
      in (am_send (AmRate r) a)\<lparr>fa_last := (fa_last a)\<lparr>la_rate := r\<rparr>\<rparr>)"

definition am_attitude :: "EstimatedState \<Rightarrow> FakeAirmar \<Rightarrow> FakeAirmar" where
  "am_attitude st a =
     (if fa_counter a mod trunc (1 / am_dt) = 0
      then let kT1Hz = 0 * exp kTContinuous;
               (r0, p0, _) = st_euler st;
               roll = r0 + Normal (5 / 100);
               pitch = p0 + Normal (5 / 100);
               r = CalcNew (fst (la_attitude (fa_last a))) roll kT1Hz;
               p = CalcNew (snd (la_attitude (fa_last a))) pitch kT1Hz
           in (am_send (AmAttitude r p) a)\<lparr>fa_last := (fa_last a)\<lparr>la_attitude := (r, p)\<rparr>\<rparr>
      else a)"

definition am_pos :: "EstimatedState \<Rightarrow> FakeAirmar \<Rightarrow> FakeAirmar" where
  "am_pos st a =
     (let (px, py, _) = st_pos st;
          x = px + Normal (5 / 10);
          y = py + Normal (5 / 10);
          lat = y / fa_lat_scale a + fa_lat a;
          lon = x / fa_lon_scale a + fa_lon a
      in (am_send (AmPos lat lon) a)\<lparr>fa_last := (fa_last a)\<lparr>la_pos := (lat, lon)\<rparr>\<rparr>)"

definition am_cog :: "EstimatedState \<Rightarrow> FakeAirmar \<Rightarrow> FakeAirmar" where
  "am_cog st a =
     (let (vx, vy, _) = st_vel st;
          sog = sqrt (vx * vx + vy * vy) + Normal (1 / 10);
          cog = pi / 2 - atan2 vy vx + Normal (5 / 100)
      in (am_send (AmCog sog cog) a)\<lparr>fa_last := (fa_last a)\<lparr>la_cog := (sog, cog)\<rparr>\<rparr>)"

definition am_wind :: "EstimatedState \<Rightarrow> vec3 \<Rightarrow> FakeAirmar \<Rightarrow> FakeAirmar" where
  "am_wind st wind a =
     (let (vx, vy, _) = st_vel st;
          (_, _, yaw) = st_euler st;
          (x, y, _) = wind;
          true_wind_angle = norm_angle (pi / 2 - atan2 (- y) (- x) + Normal (5 / 100));
          a1 = am_send (AmWind (sqrt (x * x + y * y) + Normal (1 / 10)) true_wind_angle TRUE_NORTH_REF) a;
          wx = x - vx;
          wy = y - vy;
          alphaw = - norm_angle (atan2 (- wy) (- wx) - yaw);
          speed = sqrt (wx * wx + wy * wy)
      in (am_send (AmWind speed alphaw APPARENT) a1)\<lparr>fa_last := (fa_last a1)\<lparr>la_wind := (speed, alphaw, APPARENT)\<rparr>\<rparr>)"

definition fa_iterate :: "FakeAirmar \<Rightarrow> FakeAirmar" where
  "fa_iterate a =
     (case (fa_state a, fa_wind a) of
        (Some st, Some w) \<Rightarrow>
          let a1 = am_wind st w (am_cog st (am_pos st (am_attitude st (am_rate st (am_heading st a)))))
          in a1\<lparr>fa_counter := fa_counter a1 + 1\<rparr>
      | _ \<Rightarrow> a)"

text \<open>The messages on the bus, as the state estimator's handlers get them.\<close>

primrec to_es :: "AmOut \<Rightarrow> EsEvent" where
  "to_es (AmHeading h) = EsHeading (Some h)"
| "to_es (AmRate r) = EsRateTurn (Some r)"
| "to_es (AmAttitude r p) = EsAttitude (Some p)"
| "to_es (AmPos lat lon) = EsPosition (Some lat) (Some lon)"
| "to_es (AmCog sog cog) = EsVelocity (Some sog) (Some cog)"
| "to_es (AmWind v a ref) = EsWind (Some v) (Some a) (Some ref)"

text \<open>The fake internal sensors pass the internal state on when a message has one.\<close>

definition fi_handle_state :: "Internal option \<Rightarrow> Internal list \<Rightarrow> Internal list" where
  "fi_handle_state inner sent = (case inner of None \<Rightarrow> sent | Some i \<Rightarrow> sent @ [i])"

section \<open>The estimator recovers what is simulated\<close>

definition same_angle :: "real \<Rightarrow> real \<Rightarrow> bool" where
  "same_angle a b \<longleftrightarrow> (\<exists>k :: int. a = b + of_int k * (2 * pi))"

lemma same_angle_norm: "same_angle (norm_angle a) a"
  using norm_angle_turns [of a] by (metis same_angle_def add_uminus_conv_diff mult_minus_left of_int_minus)

lemma same_angle_trans: "same_angle a b \<Longrightarrow> same_angle b c \<Longrightarrow> same_angle a c"
proof -
  assume "same_angle a b" "same_angle b c"
  then obtain j k :: int where "a = b + of_int j * (2 * pi)" "b = c + of_int k * (2 * pi)" unfolding same_angle_def by blast
  then show "same_angle a c" unfolding same_angle_def by (intro exI [of _ "j + k"]) (simp add: algebra_simps)
qed

lemma same_angle_shift: "same_angle a b \<Longrightarrow> same_angle (c + a) (c + b)"
  unfolding same_angle_def by (metis add.assoc)

lemma same_angle_minus: "same_angle a b \<Longrightarrow> same_angle (- a) (- b)"
  unfolding same_angle_def by (metis minus_add_distrib mult_minus_left of_int_minus)

lemma CalcNew_truth: "same_angle (CalcNew before truth 0) truth"
proof -
  have "same_angle (before + norm_angle (truth - before)) (before + (truth - before))"
    by (intro same_angle_shift same_angle_norm)
  then show ?thesis
    using same_angle_trans [OF same_angle_norm] by (simp add: CalcNew_def Let_def)
qed

lemma same_angle_trig: "same_angle a b \<Longrightarrow> cos a = cos b" "same_angle a b \<Longrightarrow> sin a = sin b"
proof -
  assume "same_angle a b"
  then obtain k :: int where "a = b + of_int k * (2 * pi)" unfolding same_angle_def ..
  then show "cos a = cos b" "sin a = sin b"
    using sin_int_2pin [of k] cos_int_2pin [of k] by (simp_all add: cos_add sin_add mult.commute)
qed

lemma polar_vector:
  assumes "same_angle d (atan2 (- y) (- x) + r)"
  shows "(- sqrt (x * x + y * y) * cos d, - sqrt (x * x + y * y) * sin d, 0) = mapply (rotZ r) (x, y, 0)"
proof -
  define R where "R = sqrt (x * x + y * y)"
  define C S where "C = cos (atan2 (- y) (- x))" and "S = sin (atan2 (- y) (- x))"
  have "R * C = - x" "R * S = - y"
    using atan2_cartesian [of "- x" "- y"] by (simp_all add: power2_eq_square R_def C_def S_def)
  moreover have "cos d = C * cos r - S * sin r" "sin d = S * cos r + C * sin r"
    using same_angle_trig [OF assms] by (simp_all add: cos_add sin_add C_def S_def)
  ultimately have "- R * cos d = cos r * x - sin r * y" "- R * sin d = sin r * x + cos r * y" by algebra+
  then show ?thesis by (simp add: mapply_def rotZ_def flip: R_def)
qed

definition attitude_due :: "FakeAirmar \<Rightarrow> bool" where
  "attitude_due a \<longleftrightarrow> fa_counter a mod 10 = 0"

lemma trunc_rate: "trunc (1 / am_dt) = 10"
  by (simp add: am_dt_def trunc_def)

lemma am_keep [simp]:
  "fa_counter (am_heading st a) = fa_counter a" "fa_counter (am_rate st a) = fa_counter a"
  "fa_lat (am_heading st a) = fa_lat a" "fa_lat (am_rate st a) = fa_lat a" "fa_lat (am_attitude st a) = fa_lat a"
  "fa_lon (am_heading st a) = fa_lon a" "fa_lon (am_rate st a) = fa_lon a" "fa_lon (am_attitude st a) = fa_lon a"
  "fa_lat_scale (am_heading st a) = fa_lat_scale a" "fa_lat_scale (am_rate st a) = fa_lat_scale a"
  "fa_lat_scale (am_attitude st a) = fa_lat_scale a" "fa_lon_scale (am_heading st a) = fa_lon_scale a"
  "fa_lon_scale (am_rate st a) = fa_lon_scale a" "fa_lon_scale (am_attitude st a) = fa_lon_scale a"
  by (simp_all add: am_heading_def am_rate_def am_attitude_def am_send_def Let_def split: prod.splits)

lemma am_heading_sent: "\<exists>h. fa_sent (am_heading st a) = fa_sent a @ [AmHeading h] \<and> same_angle h (pi / 2 - snd (snd (st_euler st)))"
  by (cases "st_euler st" rule: vec3_cases)
    (simp add: am_heading_def am_send_def Let_def CalcNew_truth)

lemma am_attitude_sent:
  "\<exists>r p. fa_sent (am_attitude st a) = fa_sent a @ (if attitude_due a then [AmAttitude r p] else []) \<and> same_angle p (fst (snd (st_euler st)))"
  by (cases "st_euler st" rule: vec3_cases)
    (auto simp: am_attitude_def am_send_def Let_def Normal_def trunc_rate attitude_due_def intro: CalcNew_truth)

lemma am_other_sent:
  "fa_sent (am_rate st a) = fa_sent a @ [AmRate (- snd (snd (st_omega st)))]"
  "fa_sent (am_pos st a) = fa_sent a @
     [AmPos (fst (snd (st_pos st)) / fa_lat_scale a + fa_lat a) (fst (st_pos st) / fa_lon_scale a + fa_lon a)]"
  "st_vel st = (vx, vy, vz) \<Longrightarrow> fa_sent (am_cog st a) = fa_sent a @ [AmCog (sqrt (vx * vx + vy * vy)) (pi / 2 - atan2 vy vx)]"
  by (simp_all add: am_rate_def am_pos_def am_cog_def am_send_def Let_def Normal_def split: prod.splits)

lemma am_wind_sent:
  assumes "st_vel st = (vx, vy, vz)" "st_euler st = (r, p, y)"
  shows "\<exists>t al. fa_sent (am_wind st (wx, wy, wz) a) = fa_sent a @
      [AmWind (sqrt (wx * wx + wy * wy)) t TRUE_NORTH_REF,
       AmWind (sqrt ((wx - vx) * (wx - vx) + (wy - vy) * (wy - vy))) al APPARENT] \<and>
    same_angle (- t + pi / 2) (atan2 (- wy) (- wx)) \<and> same_angle (- al) (atan2 (- (wy - vy)) (- (wx - vx)) - y)"
proof -
  define t where "t = norm_angle (pi / 2 - atan2 (- wy) (- wx))"
  have "same_angle (pi / 2 + - t) (pi / 2 + - (pi / 2 - atan2 (- wy) (- wx)))"
    unfolding t_def by (intro same_angle_shift same_angle_minus same_angle_norm)
  then have "same_angle (- t + pi / 2) (atan2 (- wy) (- wx))" by (simp add: add.commute)
  then show ?thesis
    using assms same_angle_norm [of "atan2 (- (wy - vy)) (- (wx - vx)) - y"]
    by (simp add: am_wind_def am_send_def Let_def Normal_def flip: t_def)
qed

text \<open>The messages of one iteration; the attitude is among them when it is due.\<close>

definition station_messages :: "real \<Rightarrow> real \<Rightarrow> vec2 option \<Rightarrow> vec2 \<Rightarrow> vec2 \<Rightarrow> vec2 \<Rightarrow> real \<Rightarrow> real \<Rightarrow> AmOut list" where
  "station_messages h rate att lonlat v w t al =
     (let (vx, vy) = v; (wx, wy) = w
      in [AmHeading h, AmRate rate] @ (case att of None \<Rightarrow> [] | Some (r, p) \<Rightarrow> [AmAttitude r p]) @
         [AmPos (snd lonlat) (fst lonlat), AmCog (sqrt (vx * vx + vy * vy)) (pi / 2 - atan2 vy vx),
          AmWind (sqrt (wx * wx + wy * wy)) t TRUE_NORTH_REF,
          AmWind (sqrt ((wx - vx) * (wx - vx) + (wy - vy) * (wy - vy))) al APPARENT])"

definition station_position :: "FakeAirmar \<Rightarrow> EstimatedState \<Rightarrow> vec2" where
  "station_position a st =
     (fst (st_pos st) / fa_lon_scale a + fa_lon a, fst (snd (st_pos st)) / fa_lat_scale a + fa_lat a)"

definition station_angles_ok :: "vec3 \<Rightarrow> vec2 \<Rightarrow> vec2 \<Rightarrow> real \<Rightarrow> vec2 option \<Rightarrow> real \<Rightarrow> real \<Rightarrow> bool" where
  "station_angles_ok euler v w h att t al \<longleftrightarrow>
     (let (_, p, y) = euler; (vx, vy) = v; (wx, wy) = w
      in same_angle h (pi / 2 - y) \<and> (\<forall>r p'. att = Some (r, p') \<longrightarrow> same_angle p' p) \<and>
         same_angle (- t + pi / 2) (atan2 (- wy) (- wx)) \<and> same_angle (- al) (atan2 (- (wy - vy)) (- (wx - vx)) - y))"

lemma fa_iterate_sent:
  assumes "fa_state a = Some st" "fa_wind a = Some (wx, wy, wz)" and st: "st_vel st = (vx, vy, vz)" "st_euler st = (r, p, y)"
  shows "\<exists>h att t al. fa_sent (fa_iterate a) = fa_sent a @
      station_messages h (- snd (snd (st_omega st))) att (station_position a st) (vx, vy) (wx, wy) t al \<and>
    (att \<noteq> None \<longleftrightarrow> attitude_due a) \<and> station_angles_ok (st_euler st) (vx, vy) (wx, wy) h att t al"
proof -
  define a1 where "a1 = am_rate st (am_heading st a)"
  define a2 where "a2 = am_attitude st a1"
  obtain h where h: "fa_sent (am_heading st a) = fa_sent a @ [AmHeading h]" "same_angle h (pi / 2 - y)"
    using am_heading_sent [of st a] st by auto
  obtain r' p' where at: "fa_sent a2 = fa_sent a1 @ (if attitude_due a1 then [AmAttitude r' p'] else [])" "same_angle p' p"
    using am_attitude_sent [of st a1] st by (auto simp: a2_def)
  obtain t al where w: "fa_sent (am_wind st (wx, wy, wz) (am_cog st (am_pos st a2))) = fa_sent (am_cog st (am_pos st a2)) @
      [AmWind (sqrt (wx * wx + wy * wy)) t TRUE_NORTH_REF,
       AmWind (sqrt ((wx - vx) * (wx - vx) + (wy - vy) * (wy - vy))) al APPARENT]"
    "same_angle (- t + pi / 2) (atan2 (- wy) (- wx))" "same_angle (- al) (atan2 (- (wy - vy)) (- (wx - vx)) - y)"
    using am_wind_sent [OF st] by blast
  have due: "attitude_due a1 = attitude_due a" by (simp add: a1_def attitude_due_def)
  have "fa_sent (fa_iterate a) = fa_sent (am_wind st (wx, wy, wz) (am_cog st (am_pos st a2)))"
    using assms(1,2) by (simp add: fa_iterate_def Let_def a1_def a2_def)
  also have "\<dots> = fa_sent a @ station_messages h (- snd (snd (st_omega st)))
      (if attitude_due a then Some (r', p') else None) (station_position a st) (vx, vy) (wx, wy) t al"
    by (simp add: w(1) am_other_sent(2) am_other_sent(3) [OF st(1)] at(1) due station_messages_def station_position_def)
      (simp add: a2_def a1_def am_other_sent(1) h(1))
  finally show ?thesis
    using h(2) at(2) w(2,3) by (intro exI [of _ h] exI [of _ "if attitude_due a then Some (r', p') else None"] exI [of _ t] exI [of _ al])
      (simp add: station_angles_ok_def st)
qed

lemma estimator_run:
  assumes "station_angles_ok (roll, pitch, yaw) (vx, vy) (wx, wy) h att t al"
  shows "\<exists>out. es_sent (fold (es_step q) (map to_es (station_messages h rate att lonlat (vx, vy) (wx, wy) t al) @ [EsIterate]) e) =
     es_sent e @ [TrueWindOut (wx, wy, 0), WindOut (mapply (rotZ (- yaw)) (wx - vx, wy - vy, 0)), StateOut out] \<and>
     same_angle (snd (snd (st_euler out))) yaw \<and> (att \<noteq> None \<longrightarrow> same_angle (fst (snd (st_euler out))) pitch) \<and>
     snd (snd (st_omega out)) = - rate \<and> fst (st_pos out) = fst lonlat \<and> fst (snd (st_pos out)) = snd lonlat \<and>
     fst (st_vel out) = vx \<and> fst (snd (st_vel out)) = vy"
proof -
  obtain e0 e1 e2 o0 o1 o2 where e: "euler_angles e = (e0, e1, e2)" "omega e = (o0, o1, o2)" by (metis surj_pair)
  obtain p0 p1 p2 v0 v1 v2 where e': "pos e = (p0, p1, p2)" "vel e = (v0, v1, v2)" by (metis surj_pair)
  have as: "same_angle h (pi / 2 - yaw)" "\<And>r p'. att = Some (r, p') \<Longrightarrow> same_angle p' pitch"
    "same_angle (- t + pi / 2) (atan2 (- wy) (- wx))" "same_angle (- al) (atan2 (- (wy - vy)) (- (wx - vx)) - yaw)"
    using assms by (auto simp: station_angles_ok_def)
  have "same_angle (pi / 2 + - h) (pi / 2 + - (pi / 2 - yaw))" by (intro same_angle_shift same_angle_minus as(1))
  then have y: "same_angle (pi / 2 - h) yaw" by simp
  have v: "sqrt (vx * vx + vy * vy) * cos (atan2 vy vx) = vx" "sqrt (vx * vx + vy * vy) * sin (atan2 vy vx) = vy"
    using atan2_cartesian [of vx vy] by (simp_all add: power2_eq_square)
  have tw: "wind_vector True (sqrt (wx * wx + wy * wy)) t = (wx, wy, 0)"
    using polar_vector [of "- t + pi / 2" wy wx 0] as(3) by (simp add: wind_vector_def mapply_def rotZ_def)
  have aw: "wind_vector False (sqrt ((wx - vx) * (wx - vx) + (wy - vy) * (wy - vy))) al = mapply (rotZ (- yaw)) (wx - vx, wy - vy, 0)"
    using polar_vector [of "- al" "wy - vy" "wx - vx" "- yaw"] as(4) by (simp add: wind_vector_def)
  show ?thesis
    using y as(2) by (cases att) (auto simp: station_messages_def e e' es_heading_def es_rate_turn_def es_attitude_def es_position_def
        es_velocity_def es_wind_def es_iterate_def es_send_def Let_def v tw aw)
qed

text \<open>
  C21: The estimator recovers what is simulated.  After the fake weather station has been given a state and a wind,
  one iteration of it sends messages from which the state estimator, in any state, publishes the true wind, the
  apparent wind in the frame of the boat, and a state with the simulated yaw and pitch (up to whole turns; the pitch
  once in ten iterations), rate of turn and velocity, and the position in degrees around the reference point.
\<close>

theorem estimator_recovers_simulation:
  assumes "fa_state a = Some st" and "fa_wind a = Some (wx, wy, wz)"
    and "st_vel st = (vx, vy, vz)" and "st_euler st = (roll, pitch, yaw)"
  shows "\<exists>ms out. fa_sent (fa_iterate a) = fa_sent a @ ms \<and>
    es_sent (fold (es_step q) (map to_es ms @ [EsIterate]) e) =
      es_sent e @ [TrueWindOut (wx, wy, 0), WindOut (mapply (rotZ (- yaw)) (wx - vx, wy - vy, 0)), StateOut out] \<and>
    same_angle (snd (snd (st_euler out))) yaw \<and>
    (fa_counter a mod 10 = 0 \<longrightarrow> same_angle (fst (snd (st_euler out))) pitch) \<and>
    snd (snd (st_omega out)) = snd (snd (st_omega st)) \<and>
    fst (st_vel out) = vx \<and> fst (snd (st_vel out)) = vy \<and>
    fst (st_pos out) = fst (st_pos st) / fa_lon_scale a + fa_lon a \<and>
    fst (snd (st_pos out)) = fst (snd (st_pos st)) / fa_lat_scale a + fa_lat a"
proof -
  obtain h att t al where f: "fa_sent (fa_iterate a) = fa_sent a @
      station_messages h (- snd (snd (st_omega st))) att (station_position a st) (vx, vy) (wx, wy) t al"
    "att \<noteq> None \<longleftrightarrow> attitude_due a" "station_angles_ok (roll, pitch, yaw) (vx, vy) (wx, wy) h att t al"
    using fa_iterate_sent [OF assms] assms(4) by auto
  show ?thesis
    using estimator_run [OF f(3), of q "- snd (snd (st_omega st))" "station_position a st" e] f(1,2)
    by (auto simp: station_position_def attitude_due_def)
qed

theorem estimator_recovers_simulation_witness:
  "let st = \<lparr>st_omega = (0, 0, 1), st_pos = (0, 0, 0), st_vel = (1, 2, 0), st_euler = (0, 0, 3), st_orientation = (1, 0, 0, 0),
        st_internal = \<lparr>in_sail = None, in_rudder = None, in_ballast = None, in_saildot = None, in_rudderdot = None, in_ballastdot = None\<rparr>\<rparr>;
       a = fa_handle_wind (Some (5, 6, 0)) (fa_handle_state (Some st) FakeAirmar_new)
   in \<exists>ms out. fa_sent (fa_iterate a) = ms \<and>
      es_sent (fold (es_step (\<lambda>_. (1, 0, 0, 0))) (map to_es ms @ [EsIterate]) (StateEstimator_new 0 0)) =
        [TrueWindOut (5, 6, 0), WindOut (mapply (rotZ (- 3)) (4, 4, 0)), StateOut out] \<and> same_angle (snd (snd (st_euler out))) 3"
proof -
  define st where "st = \<lparr>st_omega = (0, 0, 1), st_pos = (0, 0, 0), st_vel = (1, 2, 0), st_euler = (0, 0, 3), st_orientation = (1, 0, 0, 0),
        st_internal = \<lparr>in_sail = None, in_rudder = None, in_ballast = None, in_saildot = None, in_rudderdot = None, in_ballastdot = None\<rparr>\<rparr>"
  define a where "a = fa_handle_wind (Some (5, 6, 0)) (fa_handle_state (Some st) FakeAirmar_new)"
  have "fa_state a = Some st" "fa_wind a = Some (5, 6, 0)" "st_vel st = (1, 2, 0)" "st_euler st = (0, 0, 3)" "fa_sent a = []"
    by (simp_all add: a_def st_def fa_handle_wind_def fa_handle_state_def FakeAirmar_new_def)
  then show ?thesis
    using estimator_recovers_simulation [of a st 5 6 0 1 2 0 0 0 3 "\<lambda>_. (1, 0, 0, 0)" "StateEstimator_new 0 0"]
    unfolding st_def [symmetric] Let_def a_def [symmetric] by (auto simp: StateEstimator_new_def)
qed

section \<open>The simulator node\<close>

text \<open>A field of a command is unset, not a number, or a number.\<close>

type_synonym cmd_value = "real option option"

definition is_number :: "cmd_value \<Rightarrow> bool" where
  "is_number v \<longleftrightarrow> (case v of Some (Some _) \<Rightarrow> True | _ \<Rightarrow> False)"

definition number :: "cmd_value \<Rightarrow> real" where
  "number v = (case v of Some (Some r) \<Rightarrow> r | _ \<Rightarrow> 0)"

text \<open>Reading a field that is unset gives zero.\<close>

definition read_value :: "cmd_value \<Rightarrow> real option" where
  "read_value v = (case v of None \<Rightarrow> Some 0 | Some r \<Rightarrow> r)"

datatype SimOut = SimStateOut EstimatedState | SimWindOut vec3

record SimulatorNode =
  reset_period :: real
  set_pos :: bool
  impl :: TrivialDynamics
  sdot :: real
  rdot :: real
  bdot :: "real option"
  sim_deltas :: real
  sim_deltar :: "real option"
  sim_started :: bool
  next_reset :: real
  last_state :: SimState
  airmar :: FakeAirmar
  sim_shutdown :: bool
  sim_sent :: "SimOut list"

definition sim_dt :: real where "sim_dt = 1 / 1000"
definition kAirmarOffset :: real where "kAirmarOffset = 0"

definition default_state :: SimState where
  "default_state = \<lparr>ss_sail = 0, ss_rudder = 0, ss_ballast = 0, ss_vel = (0, 0), ss_yaw = 0, ss_roll = 0, ss_pos = None\<rparr>"

text \<open>The commanded sail and rudder angles are not initialised: they are parameters.\<close>

definition SimulatorNode_new :: "real \<Rightarrow> bool \<Rightarrow> real \<Rightarrow> real option \<Rightarrow> SimulatorNode" where
  "SimulatorNode_new period pos_mode junk_s junk_r =
     \<lparr>reset_period = period, set_pos = pos_mode, impl = TrivialDynamics_new sim_dt, sdot = 0, rdot = 0, bdot = Some 0,
      sim_deltas = junk_s, sim_deltar = junk_r, sim_started = False, next_reset = - 1, last_state = default_state,
      airmar = FakeAirmar_new, sim_shutdown = False, sim_sent = []\<rparr>"

declare SimulatorNode_new_def [node_init]

definition sim_set_wind :: "vec3 \<Rightarrow> SimulatorNode \<Rightarrow> SimulatorNode" where
  "sim_set_wind w s = s\<lparr>impl := td_set_wind w (impl s), sim_sent := sim_sent s @ [SimWindOut w]\<rparr>"

definition sim_set_wind_dir :: "real \<Rightarrow> real \<Rightarrow> SimulatorNode \<Rightarrow> SimulatorNode" where
  "sim_set_wind_dir src_dir speed s = sim_set_wind (speed * cos src_dir, speed * sin src_dir, 0) s"

definition sim_orig_state :: "SimState \<Rightarrow> SimulatorNode \<Rightarrow> SimulatorNode" where
  "sim_orig_state m s = s\<lparr>last_state := m\<lparr>ss_yaw := ss_yaw m - kAirmarOffset\<rparr>, sim_deltas := ss_sail m\<rparr>"

definition ProcessSail :: "cmd_value \<Rightarrow> cmd_value \<Rightarrow> SimulatorNode \<Rightarrow> SimulatorNode" where
  "ProcessSail vl ps s =
     (if is_number vl then s\<lparr>sdot := number vl\<rparr>
      else if is_number ps then s\<lparr>sdot := get_sdot_for_goal (impl s) (number ps)\<rparr> else s)"

definition ProcessRudder :: "cmd_value \<Rightarrow> cmd_value \<Rightarrow> SimulatorNode \<Rightarrow> SimulatorNode" where
  "ProcessRudder vl ps s0 =
     (let s = s0\<lparr>sim_deltar := read_value ps\<rparr>
      in if is_number vl then s\<lparr>rdot := number vl\<rparr>
         else if is_number ps then s\<lparr>rdot := get_rdot_for_goal (impl s) (number ps)\<rparr> else s)"

definition ProcessBallast :: "cmd_value \<Rightarrow> cmd_value \<Rightarrow> SimulatorNode \<Rightarrow> SimulatorNode" where
  "ProcessBallast vl voltage s =
     (if is_number vl then s\<lparr>bdot := Some (number vl)\<rparr>
      else if voltage \<noteq> None then s\<lparr>bdot := map_option (\<lambda>v. v / 12) (read_value voltage)\<rparr> else s)"

text \<open>Restarting the simulation from the logged state.\<close>

definition sim_restart :: "SimulatorNode \<Rightarrow> SimulatorNode" where
  "sim_restart s =
     (let (lat, lon) = (case ss_pos (last_state s) of Some (x, y) \<Rightarrow> (y, x) | None \<Rightarrow> (42276126 / 10 ^ 6, - 71756934 / 10 ^ 6))
      in s\<lparr>impl := set_from_state (last_state s) (impl s), airmar := set_gps_zero lat lon (airmar s), sim_started := True\<rparr>)"

text \<open>An angle or a rate that is not a number makes the orientation one, and the check in the step is fatal.\<close>

definition sim_update :: "SimulatorNode \<Rightarrow> TrivialDynamics res" where
  "sim_update s =
     (if set_pos s
      then (case sim_deltar s of None \<Rightarrow> Inl Fatal | Some dr \<Rightarrow> Inr (Update_pos (sim_deltas s) dr (impl s)))
      else (case bdot s of None \<Rightarrow> Inl Fatal | Some b \<Rightarrow> Inr (Update_vel (sdot s) (rdot s) b (impl s))))"

definition sim_state_msg :: "(mat3 \<Rightarrow> quat) \<Rightarrow> SimulatorNode \<Rightarrow> EstimatedState" where
  "sim_state_msg quat_of s =
     (let d = impl s
      in \<lparr>st_omega = td_omega d, st_pos = td_x d, st_vel = td_v d, st_euler = GetRollPitchYaw (td_RBI d),
          st_orientation = quat_of (td_RBI d),
          st_internal = \<lparr>in_sail = Some (td_deltas d), in_rudder = Some (td_deltar d), in_ballast = Some (td_deltab d),
            in_saildot = Some (sdot s), in_rudderdot = Some (rdot s), in_ballastdot = bdot s\<rparr>\<rparr>)"

definition sim_iterate :: "(mat3 \<Rightarrow> quat) \<Rightarrow> real \<Rightarrow> real \<Rightarrow> real \<Rightarrow> SimulatorNode \<Rightarrow> SimulatorNode res" where
  "sim_iterate quat_of starttime endtime systime s =
     (if systime < starttime then Inr s
      else if systime > endtime then Inr (s\<lparr>sim_shutdown := True\<rparr>)
      else
        let s1 = (if reset_period s > 0 \<and> systime > next_reset s
                  then s\<lparr>sim_started := False, next_reset := systime + reset_period s\<rparr> else s);
            s2 = (if sim_started s1 then s1 else sim_restart s1)
        in bindr (sim_update s2) (\<lambda>d.
             let s3 = s2\<lparr>impl := d\<rparr> in Inr (s3\<lparr>sim_sent := sim_sent s3 @ [SimStateOut (sim_state_msg quat_of s3)]\<rparr>)))"

datatype SimEvent =
    SimSail cmd_value cmd_value
  | SimRudder cmd_value cmd_value
  | SimBallast cmd_value cmd_value
  | SimSetWind vec3
  | SimOrig SimState
  | SimIterate real

primrec sim_step :: "(mat3 \<Rightarrow> quat) \<Rightarrow> real \<Rightarrow> real \<Rightarrow> SimEvent \<Rightarrow> SimulatorNode \<Rightarrow> SimulatorNode res" where
  "sim_step q t0 t1 (SimSail vl ps) s = Inr (ProcessSail vl ps s)"
| "sim_step q t0 t1 (SimRudder vl ps) s = Inr (ProcessRudder vl ps s)"
| "sim_step q t0 t1 (SimBallast vl u) s = Inr (ProcessBallast vl u s)"
| "sim_step q t0 t1 (SimSetWind w) s = Inr (sim_set_wind w s)"
| "sim_step q t0 t1 (SimOrig m) s = Inr (sim_orig_state m s)"
| "sim_step q t0 t1 (SimIterate now) s = sim_iterate q t0 t1 now s"

text \<open>Events in which the rudder angle and the voltage of the ballast, when set, are numbers.\<close>

fun sim_event_ok :: "SimEvent \<Rightarrow> bool" where
  "sim_event_ok (SimRudder vl ps) \<longleftrightarrow> ps \<noteq> Some None"
| "sim_event_ok (SimBallast vl u) \<longleftrightarrow> u \<noteq> Some None"
| "sim_event_ok _ \<longleftrightarrow> True"

definition published_ok :: "(mat3 \<Rightarrow> quat) \<Rightarrow> EstimatedState \<Rightarrow> bool" where
  "published_ok q st \<longleftrightarrow>
     st_orientation st = q (RollPitchYawToMatrix (st_euler st)) \<and> fst (snd (st_euler st)) = 0 \<and>
     snd (snd (st_pos st)) = 0 \<and> snd (snd (st_vel st)) = 0 \<and>
     \<bar>get_or 0 (in_rudder (st_internal st))\<bar> \<le> 6 / 10 \<and> \<bar>get_or 0 (in_ballast (st_internal st))\<bar> \<le> 15 / 10 \<and>
     \<bar>get_or 0 (in_sail (st_internal st))\<bar> \<le> pi"

definition sim_inv :: "(mat3 \<Rightarrow> quat) \<Rightarrow> SimulatorNode \<Rightarrow> bool" where
  "sim_inv q s \<longleftrightarrow> td_ok (impl s) \<and> sim_deltar s \<noteq> None \<and> bdot s \<noteq> None \<and>
     (\<forall>st. SimStateOut st \<in> set (sim_sent s) \<longrightarrow> published_ok q st)"

lemma heel_yaw_recovered:
  assumes "\<bar>h\<bar> \<le> pi" "\<bar>y\<bar> \<le> pi"
  shows "fst (snd (GetRollPitchYaw (heel_yaw_matrix h y))) = 0"
    and "RollPitchYawToMatrix (GetRollPitchYaw (heel_yaw_matrix h y)) = heel_yaw_matrix h y"
proof -
  define h' y' where "h' = (if h = - pi then pi else h)" and "y' = (if y = - pi then pi else y)"
  have same: "heel_yaw_matrix h y = heel_yaw_matrix h' y'" by (intro heel_yaw_cong) (auto simp: h'_def y'_def)
  have "GetRollPitchYaw (RollPitchYawToMatrix (h', 0, y')) = (h', 0, y')"
    using assms pi_gt_zero by (intro rpy_recovered) (auto simp: h'_def y'_def)
  then have "GetRollPitchYaw (heel_yaw_matrix h y) = (h', 0, y')" unfolding same unfolding heel_yaw_is_rpy .
  then show "fst (snd (GetRollPitchYaw (heel_yaw_matrix h y))) = 0"
    and "RollPitchYawToMatrix (GetRollPitchYaw (heel_yaw_matrix h y)) = heel_yaw_matrix h y"
    by (simp_all add: same flip: heel_yaw_is_rpy)
qed

lemma state_msg_ok:
  assumes "td_ok (impl s)" "td_moved (impl s)"
  shows "published_ok q (sim_state_msg q s)"
  using assms heel_yaw_recovered [of "td_heel (impl s)" "td_yaw (impl s)"]
  by (simp add: published_ok_def sim_state_msg_def Let_def td_ok_def td_moved_def)

lemma sim_update_ok:
  assumes "td_ok (impl s)" "sim_deltar s \<noteq> None" "bdot s \<noteq> None"
  shows "\<exists>d. sim_update s = Inr d \<and> td_ok d \<and> td_moved d"
  using assms by (auto simp: sim_update_def Update_pos_ok Update_vel_ok)

lemma sim_iterate_inv:
  assumes "sim_inv q s"
  shows "\<exists>s'. sim_iterate q t0 t1 now s = Inr s' \<and> sim_inv q s'"
proof -
  define s1 where "s1 = (if reset_period s > 0 \<and> now > next_reset s
                  then s\<lparr>sim_started := False, next_reset := now + reset_period s\<rparr> else s)"
  define s2 where "s2 = (if sim_started s1 then s1 else sim_restart s1)"
  have s1: "sim_inv q s1" using assms by (simp add: s1_def sim_inv_def)
  then have s2: "sim_inv q s2"
    by (auto simp: s2_def sim_restart_def Let_def sim_inv_def set_from_state_ok split: prod.splits)
  then obtain d where d: "sim_update s2 = Inr d" "td_ok d" "td_moved d"
    using sim_update_ok [of s2] by (auto simp: sim_inv_def)
  define s3 where "s3 = s2\<lparr>impl := d\<rparr>"
  have "published_ok q (sim_state_msg q s3)" using d by (intro state_msg_ok) (simp_all add: s3_def)
  with s2 d have "sim_inv q (s3\<lparr>sim_sent := sim_sent s2 @ [SimStateOut (sim_state_msg q s3)]\<rparr>)"
    by (auto simp: sim_inv_def s3_def)
  moreover have "sim_inv q (s\<lparr>sim_shutdown := True\<rparr>)" using assms by (simp add: sim_inv_def)
  ultimately show ?thesis
    using assms by (simp add: sim_iterate_def s1_def [symmetric] s2_def [symmetric] s3_def [symmetric] Let_def d(1))
qed

lemma ballast_rate_number: "u \<noteq> Some None \<Longrightarrow> bdot s \<noteq> None \<Longrightarrow> bdot (ProcessBallast vl u s) \<noteq> None"
proof -
  assume "u \<noteq> Some None" "bdot s \<noteq> None"
  moreover from this(1) have "map_option (\<lambda>v. v / 12) (read_value u) \<noteq> None"
    unfolding option.map_disc_iff by (auto simp: read_value_def split: option.splits)
  ultimately show "bdot (ProcessBallast vl u s) \<noteq> None" unfolding ProcessBallast_def by (simp only: SimulatorNode.simps split: if_splits) simp
qed

lemma sim_step_inv:
  assumes "sim_inv q s" "sim_event_ok e"
  shows "\<exists>s'. sim_step q t0 t1 e s = Inr s' \<and> sim_inv q s'"
proof (cases e)
  case (SimIterate now)
  then show ?thesis using sim_iterate_inv [OF assms(1)] by simp
next
  case (SimBallast vl u)
  then show ?thesis
    using assms ballast_rate_number [of u s vl] by (simp add: sim_inv_def del: option.distinct not_None_eq) (simp add: ProcessBallast_def)
qed (use assms in \<open>auto simp: sim_inv_def ProcessSail_def ProcessRudder_def ProcessBallast_def Let_def read_value_def
    sim_set_wind_def sim_orig_state_def td_set_wind_def split: option.splits\<close>)

interpretation simulator: node_machine "sim_step q t0 t1" "sim_inv q" sim_event_ok for q t0 t1
  by unfold_locales (rule sim_step_inv)

text \<open>
  C22: The simulator runs for any sequence of commands, winds, logged states and iterations in which the rudder angle
  and the ballast's voltage are numbers, and every state that it publishes is consistent: the Euler angles and the
  quaternion are those of the same rotation, without pitch, the boat is on the water, and rudder, ballast and
  sail are within their limits.
\<close>

theorem simulator_publishes_consistent_states:
  assumes "list_all sim_event_ok es"
  shows "\<exists>s. run_events (sim_step q t0 t1) es (SimulatorNode_new period pos_mode ds (Some dr)) = Inr s \<and>
    (\<forall>st. SimStateOut st \<in> set (sim_sent s) \<longrightarrow>
      st_orientation st = q (RollPitchYawToMatrix (st_euler st)) \<and> fst (snd (st_euler st)) = 0 \<and>
      snd (snd (st_pos st)) = 0 \<and> snd (snd (st_vel st)) = 0 \<and>
      \<bar>get_or 0 (in_rudder (st_internal st))\<bar> \<le> 6 / 10 \<and> \<bar>get_or 0 (in_ballast (st_internal st))\<bar> \<le> 15 / 10 \<and>
      \<bar>get_or 0 (in_sail (st_internal st))\<bar> \<le> pi)"
proof -
  have "sim_inv q (SimulatorNode_new period pos_mode ds (Some dr))"
    by (simp add: sim_inv_def td_new_ok node_init)
  from simulator.run_inv [OF this assms, of t0 t1] show ?thesis unfolding sim_inv_def published_ok_def by blast
qed

theorem simulator_publishes_consistent_states_witness:
  "\<exists>s. run_events (sim_step (\<lambda>_. (1, 0, 0, 0)) 0 9999) [SimSetWind (0, 4, 0), SimRudder None (Some (Some 1)), SimIterate 1]
      (SimulatorNode_new (- 1) False 0 (Some 0)) = Inr s \<and>
    (\<forall>st. SimStateOut st \<in> set (sim_sent s) \<longrightarrow> \<bar>get_or 0 (in_rudder (st_internal st))\<bar> \<le> 6 / 10)"
proof -
  have "list_all sim_event_ok [SimSetWind (0, 4, 0), SimRudder None (Some (Some 1)), SimIterate 1]" by simp
  from simulator_publishes_consistent_states [OF this, of "\<lambda>_. (1, 0, 0, 0)" 0 9999 "- 1" False 0 0]
  show ?thesis by blast
qed

text \<open>
  A voltage that is not a number is not ignored as a velocity would be: the next iteration ends the program.
\<close>

theorem nan_voltage_ends_simulation:
  "run_events (sim_step q 0 9999) [SimBallast None (Some None), SimIterate 1] (SimulatorNode_new (- 1) False ds dr) = Inl Fatal"
  by (simp add: SimulatorNode_new_def ProcessBallast_def is_number_def read_value_def sim_iterate_def sim_restart_def sim_update_def
      Let_def split: prod.splits option.splits)

text \<open>
  The simulated servo: the rate is set once per command, so that after \<open>n\<close> steps of a millisecond
  without a further command the rudder has covered \<open>n / 200\<close> of the way, as long as the limit is not reached.
  A hundred steps halve the error, and without new commands the rudder runs past its goal.
\<close>

lemma Update_vel_rudder:
  assumes "td_dt s = sim_dt"
  shows "td_deltar (Update_vel a r b s) = min (max (td_deltar s + r / 1000) (- 6 / 10)) (6 / 10)"
    and "td_dt (Update_vel a r b s) = sim_dt"
  by (simp_all add: Update_vel_def Update_pos_def Let_def set_actuators_def assms) (simp add: sim_dt_def)

theorem rudder_servo:
  assumes "td_dt s = sim_dt" and "\<bar>td_deltar s\<bar> \<le> 6 / 10" and "\<bar>td_deltar s + real n / 200 * (goal - td_deltar s)\<bar> \<le> 6 / 10"
  shows "td_deltar ((Update_vel a (get_rdot_for_goal s goal) b ^^ n) s) = td_deltar s + real n / 200 * (goal - td_deltar s)"
proof -
  define r where "r = get_rdot_for_goal s goal"
  have r: "r = 5 * (goal - td_deltar s)" by (simp add: r_def get_rdot_for_goal_def)
  have "\<bar>td_deltar s + real m / 1000 * r\<bar> \<le> 6 / 10" if "m \<le> n" for m
  proof (cases "n = 0")
    case False
    define k where "k = real m / real n"
    have k: "0 \<le> k" "k \<le> 1" "real m = k * real n" using that False by (simp_all add: k_def)
    have "td_deltar s + real m / 1000 * r = (1 - k) * td_deltar s + k * (td_deltar s + real n / 200 * (goal - td_deltar s))"
      by (simp add: r k(3) field_simps)
    also have "\<bar>\<dots>\<bar> \<le> \<bar>1 - k\<bar> * \<bar>td_deltar s\<bar> + \<bar>k\<bar> * \<bar>td_deltar s + real n / 200 * (goal - td_deltar s)\<bar>"
      unfolding abs_mult [symmetric] by (rule abs_triangle_ineq)
    also have "\<dots> \<le> \<bar>1 - k\<bar> * (6 / 10) + \<bar>k\<bar> * (6 / 10)"
      using assms(2,3) by (intro add_mono mult_left_mono abs_ge_zero)
    also have "\<dots> = 6 / 10" using k(1,2) by (simp add: field_simps)
    finally show ?thesis .
  qed (use that assms(2) in simp)
  then have "td_deltar ((Update_vel a r b ^^ m) s) = td_deltar s + real m / 1000 * r \<and> td_dt ((Update_vel a r b ^^ m) s) = sim_dt"
    if "m \<le> n" for m
    using that
  proof (induction m)
    case (Suc m)
    define T where "T = td_deltar s + real (Suc m) / 1000 * r"
    have "\<bar>T\<bar> \<le> 6 / 10" unfolding T_def using Suc.prems by (intro Suc.prems(1)) simp
    then have T: "min (max T (- 6 / 10)) (6 / 10) = T" unfolding min_def max_def abs_le_iff by auto
    have ih: "td_deltar ((Update_vel a r b ^^ m) s) = td_deltar s + real m / 1000 * r" "td_dt ((Update_vel a r b ^^ m) s) = sim_dt"
      using Suc by simp_all
    have "td_deltar s + real m / 1000 * r + r / 1000 = T" by (simp add: T_def field_simps)
    then have "td_deltar (Update_vel a r b ((Update_vel a r b ^^ m) s)) = T"
      using Update_vel_rudder(1) [OF ih(2), of a r b] T by (simp only: ih(1))
    then show ?case using Update_vel_rudder(2) [OF ih(2)] by (simp add: T_def)
  qed (use assms(1) in simp)
  then show ?thesis by (simp add: r_def [symmetric]) (simp add: r)
qed

end
