(* ===== verification/Saoud.thy ===== *)
theory Saoud
  imports Frames
begin

text \<open>
  The detailed model of a sailing boat (\<^verbatim>\<open>SimulatorSaoud2013\<close> of \<^verbatim>\<open>sim/sim_physics.h\<close> and
  \<^verbatim>\<open>sim/sim_physics.cc\<close>): frames of sail and rudder, angles of attack, forces and torques, the equations of
  motion and the step of the integration.  A six-dimensional vector is a pair of vectors and a
  six-by-six matrix is four blocks; Eigen's inverse of such a matrix is a parameter.
\<close>

type_synonym vec6 = "vec3 \<times> vec3"
type_synonym mat6 = "(mat3 \<times> mat3) \<times> mat3 \<times> mat3"

section \<open>State and constants\<close>

record SimulatorSaoud2013 =
  so_dt :: real
  so_deltas :: real
  so_deltasdot :: real
  so_deltar :: real
  so_deltardot :: real
  so_x :: vec3
  so_v :: vec3
  so_vw :: vec3
  so_vc :: vec3
  so_RBI :: mat3
  so_omega :: vec3

definition so_g :: real where "so_g = 98 / 10"
definition so_ls :: real where "so_ls = 15 / 10"
definition so_lr :: real where "so_lr = 5 / 100"
definition so_hs :: real where "so_hs = 2"
definition so_hr :: real where "so_hr = 0"
definition so_hk :: real where "so_hk = - 3 / 10"
definition so_rr :: real where "so_rr = 1"
definition so_rs :: real where "so_rs = 1"
definition rhoair :: real where "rhoair = 1225 / 1000"
definition rhowater :: real where "rhowater = 1000"
definition Ss :: real where "Ss = 5"
definition Sr :: real where "Sr = 5 / 100"
definition Sk :: real where "Sk = 3 / 10"
definition c0s :: real where "c0s = 2 / 10"
definition c1s :: real where "c1s = 4 / 10"
definition c0r :: real where "c0r = c0s"
definition c1r :: real where "c1r = c1s"
definition c0k :: real where "c0k = c0s"
definition c1k :: real where "c1k = c1s"
definition m0 :: real where "m0 = 40"
definition nabla :: real where "nabla = m0 / rhowater"
definition so_c1 :: vec3 where "so_c1 = (0, 0, 0)"
definition so_c2 :: vec3 where "so_c2 = (0, 0, 0)"
definition so_c3 :: vec3 where "so_c3 = (0, 0, 0)"
definition so_c4 :: vec3 where "so_c4 = (0, 0, 0)"
definition J0 :: mat3 where "J0 = diag3 50 50 30"
definition zero3 :: mat3 where "zero3 = ((0, 0, 0), (0, 0, 0), (0, 0, 0))"
definition MA :: mat6 where "MA = ((zero3, zero3), zero3, zero3)"
definition B_B :: vec3 where "B_B = (0, 0, 5 / 10)"

definition SimulatorSaoud2013_new :: "real \<Rightarrow> SimulatorSaoud2013" where
  "SimulatorSaoud2013_new dt =
     \<lparr>so_dt = dt, so_deltas = 8 / 10, so_deltasdot = 0, so_deltar = 0, so_deltardot = 0, so_x = (0, 0, 0), so_v = (0, 0, 0),
      so_vw = (0, 0, 0), so_vc = (0, 0, 0), so_RBI = identity3, so_omega = (0, 0, 0)\<rparr>"

definition so_set_wind :: "vec3 \<Rightarrow> SimulatorSaoud2013 \<Rightarrow> SimulatorSaoud2013" where
  "so_set_wind w s = s\<lparr>so_vw := w\<rparr>"

section \<open>Frames\<close>

definition so_i0 :: vec3 where "so_i0 = (1, 0, 0)"
definition so_j0 :: vec3 where "so_j0 = (0, 1, 0)"
definition so_k0 :: vec3 where "so_k0 = (0, 0, 1)"

definition so_i :: "SimulatorSaoud2013 \<Rightarrow> vec3" where "so_i s = mcol (so_RBI s) 0"
definition so_k :: "SimulatorSaoud2013 \<Rightarrow> vec3" where "so_k s = mcol (so_RBI s) 2"

definition so_j :: "SimulatorSaoud2013 \<Rightarrow> vec3" where "so_j s = mcol (so_RBI s) 1"

definition xsB :: "SimulatorSaoud2013 \<Rightarrow> vec3" where
  "xsB s = (so_rs - so_ls * cos (so_deltas s), - so_ls * sin (so_deltas s), so_hs)"

definition isB :: "SimulatorSaoud2013 \<Rightarrow> vec3" where "isB s = (cos (so_deltas s), sin (so_deltas s), 0)"
definition jsB :: "SimulatorSaoud2013 \<Rightarrow> vec3" where "jsB s = (- sin (so_deltas s), cos (so_deltas s), 0)"
definition ksB :: "SimulatorSaoud2013 \<Rightarrow> vec3" where "ksB s = (0, 0, 1)"

definition so_is :: "SimulatorSaoud2013 \<Rightarrow> vec3" where "so_is s = mapply (so_RBI s) (isB s)"
definition so_js :: "SimulatorSaoud2013 \<Rightarrow> vec3" where "so_js s = mapply (so_RBI s) (jsB s)"
definition so_ks :: "SimulatorSaoud2013 \<Rightarrow> vec3" where "so_ks s = mapply (so_RBI s) (ksB s)"

definition xrB :: "SimulatorSaoud2013 \<Rightarrow> vec3" where
  "xrB s = (- so_rr - so_lr * cos (so_deltar s), - so_lr * sin (so_deltar s), so_hr)"

definition irB :: "SimulatorSaoud2013 \<Rightarrow> vec3" where "irB s = (cos (so_deltar s), sin (so_deltar s), 0)"
definition jrB :: "SimulatorSaoud2013 \<Rightarrow> vec3" where "jrB s = (- sin (so_deltar s), cos (so_deltar s), 0)"
definition krB :: "SimulatorSaoud2013 \<Rightarrow> vec3" where "krB s = (0, 0, 1)"

definition so_ir :: "SimulatorSaoud2013 \<Rightarrow> vec3" where "so_ir s = mapply (so_RBI s) (irB s)"
definition so_jr :: "SimulatorSaoud2013 \<Rightarrow> vec3" where "so_jr s = mapply (so_RBI s) (jrB s)"
definition so_kr :: "SimulatorSaoud2013 \<Rightarrow> vec3" where "so_kr s = mapply (so_RBI s) (krB s)"

definition TBI :: "SimulatorSaoud2013 \<Rightarrow> vec3 \<Rightarrow> vec3" where "TBI s p = Trans p (so_RBI s) (so_x s)"
definition so_xs :: "SimulatorSaoud2013 \<Rightarrow> vec3" where "so_xs s = TBI s (xsB s)"
definition so_xr :: "SimulatorSaoud2013 \<Rightarrow> vec3" where "so_xr s = TBI s (xrB s)"

section \<open>Velocities and angles of attack\<close>

definition GGs :: "SimulatorSaoud2013 \<Rightarrow> vec3" where "GGs s = mapply (so_RBI s) (xsB s)"

definition vs :: "SimulatorSaoud2013 \<Rightarrow> vec3" where
  "vs s = vsub (vadd (so_v s) (vcross (so_omega s) (GGs s))) (vscale (so_ls * so_deltasdot s) (so_js s))"

definition vas :: "SimulatorSaoud2013 \<Rightarrow> vec3" where "vas s = vsub (vs s) (so_vw s)"

definition GGr :: "SimulatorSaoud2013 \<Rightarrow> vec3" where "GGr s = mapply (so_RBI s) (xrB s)"

definition vr :: "SimulatorSaoud2013 \<Rightarrow> vec3" where
  "vr s = vsub (vadd (so_v s) (vcross (so_omega s) (GGr s))) (vscale (so_lr * so_deltardot s) (so_jr s))"

definition var :: "SimulatorSaoud2013 \<Rightarrow> vec3" where "var s = vsub (vr s) (so_vc s)"

definition GGk :: "SimulatorSaoud2013 \<Rightarrow> vec3" where "GGk s = mapply (so_RBI s) (0, 0, so_hk)"
definition vk :: "SimulatorSaoud2013 \<Rightarrow> vec3" where "vk s = vadd (so_v s) (vcross (so_omega s) (GGk s))"
definition vak :: "SimulatorSaoud2013 \<Rightarrow> vec3" where "vak s = vsub (vk s) (so_vc s)"

definition omegaB :: "SimulatorSaoud2013 \<Rightarrow> vec3" where "omegaB s = mapply (minverse (so_RBI s)) (so_omega s)"
definition vB :: "SimulatorSaoud2013 \<Rightarrow> vec3" where "vB s = mapply (minverse (so_RBI s)) (so_v s)"

definition alphas :: "SimulatorSaoud2013 \<Rightarrow> real" where
  "alphas s =
     (let v = vas s; d = sqrt ((vdot v (so_is s))\<^sup>2 + (vdot v (so_ks s))\<^sup>2)
      in if \<bar>d\<bar> < 1 / 1000 then 0 else arctan (- vdot v (so_js s) / d))"

definition alphar :: "SimulatorSaoud2013 \<Rightarrow> real" where
  "alphar s =
     (let v = var s; d = sqrt ((vdot v (so_ir s))\<^sup>2 + (vdot v (so_kr s))\<^sup>2)
      in if \<bar>d\<bar> < 1 / 1000 then 0 else arctan (- vdot v (so_jr s) / d))"

definition alphak :: "SimulatorSaoud2013 \<Rightarrow> real" where
  "alphak s =
     (let (v0, v1, v2) = mapply (so_RBI s) (vak s); d = sqrt (v0\<^sup>2 + v2\<^sup>2)
      in if \<bar>d\<bar> < 1 / 1000 then 0 else arctan (- v1 / d))"

section \<open>Forces and torques\<close>

definition CDparam :: "real \<Rightarrow> real \<Rightarrow> real \<Rightarrow> real" where "CDparam c0 c1 alpha = c0 + 2 * c1 * (sin alpha)\<^sup>2"
definition CLparam :: "real \<Rightarrow> real \<Rightarrow> real" where "CLparam c1 alpha = of_bool (\<bar>alpha\<bar> < 1) * c1 * sin (2 * alpha)"
definition CsL :: "real \<Rightarrow> real" where "CsL alpha = CLparam c1s alpha"
definition CsD :: "real \<Rightarrow> real" where "CsD alpha = CDparam c0s c1s alpha"
definition CrL :: "real \<Rightarrow> real" where "CrL alpha = CLparam c1r alpha"
definition CrD :: "real \<Rightarrow> real" where "CrD alpha = CDparam c0r c1r alpha"
definition CkL :: "real \<Rightarrow> real" where "CkL alpha = CLparam c1k alpha"
definition CkD :: "real \<Rightarrow> real" where "CkD alpha = CDparam c0k c1k alpha"

text \<open>The three forces are the same formula with their coefficients, areas and directions.\<close>

definition foil :: "real \<Rightarrow> real \<Rightarrow> real \<Rightarrow> real \<Rightarrow> vec3 \<Rightarrow> vec3 \<Rightarrow> vec3" where
  "foil lambda CL CD alpha va n =
     vadd (vscale (- lambda * (CD - CL * tan alpha) * vnorm va) va) (vscale (lambda * CL / cos alpha * vdot va va) n)"

definition Fs :: "SimulatorSaoud2013 \<Rightarrow> vec3" where
  "Fs s = (let as = alphas s; lambdas = 1 / 2 * rhoair * Ss in foil lambdas (CsL as) (CsD as) as (vas s) (so_js s))"

definition taus :: "SimulatorSaoud2013 \<Rightarrow> vec3" where "taus s = vcross (GGs s) (Fs s)"

definition Fr :: "SimulatorSaoud2013 \<Rightarrow> vec3" where
  "Fr s = (let ar = alphar s; lambdar = 1 / 2 * rhowater * Sr in foil lambdar (CrL ar) (CrD ar) ar (var s) (so_jr s))"

definition taur :: "SimulatorSaoud2013 \<Rightarrow> vec3" where "taur s = vcross (GGr s) (Fr s)"

definition Fk :: "SimulatorSaoud2013 \<Rightarrow> vec3" where
  "Fk s = (let ak = alphak s; lambdak = 1 / 2 * rhowater * Sk in foil lambdak (CkL ak) (CkD ak) ak (vak s) (so_j s))"

definition tauk :: "SimulatorSaoud2013 \<Rightarrow> vec3" where "tauk s = vcross (GGk s) (Fk s)"

fun cwise :: "vec3 \<Rightarrow> vec3 \<Rightarrow> vec3" where
  "cwise (a, b, c) (x, y, z) = (a * x, b * y, c * z)"

definition Fd :: "SimulatorSaoud2013 \<Rightarrow> vec3" where
  "Fd s = (let va = mapply (minverse (so_RBI s)) (vsub (so_v s) (so_vc s)) in vadd (cwise (cwise va va) so_c1) (cwise va so_c2))"

definition taud :: "SimulatorSaoud2013 \<Rightarrow> vec3" where
  "taud s = (let w = omegaB s in vadd (cwise (cwise w w) so_c3) (cwise w so_c4))"

definition FBuoy :: vec3 where "FBuoy = vscale (nabla * rhowater * so_g) so_k0"
definition Fres :: vec3 where "Fres = (0, 0, 0)"
definition taures :: "SimulatorSaoud2013 \<Rightarrow> vec3" where "taures s = vcross (mapply (so_RBI s) B_B) FBuoy"

section \<open>Equations of motion\<close>

fun add6 :: "mat6 \<Rightarrow> mat6 \<Rightarrow> mat6" where
  "add6 ((a, b), c, d) ((a', b'), c', d') = ((madd a a', madd b b'), madd c c', madd d d')"

fun apply6 :: "mat6 \<Rightarrow> vec6 \<Rightarrow> vec6" where
  "apply6 ((a, b), c, d) (x, y) = (vadd (mapply a x) (mapply b y), vadd (mapply c x) (mapply d y))"

fun sub6 :: "vec6 \<Rightarrow> vec6 \<Rightarrow> vec6" where "sub6 (a, b) (x, y) = (vsub a x, vsub b y)"
fun dot6v :: "vec6 \<Rightarrow> vec6 \<Rightarrow> real" where "dot6v (a, b) (x, y) = vdot a x + vdot b y"

definition MRB :: mat6 where "MRB = ((diag3 m0 m0 m0, zero3), zero3, J0)"

definition CRB :: "SimulatorSaoud2013 \<Rightarrow> mat6" where
  "CRB s = (let wb = omegaB s in ((mscale m0 (Skew wb), zero3), zero3, mscale (- 1) (Skew (mapply J0 wb))))"

definition CA :: "SimulatorSaoud2013 \<Rightarrow> mat6" where
  "CA s =
     (let ((A11, A12), A21, A22) = MA;
          c22 = mscale (- 1) (Skew (vadd (mapply A21 (vB s)) (mapply A22 (omegaB s))));
          c12 = mscale (- 1) (Skew (vadd (mapply A11 (vB s)) (mapply A12 (omegaB s))))
      in ((zero3, c12), c12, c22))"

definition MT :: mat6 where "MT = add6 MRB MA"
definition CT :: "SimulatorSaoud2013 \<Rightarrow> mat6" where "CT s = add6 (CRB s) (CA s)"

definition nudot :: "(mat6 \<Rightarrow> mat6) \<Rightarrow> SimulatorSaoud2013 \<Rightarrow> vec6" where
  "nudot inverse6 s =
     (let MTinv = inverse6 MT;
          Fnet = vadd (vadd (vadd (vadd (Fd s) Fres) (Fs s)) (Fr s)) (Fk s);
          taunet = vadd (vadd (vadd (vadd (taud s) (taures s)) (taus s)) (taur s)) (tauk s);
          FnetB = mapply (minverse (so_RBI s)) Fnet;
          taunetB = mapply (minverse (so_RBI s)) taunet;
          nu = (vB s, omegaB s)
      in apply6 MTinv (sub6 (FnetB, taunetB) (apply6 (CT s) nu)))"

definition so_Update :: "(mat6 \<Rightarrow> mat6) \<Rightarrow> SimulatorSaoud2013 \<Rightarrow> SimulatorSaoud2013" where
  "so_Update inverse6 s0 =
     (let s = s0\<lparr>so_deltas := so_deltas s0 + so_deltasdot s0 * so_dt s0, so_deltar := so_deltar s0 + so_deltardot s0 * so_dt s0\<rparr>;
          dt = so_dt s;
          (dv, dw) = nudot inverse6 s;
          vbody = vadd (vB s) (vscale dt dv);
          omegabody = vadd (omegaB s) (vscale dt dw);
          wx = Skew omegabody;
          v = mapply (so_RBI s) vbody;
          RBI = madd (so_RBI s) (mscale dt (mmul (so_RBI s) wx))
      in s\<lparr>so_v := v, so_omega := mapply (so_RBI s) omegabody, so_x := vadd (so_x s) (vscale dt v), so_RBI := Orthogonalize RBI\<rparr>)"

definition so_Update_rates :: "(mat6 \<Rightarrow> mat6) \<Rightarrow> real \<Rightarrow> real \<Rightarrow> SimulatorSaoud2013 \<Rightarrow> SimulatorSaoud2013" where
  "so_Update_rates inverse6 sdot rdot s = so_Update inverse6 (s\<lparr>so_deltasdot := sdot, so_deltardot := rdot\<rparr>)"

section \<open>Lift does no work\<close>

text \<open>The speed of a flow as the frame of a foil measures it, and orientations that preserve lengths: rotations and their mirror images.\<close>

definition frame_speed :: "vec3 \<Rightarrow> vec3 \<Rightarrow> vec3 \<Rightarrow> vec3 \<Rightarrow> real" where
  "frame_speed v i j k = sqrt ((vdot v i)\<^sup>2 + (vdot v j)\<^sup>2 + (vdot v k)\<^sup>2)"

definition is_orthogonal :: "mat3 \<Rightarrow> bool" where
  "is_orthogonal R \<longleftrightarrow> mmul (mtranspose R) R = identity3 \<and> mmul R (mtranspose R) = identity3"

text \<open>The work of the lift is what its frame gets wrong about the speed of the flow.\<close>

definition lift_work :: "real \<Rightarrow> real \<Rightarrow> real \<Rightarrow> vec3 \<Rightarrow> real \<Rightarrow> real" where
  "lift_work lambda CL alpha v w = lambda * CL * tan alpha * (vnorm v)\<^sup>2 * (vnorm v - w)"

lemma foil_power:
  assumes "0 < d" "alpha = arctan (- vdot v n / d)"
  shows "vdot (foil lambda CL CD alpha v n) v =
    - lambda * CD * vnorm v ^ 3 + lift_work lambda CL alpha v (sqrt (d\<^sup>2 + (vdot v n)\<^sup>2))"
proof -
  define N b w where "N = vnorm v" and "b = vdot v n" and "w = sqrt (d\<^sup>2 + b\<^sup>2)"
  have N2: "vdot v v = N * N" using vnorm_squared [of v] by (simp add: N_def power2_eq_square)
  have w: "0 < w" "w * w = d\<^sup>2 + b\<^sup>2" using assms(1) by (simp_all add: w_def add_pos_nonneg)
  have t: "tan alpha = - b / d" by (simp add: assms(2) b_def tan_arctan)
  have "1 + (- b / d)\<^sup>2 = (w / d)\<^sup>2" using w(2) assms(1) by (simp add: field_simps power2_eq_square)
  then have "sqrt (1 + (- b / d)\<^sup>2) = w / d" using w(1) assms(1) by (simp add: real_sqrt_unique)
  then have c: "cos alpha = d / w" by (simp add: assms(2) cos_arctan flip: b_def)
  have "vdot (foil lambda CL CD alpha v n) v = - lambda * (CD - CL * (- b / d)) * N * (N * N) + lambda * CL / (d / w) * (N * N) * b"
    by (simp add: foil_def vdot_vadd vdot_vscale vdot_commute [of n v] t c N2 flip: N_def b_def)
  also have "\<dots> = - lambda * CD * N ^ 3 + lambda * CL * (- b / d) * N\<^sup>2 * (N - w)"
    using assms(1) w(1) by (simp add: field_simps power3_eq_cube power2_eq_square)
  finally show ?thesis by (simp add: lift_work_def t flip: N_def w_def b_def)
qed

lemma foil_power_still: "vdot (foil lambda (CLparam c1 0) CD 0 v n) v = - lambda * CD * vnorm v ^ 3"
  using vnorm_squared [of v] by (simp add: foil_def CLparam_def vdot_vadd vdot_vscale power3_eq_cube power2_eq_square)

lemma attacked_foil_power:
  assumes "alpha = (let d = sqrt ((vdot v i)\<^sup>2 + (vdot v k)\<^sup>2) in if \<bar>d\<bar> < 1 / 1000 then 0 else arctan (- vdot v j / d))"
  shows "vdot (foil lambda (CLparam c1 alpha) CD alpha v j) v =
    - lambda * CD * vnorm v ^ 3 + lift_work lambda (CLparam c1 alpha) alpha v (frame_speed v i j k)"
proof -
  define d where "d = sqrt ((vdot v i)\<^sup>2 + (vdot v k)\<^sup>2)"
  have d0: "0 \<le> d" by (simp add: d_def)
  have w: "frame_speed v i j k = sqrt (d\<^sup>2 + (vdot v j)\<^sup>2)" by (simp add: frame_speed_def d_def algebra_simps)
  show ?thesis
  proof (cases "\<bar>d\<bar> < 1 / 1000")
    case True
    then have "alpha = 0" using assms by (simp add: d_def)
    then show ?thesis by (simp add: foil_power_still lift_work_def)
  next
    case False
    then have "0 < d" "alpha = arctan (- vdot v j / d)" using assms d0 by (auto simp: Let_def simp flip: d_def)
    then show ?thesis unfolding w by (rule foil_power)
  qed
qed

lemma orthogonal_frame:
  assumes "is_orthogonal R"
  shows "frame_speed v (mapply R (cos a, sin a, 0)) (mapply R (- sin a, cos a, 0)) (mapply R (0, 0, 1)) = vnorm v"
proof -
  define u where "u = mapply (mtranspose R) v"
  have d: "vdot v (mapply R w) = vdot u w" for w
    by (simp add: u_def vdot_mapply)
  have "mapply (mmul R (mtranspose R)) v = v" using assms by (simp add: is_orthogonal_def mapply_identity)
  then have vu: "vdot v v = vdot u u" using d [of u] by (simp add: u_def mapply_mmul)
  obtain x y z where u: "u = (x, y, z)" by (rule vec3_cases)
  have "x * x + y * y = (x * cos a + y * sin a)\<^sup>2 + (y * cos a - x * sin a)\<^sup>2"
    using sin_cos_one [of a] by (simp add: power2_eq_square) algebra
  then show ?thesis unfolding frame_speed_def vnorm_def d vu u by (simp add: algebra_simps power2_eq_square)
qed

lemma CDparam_nonneg: "0 \<le> c0 \<Longrightarrow> 0 \<le> c1 \<Longrightarrow> 0 \<le> CDparam c0 c1 alpha"
  by (simp add: CDparam_def)

lemmas foil_frames = so_js_def so_jr_def so_is_def so_ir_def so_ks_def so_kr_def isB_def jsB_def ksB_def irB_def jrB_def krB_def

lemma foil_powers:
  "vdot (Fs s) (vas s) = - (1 / 2 * rhoair * Ss) * CsD (alphas s) * vnorm (vas s) ^ 3 +
     lift_work (1 / 2 * rhoair * Ss) (CsL (alphas s)) (alphas s) (vas s) (frame_speed (vas s) (so_is s) (so_js s) (so_ks s))"
  "vdot (Fr s) (var s) = - (1 / 2 * rhowater * Sr) * CrD (alphar s) * vnorm (var s) ^ 3 +
     lift_work (1 / 2 * rhowater * Sr) (CrL (alphar s)) (alphar s) (var s) (frame_speed (var s) (so_ir s) (so_jr s) (so_kr s))"
  unfolding Fs_def Fr_def CsL_def CrL_def Let_def
  by (rule attacked_foil_power, simp add: alphas_def alphar_def Let_def)+

lemma orthogonal_foils:
  assumes "is_orthogonal (so_RBI s)"
  shows "frame_speed v (so_is s) (so_js s) (so_ks s) = vnorm v" "frame_speed v (so_ir s) (so_jr s) (so_kr s) = vnorm v"
  using orthogonal_frame [OF assms] by (simp_all add: foil_frames)

text \<open>
  C25: Lift does no work.  In every state the power of the forces of sail and rudder, in the flow that they see, is that
  of the drag, half the density times area, drag coefficient and the cube of the speed, which is never positive, plus one of the lift that is proportional to the difference between the
  speed of the flow and the speed that the axes of the foil measure.  If the orientation is an orthogonal matrix, a rotation
  or, as after a step of the simulation, one with a negated row, this difference and the work of the lift are zero.
  The forces of Coriolis do no work in any state.
\<close>

theorem lift_does_no_work:
  "vdot (Fs s) (vas s) = - (1 / 2 * rhoair * Ss) * CsD (alphas s) * vnorm (vas s) ^ 3 +
     lift_work (1 / 2 * rhoair * Ss) (CsL (alphas s)) (alphas s) (vas s) (frame_speed (vas s) (so_is s) (so_js s) (so_ks s)) \<and>
   vdot (Fr s) (var s) = - (1 / 2 * rhowater * Sr) * CrD (alphar s) * vnorm (var s) ^ 3 +
     lift_work (1 / 2 * rhowater * Sr) (CrL (alphar s)) (alphar s) (var s) (frame_speed (var s) (so_ir s) (so_jr s) (so_kr s)) \<and>
   0 \<le> CsD (alphas s) \<and> 0 \<le> CrD (alphar s) \<and>
   (is_orthogonal (so_RBI s) \<longrightarrow>
     frame_speed (vas s) (so_is s) (so_js s) (so_ks s) = vnorm (vas s) \<and> frame_speed (var s) (so_ir s) (so_jr s) (so_kr s) = vnorm (var s) \<and>
     vdot (Fs s) (vas s) \<le> 0 \<and> vdot (Fr s) (var s) \<le> 0) \<and>
   dot6v (apply6 (CT s) (vB s, omegaB s)) (vB s, omegaB s) = 0"
proof -
  have drag: "0 \<le> CsD (alphas s)" "0 \<le> CrD (alphar s)"
    by (simp_all add: CsD_def CrD_def c0s_def c1s_def c0r_def c1r_def CDparam_nonneg)
  then have "0 \<le> (1 / 2 * rhoair * Ss) * CsD (alphas s) * vnorm (vas s) ^ 3" "0 \<le> (1 / 2 * rhowater * Sr) * CrD (alphar s) * vnorm (var s) ^ 3"
    by (intro mult_nonneg_nonneg zero_le_power vnorm_nonneg; simp add: rhoair_def rhowater_def Ss_def Sr_def)+
  then have "vdot (Fs s) (vas s) \<le> 0" "vdot (Fr s) (var s) \<le> 0" if "is_orthogonal (so_RBI s)"
    using foil_powers [of s] orthogonal_foils [OF that] by (simp_all add: lift_work_def)
  moreover have "dot6v (apply6 (CT s) (vB s, omegaB s)) (vB s, omegaB s) = 0"
    by (cases "vB s" rule: vec3_cases; cases "omegaB s" rule: vec3_cases)
      (simp add: CT_def CRB_def CA_def MA_def zero3_def J0_def mapply_def Let_def algebra_simps)
  ultimately show ?thesis using foil_powers [of s] orthogonal_foils drag by blast
qed

text \<open>The orientation that the first step at rest leaves behind, in a wind.\<close>

theorem lift_does_no_work_witness:
  "let s = so_set_wind (5, 1, 0) ((SimulatorSaoud2013_new 1)\<lparr>so_RBI := ((- 1, 0, 0), (0, 1, 0), (0, 0, 1))\<rparr>)
   in is_orthogonal (so_RBI s) \<and> vdot (Fs s) (vas s) \<le> 0 \<and> vdot (Fr s) (var s) \<le> 0"
proof -
  define s where "s = so_set_wind (5, 1, 0) ((SimulatorSaoud2013_new 1)\<lparr>so_RBI := ((- 1, 0, 0), (0, 1, 0), (0, 0, 1))\<rparr>)"
  have "is_orthogonal (so_RBI s)" by (simp add: s_def so_set_wind_def is_orthogonal_def mmul_def identity3_def)
  with lift_does_no_work [of s] show ?thesis unfolding Let_def s_def [symmetric] by blast
qed

section \<open>What is not as intended\<close>

text \<open>
  The angle of attack of the keel is computed with the rotation instead of its inverse: for a boat that
  moves straight ahead, whose keel sees no sideways flow, it is twice the yaw instead of zero.
\<close>

theorem keel_angle_of_attack_wrong:
  assumes "so_RBI s = rotZ y" and "so_v s = (u * cos y, u * sin y, 0)" and "so_omega s = (0, 0, 0)" and "so_vc s = (0, 0, 0)"
    and "1 / 1000 \<le> u * cos (2 * y)" and "0 < u" and "\<bar>2 * y\<bar> < pi / 2"
  shows "alphak s = - 2 * y"
proof -
  have "vak s = (u * cos y, u * sin y, 0)"
    using assms(2,3,4) by (cases "GGk s" rule: vec3_cases) (simp add: vak_def vk_def)
  moreover have "cos y * (u * cos y) - sin y * (u * sin y) = u * cos (2 * y)" "sin y * (u * cos y) + cos y * (u * sin y) = u * sin (2 * y)"
    using cos_add [of y y] sin_add [of y y] unfolding mult_2 by algebra+
  ultimately have "mapply (so_RBI s) (vak s) = (u * cos (2 * y), u * sin (2 * y), 0)"
    using assms(1) by (simp add: mapply_def rotZ_def)
  moreover have "0 < cos (2 * y)" using assms(7) by (intro cos_gt_zero_pi) auto
  moreover have "- (u * sin (2 * y)) / (u * cos (2 * y)) = tan (- (2 * y))" using assms(6) by (simp add: tan_def)
  moreover have "arctan (tan (- (2 * y))) = - (2 * y)" using assms(7) by (intro arctan_tan) auto
  ultimately show ?thesis using assms(5,6) by (simp add: alphak_def Let_def)
qed

text \<open>
  At rest and without wind, a single step of the simulation turns the orientation into a reflection, since
  \<^verbatim>\<open>Orthogonalize\<close> negates the first row.
\<close>

theorem step_at_rest_mirrors_boat:
  "so_RBI (so_Update inverse6 (SimulatorSaoud2013_new dt)) = ((- 1, 0, 0), (0, 1, 0), (0, 0, 1))"
proof -
  define s where "s = (SimulatorSaoud2013_new dt)\<lparr>so_deltas := 8 / 10\<rparr>"
  have st: "so_RBI s = identity3" "so_v s = (0, 0, 0)" "so_omega s = (0, 0, 0)" "so_vw s = (0, 0, 0)" "so_vc s = (0, 0, 0)"
    "so_deltasdot s = 0" "so_deltardot s = 0" "so_dt s = dt"
    by (simp_all add: s_def SimulatorSaoud2013_new_def)
  have zero: "mapply M (0, 0, 0) = (0, 0, 0)" for M by (cases M rule: mat3_cases) (simp add: mapply_def)
  have cz: "vcross (0, 0, 0) w = (0, 0, 0)" "vcross w (0, 0, 0) = (0, 0, 0)" "vscale 0 w = (0, 0, 0)" for w
    by (cases w rule: vec3_cases; simp)+
  have va: "vas s = (0, 0, 0)" "var s = (0, 0, 0)" "vak s = (0, 0, 0)"
    by (simp_all add: vas_def vs_def var_def vr_def vak_def vk_def st cz)
  have foil0: "foil l a b c (0, 0, 0) n = (0, 0, 0)" for l a b c n by (cases n rule: vec3_cases) (simp add: foil_def)
  have F: "Fs s = (0, 0, 0)" "Fr s = (0, 0, 0)" "Fk s = (0, 0, 0)" by (simp_all add: Fs_def Fr_def Fk_def Let_def va foil0)
  have B: "vB s = (0, 0, 0)" "omegaB s = (0, 0, 0)" by (simp_all add: vB_def omegaB_def st zero)
  have D: "Fd s = (0, 0, 0)" "taud s = (0, 0, 0)" by (simp_all add: Fd_def taud_def st B zero so_c1_def so_c2_def so_c3_def so_c4_def Let_def)
  have R: "taures s = (0, 0, 0)" by (simp add: taures_def st B_B_def FBuoy_def so_k0_def)
  have T: "taus s = (0, 0, 0)" "taur s = (0, 0, 0)" "tauk s = (0, 0, 0)" by (simp_all add: taus_def taur_def tauk_def F cz)
  have ap: "apply6 M ((0, 0, 0), (0, 0, 0)) = ((0, 0, 0), (0, 0, 0))" for M by (cases M) (auto simp: zero)
  have nu: "nudot inverse6 s = ((0, 0, 0), (0, 0, 0))"
    by (simp add: nudot_def Let_def F D R T B Fres_def zero ap)
  have "so_Update inverse6 (SimulatorSaoud2013_new dt) =
      s\<lparr>so_v := (0, 0, 0), so_omega := (0, 0, 0), so_x := (0, 0, 0), so_RBI := Orthogonalize identity3\<rparr>"
    unfolding so_Update_def Let_def
    by (simp add: SimulatorSaoud2013_new_def flip: s_def) (use nu B in \<open>simp add: s_def SimulatorSaoud2013_new_def zero mmul_def identity3_def\<close>)
  then show ?thesis by (simp add: Orthogonalize_def identity3_def Let_def)
qed

end
