(* ===== verification/Csv_Logger.thy ===== *)
theory Csv_Logger
  imports Can Sensors
begin

text \<open>
  The logger of the simulations (\<^verbatim>\<open>sim/csv_logging.cc\<close>): columns are named by paths into the
  messages, which are followed by protobuf's reflection; the latest value of each column is kept and
  written as a line of comma-separated numbers by every iteration.
\<close>

section \<open>Paths into a message\<close>

text \<open>A message as reflection shows it: fields are messages or numbers, found by their names.\<close>

datatype pnode = PSub "string \<Rightarrow> pnode option" | PNum ptype "pval option"

fun find_field :: "pnode \<Rightarrow> string \<Rightarrow> pnode option" where
  "find_field (PSub f) name = f name"
| "find_field (PNum t v) name = None"

definition find_dot :: "string \<Rightarrow> nat \<Rightarrow> nat option" where
  "find_dot s n =
     (let rest = drop n s in if CHR ''.'' \<in> set rest then Some (n + length (takeWhile (\<lambda>c. c \<noteq> CHR ''.'') rest)) else None)"

definition rfind_dot :: "string \<Rightarrow> nat option" where
  "rfind_dot s =
     (if CHR ''.'' \<in> set s then Some (length s - 1 - length (takeWhile (\<lambda>c. c \<noteq> CHR ''.'') (rev s))) else None)"

lemma takeWhile_first: "x \<notin> set w \<Longrightarrow> takeWhile (\<lambda>c. c \<noteq> x) (w @ x # rest) = w"
  by (induction w) auto

lemma find_dot_split:
  assumes "find_dot s n = Some k"
  obtains w rest where "drop n s = w @ CHR ''.'' # rest" "CHR ''.'' \<notin> set w" "k = n + length w" "take (k - n) (drop n s) = w" "drop (k + 1) s = rest"
proof -
  have "CHR ''.'' \<in> set (drop n s)" using assms by (auto simp: find_dot_def Let_def split: if_splits)
  then obtain w rest where d: "drop n s = w @ CHR ''.'' # rest" "CHR ''.'' \<notin> set w" by (metis split_list_first)
  then have "takeWhile (\<lambda>c. c \<noteq> CHR ''.'') (drop n s) = w" by (simp add: takeWhile_first)
  with assms d have k: "k = n + length w" by (simp add: find_dot_def Let_def)
  have "drop (k + 1) s = drop (length w + 1) (drop n s)" by (simp add: k add.commute add.left_commute)
  with d k show ?thesis by (intro that [OF d k]) simp_all
qed

lemma find_dot_bounds:
  assumes "find_dot s n = Some k"
  shows "n \<le> k" and "k < length s" and "n < length s"
proof -
  obtain w rest where d: "drop n s = w @ CHR ''.'' # rest" "k = n + length w" using find_dot_split [OF assms] by metis
  have "length (drop n s) = length w + 1 + length rest" unfolding d(1) by simp
  then show "n \<le> k" "k < length s" "n < length s" using d(2) unfolding length_drop by linarith+
qed

function get_loop :: "string \<Rightarrow> pnode \<Rightarrow> nat \<Rightarrow> pnode res" where
  "get_loop field submsg n =
     (case find_dot field n of
        None \<Rightarrow> Inr submsg
      | Some next \<Rightarrow>
          (case find_field submsg (take (next - n) (drop n field)) of
             Some (PSub f) \<Rightarrow> get_loop field (PSub f) (next + 1)
           | _ \<Rightarrow> Inl Fatal))"
  by auto
termination
  by (relation "measure (\<lambda>(field, _, n). length field - n)") (auto intro!: diff_less_mono2 dest: find_dot_bounds)

declare get_loop.simps [simp del]

definition last_name :: "pnode \<Rightarrow> string \<Rightarrow> real res" where
  "last_name submsg name =
     (case find_field submsg name of
        None \<Rightarrow> Inl Fatal
      | Some (PNum t v) \<Rightarrow> Inr (GetProtoNumberField t v)
      | Some (PSub f) \<Rightarrow> Inr (GetProtoNumberField T_other None))"

definition GetField :: "pnode \<Rightarrow> string \<Rightarrow> real res" where
  "GetField m field =
     bindr (get_loop field m 0) (\<lambda>submsg.
       let n = (case rfind_dot field of None \<Rightarrow> 0 | Some k \<Rightarrow> k + 1) in last_name submsg (drop n field))"

section \<open>The node\<close>

record CsvLogger =
  csv_data :: "real list"
  csv_indices :: "string \<Rightarrow> nat option"
  csv_fields :: "string \<Rightarrow> string list"
  csv_running :: bool
  csv_file :: string

definition msg_name :: "string \<Rightarrow> string" where
  "msg_name path = takeWhile (\<lambda>c. c \<noteq> CHR ''.'') path"

definition add_column :: "string \<times> string \<Rightarrow> CsvLogger \<Rightarrow> CsvLogger" where
  "add_column d s =
     (let nm = msg_name (fst d)
      in s\<lparr>csv_fields := (csv_fields s)(nm := csv_fields s nm @ [fst d]), csv_indices := (csv_indices s)(fst d \<mapsto> length (csv_data s)),
           csv_data := csv_data s @ [0], csv_file := csv_file s @ '','' @ snd d\<rparr>)"

definition newline :: string where "newline = [CHR 0x0A]"

definition CsvLogger_new :: "(string \<times> string) list \<Rightarrow> real \<Rightarrow> CsvLogger" where
  "CsvLogger_new cols start_csv =
     (let s = fold add_column cols \<lparr>csv_data = [], csv_indices = Map.empty, csv_fields = (\<lambda>_. []), csv_running = (start_csv = 0),
                csv_file = ''#Time''\<rparr>
      in s\<lparr>csv_file := csv_file s @ newline\<rparr>)"

text \<open>What the thread of a message's queue does with a message.\<close>

fun ProcessInput :: "pnode \<Rightarrow> string list \<Rightarrow> CsvLogger \<Rightarrow> CsvLogger res" where
  "ProcessInput entry [] s = Inr s"
| "ProcessInput entry (item # items) s =
     bindr (GetField entry item) (\<lambda>val.
       case csv_indices s item of
         None \<Rightarrow> Inl OutOfBounds
       | Some i \<Rightarrow> bindr (update_checked (csv_data s) i val) (\<lambda>d. ProcessInput entry items (s\<lparr>csv_data := d\<rparr>)))"

text \<open>
  \<^verbatim>\<open>printf\<close> with \<open>%f\<close>: six decimals, rounded to the nearest and to the even one in the middle.
\<close>

definition round_even :: "real \<Rightarrow> int" where
  "round_even x =
     (let f = \<lfloor>x\<rfloor>; d = x - of_int f
      in if d < 1 / 2 then f else if d > 1 / 2 then f + 1 else if even f then f else f + 1)"

definition printf_f :: "real \<Rightarrow> string" where
  "printf_f r =
     (let q = nat (round_even (\<bar>r\<bar> * 10 ^ 6))
      in (if r < 0 then ''-'' else '''') @ nat_digits (q div 10 ^ 6) @ ''.'' @ zero_pad 6 (nat_digits (q mod 10 ^ 6)))"

definition CSV_BUF_LEN :: nat where "CSV_BUF_LEN = 40000"

text \<open>
  The text as it would be in a buffer of any size; once it is longer than the buffer, the
  next write (the remaining size has wrapped around) or the final newline is outside of it.
\<close>

fun print_items :: "string \<Rightarrow> real list \<Rightarrow> string res" where
  "print_items text [] = (if length text > CSV_BUF_LEN then Inl OutOfBounds else Inr text)"
| "print_items text (x # xs) = (if length text > CSV_BUF_LEN then Inl OutOfBounds else print_items (text @ printf_f x @ '','') xs)"

definition csv_iterate :: "real \<Rightarrow> real \<Rightarrow> CsvLogger \<Rightarrow> CsvLogger res" where
  "csv_iterate start_csv time s =
     (let s1 = (if time > start_csv then s\<lparr>csv_running := True\<rparr> else s)
      in bindr (print_items (printf_f time @ '','') (csv_data s1)) (\<lambda>text.
           if csv_running s1 then Inr (s1\<lparr>csv_file := csv_file s1 @ butlast text @ newline\<rparr>) else Inr s1))"

definition csv_stop :: "CsvLogger \<Rightarrow> CsvLogger" where "csv_stop s = s\<lparr>csv_running := False\<rparr>"
definition csv_start :: "CsvLogger \<Rightarrow> CsvLogger" where "csv_start s = s\<lparr>csv_running := True\<rparr>"

datatype CsvEvent = CsvEntry string pnode | CsvIterate real | CsvStop | CsvStart

primrec csv_step :: "real \<Rightarrow> CsvEvent \<Rightarrow> CsvLogger \<Rightarrow> CsvLogger res" where
  "csv_step start_csv (CsvEntry nm entry) s = ProcessInput entry (csv_fields s nm) s"
| "csv_step start_csv (CsvIterate time) s = csv_iterate start_csv time s"
| "csv_step start_csv CsvStop s = Inr (csv_stop s)"
| "csv_step start_csv CsvStart s = Inr (csv_start s)"

section \<open>A path is the list of its names\<close>

fun split_dots :: "string \<Rightarrow> string list" where
  "split_dots [] = [[]]"
| "split_dots (c # cs) =
     (if c = CHR ''.'' then [] # split_dots cs else (case split_dots cs of [] \<Rightarrow> [[c]] | w # ws \<Rightarrow> (c # w) # ws))"

fun follow :: "pnode \<Rightarrow> string list \<Rightarrow> real res" where
  "follow m [] = Inl Fatal"
| "follow m [w] = last_name m w"
| "follow m (w # w' # ws) = (case find_field m w of Some (PSub f) \<Rightarrow> follow (PSub f) (w' # ws) | _ \<Rightarrow> Inl Fatal)"

lemma split_dots_nonempty: "split_dots s \<noteq> []"
  by (cases s) (auto split: list.splits)

lemma split_dots_plain: "CHR ''.'' \<notin> set w \<Longrightarrow> split_dots w = [w]"
  by (induction w) auto

lemma split_dots_first: "CHR ''.'' \<notin> set w \<Longrightarrow> split_dots (w @ CHR ''.'' # rest) = w # split_dots rest"
  by (induction w) auto

lemma last_dot:
  assumes "find_dot s n = None" and "n = 0 \<or> 0 < n \<and> n \<le> length s \<and> s ! (n - 1) = CHR ''.''"
  shows "(case rfind_dot s of None \<Rightarrow> 0 | Some k \<Rightarrow> k + 1) = n"
proof -
  have no: "CHR ''.'' \<notin> set (drop n s)" using assms(1) by (auto simp: find_dot_def Let_def split: if_splits)
  from assms(2) show ?thesis
  proof
    assume n: "0 < n \<and> n \<le> length s \<and> s ! (n - 1) = CHR ''.''"
    have s: "s = take (n - 1) s @ CHR ''.'' # drop n s"
      using n id_take_nth_drop [of "n - 1" s] by auto
    then have "rev s = rev (drop n s) @ CHR ''.'' # rev (take (n - 1) s)" by (metis rev_append rev.simps(2) append.assoc append_Cons append_Nil)
    then have "takeWhile (\<lambda>c. c \<noteq> CHR ''.'') (rev s) = rev (drop n s)" using no by (simp add: takeWhile_first)
    moreover have "CHR ''.'' \<in> set s" using s by (metis in_set_conv_decomp)
    ultimately show ?thesis using n by (simp add: rfind_dot_def)
  qed (use no in \<open>simp add: rfind_dot_def\<close>)
qed

lemma get_loop_follow:
  assumes "n = 0 \<or> 0 < n \<and> n \<le> length field \<and> field ! (n - 1) = CHR ''.''"
  shows "bindr (get_loop field m n) (\<lambda>submsg. last_name submsg (drop (case rfind_dot field of None \<Rightarrow> 0 | Some k \<Rightarrow> k + 1) field)) =
    follow m (split_dots (drop n field))"
  using assms
proof (induction field m n rule: get_loop.induct)
  case (1 field m n)
  show ?case
  proof (cases "find_dot field n")
    case None
    then have "CHR ''.'' \<notin> set (drop n field)" by (auto simp: find_dot_def Let_def split: if_splits)
    then show ?thesis using last_dot [OF None "1.prems"] None by (simp add: get_loop.simps [of field] split_dots_plain)
  next
    case (Some k)
    then obtain w rest where d: "drop n field = w @ CHR ''.'' # rest" "CHR ''.'' \<notin> set w" "k = n + length w"
      "take (k - n) (drop n field) = w" "drop (k + 1) field = rest" by (rule find_dot_split)
    have "field ! k = CHR ''.''" using d(1,3) find_dot_bounds(2) [OF Some] nth_drop [of n field "length w"] by simp
    then have pre: "k + 1 = 0 \<or> 0 < k + 1 \<and> k + 1 \<le> length field \<and> field ! (k + 1 - 1) = CHR ''.''"
      using find_dot_bounds(2) [OF Some] by simp
    obtain w' ws where sp: "split_dots rest = w' # ws" using split_dots_nonempty by (metis neq_Nil_conv)
    show ?thesis
    proof (cases "find_field m w")
      case (Some node)
      then show ?thesis
      proof (cases node)
        case (PSub f)
        from "1.IH" [OF \<open>find_dot field n = Some k\<close>, of "PSub f" f] pre d Some PSub
        show ?thesis using \<open>find_dot field n = Some k\<close> sp by (simp add: get_loop.simps [of field m n] split_dots_first)
      qed (use \<open>find_dot field n = Some k\<close> d sp Some in \<open>simp add: get_loop.simps [of field m n] split_dots_first\<close>)
    qed (use Some d sp in \<open>simp add: get_loop.simps [of field m n] split_dots_first\<close>)
  qed
qed

text \<open>
  A path is resolved as the list of its names between dots: all but the last must be messages, the last is
  read as a number, and a name that does not exist is fatal.
\<close>

lemma GetField_follow: "GetField m field = follow m (split_dots field)"
  using get_loop_follow [of 0 field m] by (simp add: GetField_def Let_def)

section \<open>The lines of the file\<close>

fun join_commas :: "string list \<Rightarrow> string" where
  "join_commas [] = []"
| "join_commas [w] = w"
| "join_commas (w # ws) = w @ '','' @ join_commas ws"

definition csv_row :: "real \<Rightarrow> real list \<Rightarrow> string" where
  "csv_row time vals = join_commas (map printf_f (time # vals)) @ newline"

lemma butlast_commas: "ws \<noteq> [] \<Longrightarrow> butlast (concat (map (\<lambda>w. w @ '','') ws)) = join_commas ws"
  by (induction ws rule: join_commas.induct) (auto simp: butlast_append)

lemma length_printf_f:
  assumes "\<bar>r\<bar> < 10 ^ k"
  shows "length (printf_f r) \<le> k + 9"
proof -
  define q where "q = nat (round_even (\<bar>r\<bar> * 10 ^ 6))"
  have "\<bar>r\<bar> * 10 ^ 6 < 10 ^ k * 10 ^ 6" using assms by simp
  also have "\<dots> = real_of_int (10 ^ (k + 6))" by (simp add: power_add)
  finally have "\<lfloor>\<bar>r\<bar> * 10 ^ 6\<rfloor> < 10 ^ (k + 6)" by (simp only: floor_less_iff)
  then have "round_even (\<bar>r\<bar> * 10 ^ 6) \<le> 10 ^ (k + 6)" by (auto simp: round_even_def Let_def)
  then have "q \<le> 10 ^ (k + 6)" unfolding q_def by (simp add: nat_le_iff)
  then have "q div 10 ^ 6 \<le> 10 ^ (k + 6) div 10 ^ 6" by (rule div_le_mono)
  also have "\<dots> < (10 :: nat) ^ (k + 1)" by (simp add: power_add)
  finally have "length (nat_digits (q div 10 ^ 6)) \<le> k + 1" by (intro length_nat_digits) simp_all
  moreover have "length (nat_digits (q mod 10 ^ 6)) \<le> 6" by (intro length_nat_digits) simp_all
  ultimately show ?thesis unfolding printf_f_def Let_def q_def [symmetric] by (simp add: length_zero_pad)
qed

lemma print_items_fit:
  assumes "length t + length (concat (map (\<lambda>x. printf_f x @ '','') xs)) \<le> CSV_BUF_LEN"
  shows "print_items t xs = Inr (t @ concat (map (\<lambda>x. printf_f x @ '','') xs))"
  using assms by (induction xs arbitrary: t) auto

lemma length_items:
  "\<forall>x\<in>set xs. \<bar>x\<bar> < 10 ^ k \<Longrightarrow> length (concat (map (\<lambda>x. printf_f x @ '','') xs)) \<le> length xs * (k + 10)"
proof (induction xs)
  case (Cons x xs)
  then have "length (printf_f x) \<le> k + 9" by (intro length_printf_f) simp
  with Cons show ?case by simp
qed simp

lemma csv_iterate_row:
  assumes "\<forall>x\<in>set (time # csv_data s). \<bar>x\<bar> < 10 ^ k" "(length (csv_data s) + 1) * (k + 10) \<le> CSV_BUF_LEN"
  shows "csv_iterate start_csv time s =
    Inr (let run = (time > start_csv \<or> csv_running s)
         in s\<lparr>csv_running := run, csv_file := csv_file s @ (if run then csv_row time (csv_data s) else [])\<rparr>)"
proof -
  have "length (concat (map (\<lambda>x. printf_f x @ '','') (time # csv_data s))) \<le> CSV_BUF_LEN"
    using length_items [OF assms(1)] assms(2) by simp
  then have "print_items (printf_f time @ '','') (csv_data s) = Inr (concat (map (\<lambda>x. printf_f x @ '','') (time # csv_data s)))"
    by (subst print_items_fit) simp_all
  moreover have "butlast (concat (map (\<lambda>x. printf_f x @ '','') (time # csv_data s))) @ newline = csv_row time (csv_data s)"
    using butlast_commas [of "map printf_f (time # csv_data s)"] by (simp add: csv_row_def comp_def)
  ultimately show ?thesis by (auto simp: csv_iterate_def Let_def)
qed

section \<open>The columns\<close>

text \<open>What the logger keeps for columns \<open>cols\<close> when the latest values are given by \<open>val\<close>.\<close>

definition csv_rel :: "(string \<times> string) list \<Rightarrow> (string \<Rightarrow> real) \<Rightarrow> CsvLogger \<Rightarrow> bool" where
  "csv_rel cols val s \<longleftrightarrow>
     csv_data s = map (val \<circ> fst) cols \<and> (\<forall>i < length cols. csv_indices s (fst (cols ! i)) = Some i) \<and>
     (\<forall>nm. csv_fields s nm = filter (\<lambda>p. msg_name p = nm) (map fst cols))"

lemma add_column_rel:
  assumes "csv_rel cols (\<lambda>_. 0) s" "fst d \<notin> fst ` set cols"
  shows "csv_rel (cols @ [d]) (\<lambda>_. 0) (add_column d s)"
proof -
  have "fst (cols ! i) \<noteq> fst d" if "i < length cols" for i using assms(2) that by (metis image_eqI nth_mem)
  then show ?thesis
    using assms(1) by (auto simp: csv_rel_def add_column_def Let_def nth_append less_Suc_eq)
qed

lemma add_columns_rel:
  assumes "csv_rel cols (\<lambda>_. 0) s" "distinct (map fst (cols @ ds))"
  shows "csv_rel (cols @ ds) (\<lambda>_. 0) (fold add_column ds s)"
  using assms
proof (induction ds arbitrary: cols s)
  case (Cons d ds)
  then have "csv_rel (cols @ [d]) (\<lambda>_. 0) (add_column d s)" by (intro add_column_rel) auto
  with Cons.prems(2) Cons.IH [of "cols @ [d]" "add_column d s"] show ?case by simp
qed simp

lemma add_columns_file: "csv_file (fold add_column ds s) = csv_file s @ concat (map (\<lambda>d. '','' @ snd d) ds)"
  "csv_running (fold add_column ds s) = csv_running s"
  by (induction ds arbitrary: s) (simp_all add: add_column_def Let_def)

lemma ProcessInput_rel:
  assumes "csv_rel cols val s" "distinct (map fst cols)" "set items \<subseteq> fst ` set cols"
    and "\<And>p. p \<in> set items \<Longrightarrow> GetField entry p = Inr (new p)"
  shows "\<exists>s'. ProcessInput entry items s = Inr s' \<and> csv_rel cols (\<lambda>p. if p \<in> set items then new p else val p) s' \<and>
    csv_file s' = csv_file s \<and> csv_running s' = csv_running s"
  using assms
proof (induction items arbitrary: s val)
  case (Cons p items)
  from Cons.prems(3) obtain i where i: "i < length cols" "fst (cols ! i) = p" by (metis in_set_conv_nth image_iff list.set_intros(1) subsetD)
  define s1 where "s1 = s\<lparr>csv_data := (csv_data s)[i := new p]\<rparr>"
  have upd: "(map (val \<circ> fst) cols)[i := new p] = map ((\<lambda>q. if q = p then new p else val q) \<circ> fst) cols"
  proof (rule nth_equalityI)
    fix j assume "j < length ((map (val \<circ> fst) cols)[i := new p])"
    then show "(map (val \<circ> fst) cols)[i := new p] ! j = map ((\<lambda>q. if q = p then new p else val q) \<circ> fst) cols ! j"
      using i Cons.prems(2) nth_eq_iff_index_eq [of "map fst cols" i j] by (auto simp: nth_list_update)
  qed simp
  have step: "ProcessInput entry (p # items) s = ProcessInput entry items s1"
    using Cons.prems(1,4) i by (auto simp: csv_rel_def s1_def)
  have r1: "csv_rel cols (\<lambda>q. if q = p then new p else val q) s1"
    using Cons.prems(1) upd by (simp add: csv_rel_def s1_def)
  obtain s' where s': "ProcessInput entry items s1 = Inr s'"
    "csv_rel cols (\<lambda>q. if q \<in> set items then new q else if q = p then new p else val q) s'"
    "csv_file s' = csv_file s1" "csv_running s' = csv_running s1"
    using Cons.IH [OF r1 Cons.prems(2)] Cons.prems(3,4) by auto
  moreover have "(\<lambda>q. if q \<in> set items then new q else if q = p then new p else val q) = (\<lambda>q. if q \<in> set (p # items) then new q else val q)"
    by auto
  ultimately show ?case unfolding step by (intro exI [of _ s']) (simp add: s1_def)
qed simp

section \<open>The contents of the file\<close>

definition field_value :: "pnode \<Rightarrow> string \<Rightarrow> real" where
  "field_value entry p = (case GetField entry p of Inl _ \<Rightarrow> 0 | Inr x \<Rightarrow> x)"

text \<open>The lines that a sequence of events gives, from the latest values and whether lines are written.\<close>

fun csv_lines :: "(string \<times> string) list \<Rightarrow> real \<Rightarrow> (string \<Rightarrow> real) \<Rightarrow> bool \<Rightarrow> CsvEvent list \<Rightarrow> string" where
  "csv_lines cols start_csv val run [] = []"
| "csv_lines cols start_csv val run (CsvEntry nm entry # es) =
     csv_lines cols start_csv (\<lambda>p. if msg_name p = nm then field_value entry p else val p) run es"
| "csv_lines cols start_csv val run (CsvIterate time # es) =
     (let run' = (time > start_csv \<or> run)
      in (if run' then csv_row time (map (val \<circ> fst) cols) else []) @ csv_lines cols start_csv val run' es)"
| "csv_lines cols start_csv val run (CsvStop # es) = csv_lines cols start_csv val False es"
| "csv_lines cols start_csv val run (CsvStart # es) = csv_lines cols start_csv val True es"

fun csv_event_ok :: "nat \<Rightarrow> (string \<times> string) list \<Rightarrow> CsvEvent \<Rightarrow> bool" where
  "csv_event_ok k cols (CsvEntry nm entry) \<longleftrightarrow>
     (\<forall>p\<in>fst ` set cols. msg_name p = nm \<longrightarrow> (\<exists>x. GetField entry p = Inr x \<and> \<bar>x\<bar> < 10 ^ k))"
| "csv_event_ok k cols (CsvIterate time) \<longleftrightarrow> \<bar>time\<bar> < 10 ^ k"
| "csv_event_ok k cols _ \<longleftrightarrow> True"

lemma csv_rel_running [simp]:
  "csv_rel cols val (s\<lparr>csv_running := b\<rparr>) = csv_rel cols val s"
  "csv_rel cols val (s\<lparr>csv_running := b, csv_file := f\<rparr>) = csv_rel cols val s"
  by (simp_all add: csv_rel_def)

lemma csv_rel_cong:
  "csv_rel cols val s \<Longrightarrow> (\<And>p. p \<in> fst ` set cols \<Longrightarrow> val p = val' p) \<Longrightarrow> csv_rel cols val' s"
  by (auto simp: csv_rel_def)

lemma csv_run:
  assumes "csv_rel cols val s" "distinct (map fst cols)" "(length cols + 1) * (k + 10) \<le> CSV_BUF_LEN"
    and "\<forall>p\<in>fst ` set cols. \<bar>val p\<bar> < 10 ^ k" and "list_all (csv_event_ok k cols) es"
  shows "\<exists>s'. run_events (csv_step start_csv) es s = Inr s' \<and> csv_file s' = csv_file s @ csv_lines cols start_csv val (csv_running s) es"
  using assms(1,4,5)
proof (induction es arbitrary: val s)
  case (Cons e es)
  show ?case
  proof (cases e)
    case (CsvEntry nm entry)
    define items where "items = filter (\<lambda>p. msg_name p = nm) (map fst cols)"
    have new: "GetField entry p = Inr (field_value entry p) \<and> \<bar>field_value entry p\<bar> < 10 ^ k" if "p \<in> set items" for p
      using that Cons.prems(3) CsvEntry by (auto simp: items_def field_value_def)
    obtain s1 where s1: "ProcessInput entry items s = Inr s1" "csv_rel cols (\<lambda>p. if p \<in> set items then field_value entry p else val p) s1"
      "csv_file s1 = csv_file s" "csv_running s1 = csv_running s"
      using ProcessInput_rel [OF Cons.prems(1) assms(2), of items entry "field_value entry"] new by (auto simp: items_def)
    have r: "csv_rel cols (\<lambda>p. if msg_name p = nm then field_value entry p else val p) s1"
      using s1(2) by (rule csv_rel_cong) (auto simp: items_def)
    have "\<forall>p\<in>fst ` set cols. \<bar>if msg_name p = nm then field_value entry p else val p\<bar> < 10 ^ k"
      using new Cons.prems(2) by (auto simp: items_def)
    from Cons.IH [OF r this] Cons.prems(3) have "\<exists>s'. run_events (csv_step start_csv) es s1 = Inr s' \<and>
        csv_file s' = csv_file s1 @ csv_lines cols start_csv (\<lambda>p. if msg_name p = nm then field_value entry p else val p) (csv_running s1) es"
      by simp
    moreover have "csv_fields s nm = items" using Cons.prems(1) by (simp add: csv_rel_def items_def)
    ultimately show ?thesis using s1 CsvEntry by simp
  next
    case (CsvIterate time)
    have d: "csv_data s = map (val \<circ> fst) cols" using Cons.prems(1) by (simp add: csv_rel_def)
    define run s1 where "run = (time > start_csv \<or> csv_running s)"
      and "s1 = s\<lparr>csv_running := run, csv_file := csv_file s @ (if run then csv_row time (csv_data s) else [])\<rparr>"
    have it: "csv_iterate start_csv time s = Inr s1"
      unfolding s1_def run_def using csv_iterate_row [of time s k start_csv] Cons.prems(2,3) assms(3) CsvIterate by (simp add: d Let_def)
    have "\<exists>s'. run_events (csv_step start_csv) es s1 = Inr s' \<and> csv_file s' = csv_file s1 @ csv_lines cols start_csv val (csv_running s1) es"
      using Cons.prems by (intro Cons.IH) (simp_all add: s1_def)
    then show ?thesis by (auto simp: CsvIterate it Let_def d s1_def run_def)
  next
    case CsvStop
    then show ?thesis using Cons.IH [of val "csv_stop s"] Cons.prems by (simp add: csv_stop_def)
  next
    case CsvStart
    then show ?thesis using Cons.IH [of val "csv_start s"] Cons.prems by (simp add: csv_start_def)
  qed
qed simp

text \<open>
  The file holds the header and one line for each iteration while the logger is running: the time and, for each column in
  the given order, the number of the latest message of its queue, or zero, as \<^verbatim>\<open>printf\<close> writes them, separated
  by commas.  This holds for distinct columns whose paths exist, as long as the numbers are so small
  that a line fits the buffer of 40000 characters: below \<open>10 ^ 38\<close>, for instance, 832 columns do.
\<close>

lemma csv_file_contents:
  assumes "distinct (map fst cols)" and "(length cols + 1) * (k + 10) \<le> CSV_BUF_LEN" and "list_all (csv_event_ok k cols) es"
  shows "\<exists>s. run_events (csv_step start_csv) es (CsvLogger_new cols start_csv) = Inr s \<and>
    csv_file s = ''#Time'' @ concat (map (\<lambda>d. '','' @ snd d) cols) @ newline @
      csv_lines cols start_csv (\<lambda>_. 0) (start_csv = 0) es"
proof -
  have "csv_rel [] (\<lambda>_. 0) \<lparr>csv_data = [], csv_indices = Map.empty, csv_fields = (\<lambda>_. []), csv_running = (start_csv = 0), csv_file = ''#Time''\<rparr>"
    by (simp add: csv_rel_def)
  from add_columns_rel [OF this, of cols] assms(1)
  have "csv_rel cols (\<lambda>_. 0) (CsvLogger_new cols start_csv)" by (simp add: CsvLogger_new_def Let_def csv_rel_def)
  from csv_run [OF this assms(1,2) _ assms(3), of start_csv] show ?thesis
    by (simp add: CsvLogger_new_def Let_def add_columns_file)
qed

end
