(* ===== verification/Log_Columns.thy ===== *)
theory Log_Columns
  imports Csv_Logger
begin

text \<open>
  What the programs log: the columns of \<^verbatim>\<open>sim/basic_sim_main.cc\<close>, \<^verbatim>\<open>util/log-replay-main.cc\<close> and
  \<^verbatim>\<open>util/logsim_main.cc\<close>, and the types of the messages they look into, from \<^verbatim>\<open>util/msg.proto\<close> and the files it
  imports.  A path that the types know is read from every message of that type; so none of the
  programs is ended by one of its columns.
\<close>

section \<open>Types of messages\<close>

datatype pschema = SMsg "(string \<times> pschema) list" | SNum ptype

text \<open>A bound on the size of a double; the largest one is about \<open>1.8 * 10 ^ 308\<close>.\<close>

definition max_double :: real where
  "max_double = 10 ^ 309"

lemma max_double_large: "10 ^ 39 < max_double" "10 ^ 20 < max_double"
  unfolding max_double_def by (intro power_strict_increasing; simp)+

text \<open>The values a field of each type can have, and the typing of messages.\<close>

fun pval_ok :: "ptype \<Rightarrow> pval \<Rightarrow> bool" where
  "pval_ok T_double (PReal x) \<longleftrightarrow> \<bar>x\<bar> < max_double"
| "pval_ok T_float (PReal x) \<longleftrightarrow> \<bar>x\<bar> < 10 ^ 39"
| "pval_ok T_bool (PBool b) \<longleftrightarrow> True"
| "pval_ok T_enum (PInt n) \<longleftrightarrow> - (2 ^ 31) \<le> n \<and> n < 2 ^ 31"
| "pval_ok T_int32 (PInt n) \<longleftrightarrow> - (2 ^ 31) \<le> n \<and> n < 2 ^ 31"
| "pval_ok T_int64 (PInt n) \<longleftrightarrow> - (2 ^ 63) \<le> n \<and> n < 2 ^ 63"
| "pval_ok T_uint32 (PInt n) \<longleftrightarrow> 0 \<le> n \<and> n < 2 ^ 32"
| "pval_ok T_uint64 (PInt n) \<longleftrightarrow> 0 \<le> n \<and> n < 2 ^ 64"
| "pval_ok _ _ \<longleftrightarrow> False"

inductive typed :: "pschema \<Rightarrow> pnode \<Rightarrow> bool" where
  num: "(\<And>x. v = Some x \<Longrightarrow> pval_ok t x) \<Longrightarrow> typed (SNum t) (PNum t v)"
| msg: "(\<And>w s. map_of fs w = Some s \<Longrightarrow> \<exists>m. f w = Some m \<and> typed s m) \<Longrightarrow> typed (SMsg fs) (PSub f)"

inductive_cases typed_numE: "typed (SNum t) m"
inductive_cases typed_msgE: "typed (SMsg fs) m"

fun type_of_path :: "pschema \<Rightarrow> string list \<Rightarrow> ptype option" where
  "type_of_path (SMsg fs) [w] = (case map_of fs w of Some (SNum t) \<Rightarrow> Some t | _ \<Rightarrow> None)"
| "type_of_path (SMsg fs) (w # w' # ws) = (case map_of fs w of Some s \<Rightarrow> type_of_path s (w' # ws) | None \<Rightarrow> None)"
| "type_of_path _ _ = None"

lemma pval_ok_bound:
  assumes "pval_ok t x"
  shows "\<bar>GetProtoNumberField t (Some x)\<bar> < max_double"
proof (cases x)
  case (PReal r)
  then have "t \<noteq> T_other" "\<bar>r\<bar> < max_double" using assms max_double_large(1) by (cases t; simp)+
  then show ?thesis by (simp add: GetProtoNumberField_def PReal)
next
  case (PBool b)
  have "\<bar>of_bool b :: real\<bar> \<le> 10 ^ 20" by (cases b) simp_all
  then show ?thesis using max_double_large(2) by (simp add: GetProtoNumberField_def PBool)
next
  case (PInt n)
  then have "\<bar>n\<bar> \<le> 10 ^ 20" using assms by (cases t) auto
  then have "real_of_int \<bar>n\<bar> \<le> real_of_int (10 ^ 20)" by (simp only: of_int_le_iff)
  then have "\<bar>real_of_int n\<bar> < max_double" using max_double_large(2) by simp
  then show ?thesis using max_double_large(2) by (simp add: GetProtoNumberField_def PInt)
qed

lemma default_bound: "\<bar>GetProtoNumberField t None\<bar> < max_double"
  using max_double_large(2) by (simp add: GetProtoNumberField_def)

lemma typed_follow:
  assumes "typed sc m" "type_of_path sc ws = Some t"
  shows "\<exists>x. follow m ws = Inr x \<and> \<bar>x\<bar> < max_double"
  using assms
proof (induction sc ws arbitrary: m rule: type_of_path.induct)
  case (1 fs w)
  then have w: "map_of fs w = Some (SNum t)" by (auto split: option.splits pschema.splits)
  with 1(1) obtain f v where m: "m = PSub f" "f w = Some (PNum t v)" "\<And>x. v = Some x \<Longrightarrow> pval_ok t x"
    by (elim typed_msgE) (metis typed_numE)
  have "\<bar>GetProtoNumberField t v\<bar> < max_double"
    using m(3) pval_ok_bound default_bound by (cases v) simp_all
  with m show ?case by (simp add: last_name_def)
next
  case (2 fs w w' ws)
  then obtain s where s: "map_of fs w = Some s" "type_of_path s (w' # ws) = Some t" by (auto split: option.splits)
  then obtain gs where gs: "s = SMsg gs" by (cases s) auto
  from 2(2) s(1) obtain f m' where m: "m = PSub f" "f w = Some m'" "typed s m'" by (elim typed_msgE) metis
  then obtain g where "m' = PSub g" using gs by (auto elim: typed_msgE)
  with m "2.IH" [OF s(1) m(3) s(2)] show ?case by simp
qed simp_all

text \<open>
  C27: Type safety of the paths: if the types say that a path ends at a number, reading it from any message of that type
  gives a number, of a size that doubles have, and never ends the program.
\<close>

theorem typed_path_reads:
  assumes "typed sc m" and "type_of_path sc (split_dots path) = Some t"
  shows "\<exists>x. GetField m path = Inr x \<and> \<bar>x\<bar> < max_double"
  using typed_follow [OF assms] by (simp add: GetField_follow)

theorem typed_path_reads_witness:
  "typed (SMsg [(''x'', SNum T_float)]) (PSub [''x'' \<mapsto> PNum T_float (Some (PReal 2))]) \<and>
   (\<exists>x. GetField (PSub [''x'' \<mapsto> PNum T_float (Some (PReal 2))]) ''x'' = Inr x \<and> \<bar>x\<bar> < max_double)"
proof -
  have "typed (SMsg [(''x'', SNum T_float)]) (PSub [''x'' \<mapsto> PNum T_float (Some (PReal 2))])"
    by (auto intro!: typed.intros split: if_splits)
  moreover have "type_of_path (SMsg [(''x'', SNum T_float)]) (split_dots ''x'') = Some T_float" by simp
  ultimately show ?thesis using typed_path_reads by blast
qed

text \<open>Every type has messages.\<close>

lemma typed_message_exists: "\<exists>m. typed sc m"
proof (induction sc)
  case (SMsg fs)
  define f where "f w = map_option (\<lambda>s. SOME m. typed s m) (map_of fs w)" for w
  have "\<exists>m. f w = Some m \<and> typed s m" if "map_of fs w = Some s" for w s
  proof -
    have "\<exists>m. typed s m" using SMsg.IH map_of_SomeD [OF that] by fastforce
    then show ?thesis using that by (simp add: f_def someI_ex)
  qed
  then have "typed (SMsg fs) (PSub f)" by (rule typed.msg)
  then show ?case ..
next
  case (SNum t)
  have "typed (SNum t) (PNum t None)" by (rule typed.num) simp
  then show ?case ..
qed

section \<open>The messages that are logged\<close>

text \<open>Of each message the fields that a column looks into.\<close>

definition float_fields :: "string list \<Rightarrow> pschema" where
  "float_fields names = SMsg (map (\<lambda>n. (n, SNum T_float)) names)"

definition Vector3f_type :: pschema where "Vector3f_type = float_fields [''x'', ''y'', ''z'']"
definition Vector3d_type :: pschema where "Vector3d_type = SMsg [(''x'', SNum T_double), (''y'', SNum T_double), (''z'', SNum T_double)]"
definition Quaternion_type :: pschema where "Quaternion_type = float_fields [''w'', ''x'', ''y'', ''z'']"
definition EulerAngles_type :: pschema where "EulerAngles_type = float_fields [''roll'', ''pitch'', ''yaw'']"

definition InternalBoatState_type :: pschema where
  "InternalBoatState_type = float_fields [''sail'', ''rudder'', ''ballast'', ''saildot'', ''rudderdot'', ''ballastdot'']"

definition BoatState_type :: pschema where
  "BoatState_type =
     SMsg [(''pos_float'', Vector3f_type), (''pos'', Vector3d_type), (''orientation'', Quaternion_type), (''vel'', Vector3f_type),
       (''omega'', Vector3f_type), (''internal'', InternalBoatState_type), (''euler'', EulerAngles_type)]"

definition SimDebugMsg_type :: pschema where
  "SimDebugMsg_type =
     SMsg (map (\<lambda>n. (n, Vector3f_type))
       [''fs'', ''fr'', ''fk'', ''fh'', ''fnet'', ''taus'', ''taur'', ''tauk'', ''tauh'', ''tauright'', ''taunet''])"

definition HeadingCmd_type :: pschema where "HeadingCmd_type = float_fields [''heading'', ''extra_sail'']"

definition ControlMode_type :: pschema where
  "ControlMode_type =
     SMsg (map (\<lambda>n. (n, SNum T_enum)) [''winch_mode'', ''tacker'', ''rudder_mode'', ''rigid_mode'', ''ballast_mode''])"

definition SystemTime_type :: pschema where
  "SystemTime_type = SMsg [(''SID'', SNum T_uint32), (''date'', SNum T_uint32), (''time'', SNum T_uint32)]"

definition CANMaster_type :: pschema where "CANMaster_type = SMsg [(''sys_time'', SystemTime_type)]"

definition LogEntry_type :: pschema where
  "LogEntry_type =
     SMsg [(''boat_state'', BoatState_type), (''wind'', Vector3f_type), (''heading_cmd'', HeadingCmd_type),
       (''control_mode'', ControlMode_type), (''true_wind'', Vector3f_type), (''sim_debug'', SimDebugMsg_type),
       (''sim_true_boat_state'', BoatState_type), (''orig_boat_state'', BoatState_type), (''orig_heading_cmd'', HeadingCmd_type),
       (''can126992'', CANMaster_type)]"

section \<open>The columns of the programs\<close>

definition LOG_VECTOR :: "string \<Rightarrow> string \<Rightarrow> (string \<times> string) list" where
  "LOG_VECTOR path nm = [(path @ ''.x'', nm @ '' X''), (path @ ''.y'', nm @ '' Y''), (path @ ''.z'', nm @ '' Z'')]"

definition sim_debug_columns :: "(string \<times> string) list" where
  "sim_debug_columns =
     LOG_VECTOR ''sim_debug.fs'' ''Sail Force'' @ LOG_VECTOR ''sim_debug.fr'' ''Rudder Force'' @
     LOG_VECTOR ''sim_debug.fk'' ''Keel Force'' @ LOG_VECTOR ''sim_debug.fh'' ''Hull Force'' @
     LOG_VECTOR ''sim_debug.fnet'' ''Net Force'' @ LOG_VECTOR ''sim_debug.taus'' ''Sail Torque'' @
     LOG_VECTOR ''sim_debug.taur'' ''Rudder Torque'' @ LOG_VECTOR ''sim_debug.tauk'' ''Keel Torque'' @
     LOG_VECTOR ''sim_debug.tauh'' ''Hull Torque'' @ LOG_VECTOR ''sim_debug.tauright'' ''Righting Moment'' @
     LOG_VECTOR ''sim_debug.taunet'' ''Net Torque''"

definition basic_sim_columns :: "(string \<times> string) list" where
  "basic_sim_columns =
     [(''sim_true_boat_state.internal.sail'', ''Sail''), (''sim_true_boat_state.internal.rudder'', ''Rudder''),
      (''sim_true_boat_state.pos.x'', ''Boat X''), (''sim_true_boat_state.pos.y'', ''Boat Y''),
      (''sim_true_boat_state.vel.x'', ''Boat Vel X''), (''sim_true_boat_state.vel.y'', ''Boat Vel Y''),
      (''sim_true_boat_state.orientation.w'', ''Quat W''), (''sim_true_boat_state.orientation.x'', ''Quat X''),
      (''sim_true_boat_state.orientation.y'', ''Quat Y''), (''sim_true_boat_state.orientation.z'', ''Quat Z''),
      (''wind.x'', ''Wind X''), (''wind.y'', ''Wind Y'')] @ sim_debug_columns @ [(''heading_cmd.heading'', ''Heading Goal'')]"

definition log_replay_columns :: "(string \<times> string) list" where
  "log_replay_columns =
     [(''wind.x'', ''Wind X''), (''wind.y'', ''Wind Y''), (''boat_state.internal.sail'', ''Sail''),
      (''boat_state.internal.rudder'', ''Rudder''), (''boat_state.euler.yaw'', ''Yaw''), (''boat_state.euler.roll'', ''Heel''),
      (''boat_state.euler.pitch'', ''Pitch''), (''boat_state.omega.z'', ''Rate of Turn''), (''boat_state.pos.x'', ''Longitude''),
      (''boat_state.pos.y'', ''Latitude''), (''boat_state.vel.x'', ''Vel X''), (''boat_state.vel.y'', ''Vel Y''),
      (''true_wind.x'', ''True Wind X''), (''true_wind.y'', ''True Wind Y''), (''can126992.sys_time.time'', ''True Time''),
      (''heading_cmd.heading'', ''Heading Cmd''), (''control_mode.rudder_mode'', ''Rudder Mode'')]"

definition logsim_columns :: "(string \<times> string) list" where
  "logsim_columns =
     [(''wind.x'', ''Wind X''), (''wind.y'', ''Wind Y''), (''sim_true_boat_state.internal.sail'', ''Sail''),
      (''sim_true_boat_state.internal.rudder'', ''Rudder''), (''sim_true_boat_state.euler.yaw'', ''Yaw''),
      (''sim_true_boat_state.euler.roll'', ''Heel''), (''sim_true_boat_state.euler.pitch'', ''Pitch''),
      (''boat_state.pos.x'', ''Longitude''), (''boat_state.pos.y'', ''Latitude''), (''sim_true_boat_state.vel.x'', ''Vel X''),
      (''sim_true_boat_state.vel.y'', ''Vel Y''), (''true_wind.x'', ''True Wind X''), (''true_wind.y'', ''True Wind Y''),
      (''can126992.sys_time.time'', ''True Time''), (''heading_cmd.heading'', ''Heading Cmd''),
      (''control_mode.rudder_mode'', ''Rudder Mode''), (''orig_heading_cmd.heading'', ''Orig Heading Cmd''),
      (''orig_boat_state.internal.sail'', ''Orig Sail''), (''orig_boat_state.internal.rudder'', ''Orig Rudder''),
      (''orig_boat_state.euler.yaw'', ''Orig Yaw''), (''orig_boat_state.euler.roll'', ''Orig Heel''),
      (''orig_boat_state.euler.pitch'', ''Orig Pitch''), (''orig_boat_state.pos.x'', ''Orig Longitude''),
      (''orig_boat_state.pos.y'', ''Orig Latitude''), (''orig_boat_state.vel.x'', ''Orig Vel X''),
      (''orig_boat_state.vel.y'', ''Orig Vel Y'')] @ sim_debug_columns"

definition columns_ok :: "(string \<times> string) list \<Rightarrow> bool" where
  "columns_ok cols \<longleftrightarrow>
     distinct (map fst cols) \<and> list_all (\<lambda>c. type_of_path LogEntry_type (split_dots (fst c)) \<noteq> None) cols \<and> length cols \<le> 59"

lemma programs_columns_ok:
  "columns_ok basic_sim_columns" "columns_ok log_replay_columns" "columns_ok logsim_columns"
  by code_simp+

text \<open>Messages of the right type, and times of the size of a double.\<close>

fun log_event_ok :: "CsvEvent \<Rightarrow> bool" where
  "log_event_ok (CsvEntry nm entry) \<longleftrightarrow> typed LogEntry_type entry"
| "log_event_ok (CsvIterate time) \<longleftrightarrow> \<bar>time\<bar> < max_double"
| "log_event_ok _ \<longleftrightarrow> True"

lemma log_event_csv:
  assumes "columns_ok cols" "log_event_ok e"
  shows "csv_event_ok 309 cols e"
proof (cases e)
  case (CsvEntry nm entry)
  have "\<exists>x. GetField entry p = Inr x \<and> \<bar>x\<bar> < max_double" if p: "p \<in> fst ` set cols" for p
  proof -
    obtain t where "type_of_path LogEntry_type (split_dots p) = Some t"
      using assms(1) p by (auto simp: columns_ok_def list_all_iff)
    with assms(2) CsvEntry show ?thesis using typed_follow by (simp add: GetField_follow)
  qed
  with CsvEntry show ?thesis by (simp add: max_double_def)
qed (use assms(2) in \<open>simp_all add: max_double_def\<close>)

text \<open>
  C26: The logs of the three programs are complete: for any messages of the right types and any times, the logger does not end
  the program and does not leave its buffer, and its file holds the header and one line for each iteration
  while it is running, with the time and the latest value of every column.
\<close>

theorem programs_log_everything:
  assumes "cols \<in> {basic_sim_columns, log_replay_columns, logsim_columns}" and "list_all log_event_ok es"
  shows "\<exists>s. run_events (csv_step start_csv) es (CsvLogger_new cols start_csv) = Inr s \<and>
    csv_file s = ''#Time'' @ concat (map (\<lambda>d. '','' @ snd d) cols) @ newline @
      csv_lines cols start_csv (\<lambda>_. 0) (start_csv = 0) es"
proof (rule csv_file_contents [where k = 309])
  have ok: "columns_ok cols" using assms(1) programs_columns_ok by blast
  then show "distinct (map fst cols)" "(length cols + 1) * (309 + 10) \<le> CSV_BUF_LEN"
    by (simp_all add: columns_ok_def CSV_BUF_LEN_def)
  show "list_all (csv_event_ok 309 cols) es"
    using assms(2) log_event_csv [OF ok] by (auto simp: list_all_iff)
qed

theorem programs_log_everything_witness:
  "\<exists>m s. typed LogEntry_type m \<and>
    run_events (csv_step 0) [CsvEntry ''wind'' m, CsvIterate 1] (CsvLogger_new log_replay_columns 0) = Inr s \<and>
    csv_file s = ''#Time'' @ concat (map (\<lambda>d. '','' @ snd d) log_replay_columns) @ newline @
      csv_lines log_replay_columns 0 (\<lambda>_. 0) True [CsvEntry ''wind'' m, CsvIterate 1]"
proof -
  obtain m where m: "typed LogEntry_type m" using typed_message_exists by blast
  then have "list_all log_event_ok [CsvEntry ''wind'' m, CsvIterate 1]" using max_double_large(2) by simp
  with m show ?thesis using programs_log_everything [of log_replay_columns "[CsvEntry ''wind'' m, CsvIterate 1]" 0] by auto
qed

end
