(* ===== verification/Tools.thy ===== *)
theory Tools
  imports Simulator Csv_Logger
begin

text \<open>
  The small nodes of the tools: ping and pong (\<^verbatim>\<open>util/ping.cc\<close>, \<^verbatim>\<open>util/pong.cc\<close>), the echo on the CAN bus
  (\<^verbatim>\<open>can/can-ping.cc\<close>), the node that watches a replayed log (\<^verbatim>\<open>util/log-replay-main.cc\<close>) and the one that turns
  logged states into sail commands for a simulation from a log (\<^verbatim>\<open>util/logsim_main.cc\<close>).
\<close>

section \<open>Ping and pong\<close>

record Ping =
  ping_a :: real
  ping_sent :: "real list"

definition Ping_new :: Ping where "Ping_new = \<lparr>ping_a = 0, ping_sent = []\<rparr>"

definition ping_iterate :: "Ping \<Rightarrow> Ping" where
  "ping_iterate s = (let a = ping_a s + 1 / 1000 in s\<lparr>ping_a := a, ping_sent := ping_sent s @ [a]\<rparr>)"

definition pong_handle :: "real \<Rightarrow> real list \<Rightarrow> real list" where
  "pong_handle a sent = sent @ [2]"

lemma ping_run:
  "ping_a ((ping_iterate ^^ n) Ping_new) = real n / 1000"
  "ping_sent ((ping_iterate ^^ n) Ping_new) = map (\<lambda>i. real (Suc i) / 1000) [0..<n]"
  by (induction n) (simp_all add: ping_iterate_def Ping_new_def Let_def field_simps)

text \<open>Each of the first \<open>n\<close> pings is answered once.\<close>

lemma ping_pong: "fold pong_handle (ping_sent ((ping_iterate ^^ n) Ping_new)) [] = replicate n 2"
proof -
  have "fold pong_handle xs ys = ys @ replicate (length xs) 2" for xs ys
    by (induction xs arbitrary: ys) (simp_all add: pong_handle_def replicate_append_same)
  then show ?thesis by (simp add: ping_run(2))
qed

text \<open>The echo on the CAN bus: the first word of each debugging message comes back as the second one.\<close>

definition can_ping_handle :: "(32 word \<times> 32 word) \<Rightarrow> (32 word \<times> 32 word) list \<Rightarrow> (32 word \<times> 32 word) list" where
  "can_ping_handle d sent = sent @ [(123, fst d)]"

section \<open>Watching a replayed log\<close>

record Watch =
  watch_time :: int
  print_air :: bool
  watch_csv :: CsvLogger
  watch_out :: "(int \<times> int \<times> real) list"

definition Watch_new :: "CsvLogger \<Rightarrow> Watch" where
  "Watch_new csv = \<lparr>watch_time = 0, print_air = False, watch_csv = csv, watch_out = []\<rparr>"

text \<open>A message without a time reads as time zero, and sets it.\<close>

definition watch_sys_time :: "32 word option \<Rightarrow> Watch \<Rightarrow> Watch" where
  "watch_sys_time t s = s\<lparr>watch_time := trunc (real_of_int (uint (get_or 0 t)) / 10 ^ 4)\<rparr>"

definition scamp_tms :: "32 word \<Rightarrow> int" where "scamp_tms d1 = uint (d1 AND 0xFFFF)"
definition scamp_enct :: "32 word \<Rightarrow> int" where "scamp_enct d1 = sint (ucast (drop_bit 16 d1) :: 16 word)"

definition scamp_airmar :: "32 word \<Rightarrow> real" where
  "scamp_airmar d2 = 1 / 10 ^ 7 / 32 * real_of_int (sint (push_bit 16 (d2 AND 0xFFFF)))"

definition watch_debug :: "32 word \<times> 32 word \<Rightarrow> Watch \<Rightarrow> Watch" where
  "watch_debug d s =
     (let tms = scamp_tms (fst d); enct = scamp_enct (fst d); airmar = scamp_airmar (snd d)
      in if print_air s then s\<lparr>watch_out := watch_out s @ [(tms, enct, airmar)]\<rparr> else s)"

definition watch_ping :: "real \<Rightarrow> Watch \<Rightarrow> Watch" where
  "watch_ping a s =
     (if \<bar>a - 15 / 10\<bar> < 1 / 10 ^ 5 then s\<lparr>print_air := True\<rparr>
      else if \<bar>a - 159 / 100\<bar> < 1 / 10 ^ 5 then s\<lparr>print_air := False\<rparr> else s)"

definition watch_iterate :: "int \<Rightarrow> Watch \<Rightarrow> Watch" where
  "watch_iterate start_time s =
     (if watch_time s > start_time \<and> watch_time s < 184000 then s\<lparr>watch_csv := csv_start (watch_csv s)\<rparr> else s)"

text \<open>
  The sensor's counters are packed into a word: the time is its low half, the encoder's count is its high half as a
  signed number, and together they give the word back.
\<close>

lemma scamp_words:
  "0 \<le> scamp_tms d" "scamp_tms d < 2 ^ 16" "- (2 ^ 15) \<le> scamp_enct d" "scamp_enct d < 2 ^ 15"
  "word_of_int (scamp_enct d * 2 ^ 16 + scamp_tms d) = d"
proof -
  have m: "(0xFFFF :: 32 word) = mask 16" by (simp add: mask_eq_exp_minus_1)
  have "scamp_tms d = take_bit 16 (uint d)"
    unfolding scamp_tms_def m by (simp only: unsigned_take_bit_eq flip: take_bit_eq_mask)
  then have tms: "scamp_tms d = uint d mod 2 ^ 16" by (simp add: take_bit_eq_mod)
  show "0 \<le> scamp_tms d" "scamp_tms d < 2 ^ 16" by (simp_all add: tms)
  show "- (2 ^ 15) \<le> scamp_enct d" "scamp_enct d < 2 ^ 15"
    using sint_range_size [of "ucast (drop_bit 16 d) :: 16 word"] by (simp_all add: scamp_enct_def word_size)
  define w :: "16 word" where "w = ucast (drop_bit 16 d)"
  have "uint (drop_bit 16 d) = uint d div 2 ^ 16" by (simp add: drop_bit_eq_div uint_div)
  then have w: "uint w = (uint d div 2 ^ 16) mod 2 ^ 16" by (simp add: w_def unsigned_ucast_eq take_bit_eq_mod)
  have "uint d < 4294967296" using uint_lt2p [of d] by simp
  then have "uint d div 65536 < 65536" by linarith
  moreover have "0 \<le> uint d div 65536" by (simp add: pos_imp_zdiv_nonneg_iff)
  ultimately have q: "uint w = uint d div 2 ^ 16" by (simp add: w)
  have "uint w = uint (word_of_int (sint w) :: 16 word)" by simp
  then have "sint w mod 2 ^ 16 = uint w" unfolding uint_word_of_int by simp
  then have "sint w = 2 ^ 16 * (sint w div 2 ^ 16) + uint w" using mult_div_mod_eq [of "2 ^ 16" "sint w"] by simp
  then have wd: "sint w = 65536 * (sint w div 65536) + uint d div 65536" by (simp add: q)
  have "a = 65536 * k + x div 65536 \<Longrightarrow> a * 65536 + x mod 65536 = 4294967296 * k + x" for a k x :: int by presburger
  from this [OF wd]
  have "scamp_enct d * 2 ^ 16 + scamp_tms d = 2 ^ 32 * (sint w div 2 ^ 16) + uint d"
    unfolding scamp_enct_def w_def [symmetric] tms by simp
  moreover have "(word_of_int (2 ^ 32 * k + uint d) :: 32 word) = d" for k
    by (rule word_uint_eqI) (use uint_lt2p [of d] in \<open>simp add: uint_word_of_int del: of_int_add of_int_mult\<close>)
  ultimately show "word_of_int (scamp_enct d * 2 ^ 16 + scamp_tms d) = d" by simp
qed

section \<open>Simulating from a log\<close>

text \<open>For each logged state the node sends a command for the sail with the logged angle.\<close>

definition logsim_pong :: "SimState \<Rightarrow> SimEvent" where
  "logsim_pong m = SimSail None (Some (Some (ss_sail m)))"

text \<open>
  In a simulation from a log the sail and the rudder follow it: after a logged state and a logged command for the
  rudder a step has the logged sail angle, on the side of the wind, and the logged rudder angle, within
  the rudder's limits; the command for the sail that \<^const>\<open>logsim_pong\<close> adds has no effect in this mode.
\<close>

lemma logsim_follows_log:
  assumes "set_pos s" "sim_started s" "reset_period s \<le> 0 \<or> now \<le> next_reset s" "t0 \<le> now" "now \<le> t1"
  shows "\<exists>s'. run_events (sim_step q t0 t1) [SimOrig m, logsim_pong m, SimRudder None (Some (Some r)), SimIterate now] s = Inr s' \<and>
    td_deltar (impl s') = min (max r (- 6 / 10)) (6 / 10) \<and> td_deltas (impl s') = sail_side (impl s) (ss_sail m) \<and>
    impl s' = Update_pos (ss_sail m) r (impl s)"
  using assms
  by (auto simp: logsim_pong_def sim_orig_state_def ProcessSail_def ProcessRudder_def is_number_def number_def read_value_def
      sim_iterate_def sim_update_def Let_def Update_pos_def set_actuators_def)

end
