(* ===== verification/Proto_File.thy ===== *)
theory Proto_File
  imports Scamp
begin

text \<open>
  Messages in files (\<^verbatim>\<open>util/proto_util.cc\<close>) and the constants that the actuator interface keeps in one.  The text format
  is protobuf's: printing and parsing are parameters, and the only thing assumed of them is that a text
  that was printed without an error parses to the message it was printed from.
\<close>

section \<open>Files\<close>

record filesystem =
  fs_files :: "string \<Rightarrow> string option"
  fs_readable :: "string \<Rightarrow> bool"
  fs_writable :: "string \<Rightarrow> bool"

text \<open>
  \<^verbatim>\<open>open\<close> with \<^verbatim>\<open>O_RDONLY\<close> needs an existing file; with \<^verbatim>\<open>O_WRONLY | O_CREAT\<close> it creates one, and as there is no \<^verbatim>\<open>O_TRUNC\<close>
  writing replaces the beginning of what an existing file holds.
\<close>

definition open_read :: "string \<Rightarrow> filesystem \<Rightarrow> string option" where
  "open_read f fs = (if fs_readable fs f then fs_files fs f else None)"

definition overwrite :: "string \<Rightarrow> string option \<Rightarrow> string" where
  "overwrite new old = new @ drop (length new) (get_or [] old)"

definition ReadProtoFromFile :: "(string \<Rightarrow> 'm option) \<Rightarrow> string option \<Rightarrow> filesystem \<Rightarrow> 'm option" where
  "ReadProtoFromFile parse fname fs =
     (case fname of None \<Rightarrow> None
      | Some f \<Rightarrow> (case open_read f fs of None \<Rightarrow> None | Some contents \<Rightarrow> parse contents))"

text \<open>\<open>print\<close> gives the text that reaches the file and whether printing succeeded.\<close>

definition WriteProtoToFile :: "('m \<Rightarrow> string \<times> bool) \<Rightarrow> string option \<Rightarrow> 'm \<Rightarrow> filesystem \<Rightarrow> filesystem \<times> bool" where
  "WriteProtoToFile print fname m fs =
     (case fname of None \<Rightarrow> (fs, False)
      | Some f \<Rightarrow>
          (if fs_writable fs f
           then (fs\<lparr>fs_files := (fs_files fs)(f := Some (overwrite (fst (print m)) (fs_files fs f)))\<rparr>, snd (print m))
           else (fs, False)))"

text \<open>What the code relies on of protobuf's text format.\<close>

definition text_format :: "('m \<Rightarrow> string \<times> bool) \<Rightarrow> (string \<Rightarrow> 'm option) \<Rightarrow> bool" where
  "text_format print parse \<longleftrightarrow> (\<forall>m. snd (print m) \<longrightarrow> parse (fst (print m)) = Some m)"

text \<open>The old text is no longer than the new one.\<close>

definition covers :: "string \<Rightarrow> string option \<Rightarrow> bool" where
  "covers new old \<longleftrightarrow> length (get_or [] old) \<le> length new"

lemma overwrite_covers [simp]: "covers new old \<Longrightarrow> overwrite new old = new"
  by (simp add: overwrite_def covers_def)

lemma overwrite_again: "overwrite new (Some (overwrite new old)) = overwrite new old"
  by (simp add: overwrite_def)

text \<open>
  What is written is read back when the file may be written and read and the new text covers the
  old one, and writing fails without a change when it may not be written.
\<close>

lemma write_read:
  assumes "text_format print parse" "fs_writable fs f" "fs_readable fs f" "snd (print m)" "covers (fst (print m)) (fs_files fs f)"
  shows "ReadProtoFromFile parse (Some f) (fst (WriteProtoToFile print (Some f) m fs)) = Some m"
  using assms by (simp add: ReadProtoFromFile_def WriteProtoToFile_def open_read_def text_format_def)

lemma write_result:
  "snd (WriteProtoToFile print fname m fs) \<longleftrightarrow> (\<exists>f. fname = Some f \<and> fs_writable fs f) \<and> snd (print m)"
  "\<not> fs_writable fs f \<Longrightarrow> WriteProtoToFile print (Some f) m fs = (fs, False)"
  "g \<noteq> f \<Longrightarrow> fs_files (fst (WriteProtoToFile print (Some f) m fs)) g = fs_files fs g"
  by (auto simp: WriteProtoToFile_def split: option.splits)

section \<open>The zeroing constants\<close>

text \<open>The whole handler of \<^verbatim>\<open>zeroing_consts\<close>: the constants are set, and written when the message asks for it.\<close>

definition sc_consts_message ::
  "(ZeroingConstants \<Rightarrow> string \<times> bool) \<Rightarrow> string \<Rightarrow> ConstsMsg \<Rightarrow> SCAMP \<times> filesystem \<Rightarrow> SCAMP \<times> filesystem" where
  "sc_consts_message print f m st =
     (let s = sc_handle_consts m (fst st)
      in (s, if c_write m then fst (WriteProtoToFile print (Some f) (zconsts s) (snd st)) else snd st))"

definition scamp_start :: "(string \<Rightarrow> ZeroingConstants option) \<Rightarrow> string \<Rightarrow> filesystem \<Rightarrow> SCAMP" where
  "scamp_start parse f fs = SCAMP_new (ReadProtoFromFile parse (Some f) fs)"

text \<open>The constants after a list of messages are those of the messages alone, whatever is written.\<close>

lemma consts_run_scamp:
  "fst (fold (sc_consts_message print f) ms (s, fs)) =
     fold sc_handle_consts ms s"
  by (induction ms arbitrary: s fs) (simp_all add: sc_consts_message_def Let_def)

lemma consts_run_unwritten:
  assumes "list_all (\<lambda>m. \<not> c_write m) ms"
  shows "snd (fold (sc_consts_message print f) ms st) = snd st"
  using assms by (induction ms arbitrary: st) (simp_all add: sc_consts_message_def Let_def)

lemma consts_run_access [simp]:
  "fs_writable (snd (fold (sc_consts_message print f) ms st)) = fs_writable (snd st)"
  "fs_readable (snd (fold (sc_consts_message print f) ms st)) = fs_readable (snd st)"
  by (induction ms arbitrary: st) (simp_all add: sc_consts_message_def Let_def WriteProtoToFile_def)

text \<open>
  C35: Calibrating the boat survives a restart: after any messages with constants the interface that is
  started again has the constants as they were when they were last written, messages after that
  which do not ask for writing being lost, provided that the file can be written and read and that the text
  written last is at least as long as what the file held before.
\<close>

theorem constants_survive_restart:
  assumes "text_format print parse" and "fs_writable fs f" and "fs_readable fs f"
    and "c_write m" and "list_all (\<lambda>m. \<not> c_write m) later"
    and "before = fold (sc_consts_message print f) ms (s, fs)"
    and "written = zconsts (fst (sc_consts_message print f m before))"
    and "snd (print written)" and "covers (fst (print written)) (fs_files (snd before) f)"
  shows "zconsts (scamp_start parse f (snd (fold (sc_consts_message print f) (ms @ m # later) (s, fs)))) = written"
proof -
  have "snd (fold (sc_consts_message print f) (ms @ m # later) (s, fs)) = snd (sc_consts_message print f m before)"
    using consts_run_unwritten [OF assms(5)] by (simp add: assms(6))
  also have "\<dots> = fst (WriteProtoToFile print (Some f) written (snd before))"
    by (simp add: sc_consts_message_def Let_def assms(4, 7))
  finally show ?thesis
    using write_read [OF assms(1), of "snd before" f written] assms(2, 3, 8, 9)
    by (simp add: scamp_start_def SCAMP_new_def assms(6))
qed

text \<open>A text format in which the zero of the rudder is written in unary.\<close>

definition unary_print :: "ZeroingConstants \<Rightarrow> string \<times> bool" where
  "unary_print c =
     (replicate (nat (rudder_zero c)) (CHR ''1''), 0 \<le> rudder_zero c \<and> c = default_consts\<lparr>rudder_zero := rudder_zero c\<rparr>)"

definition unary_parse :: "string \<Rightarrow> ZeroingConstants option" where
  "unary_parse t = Some (default_consts\<lparr>rudder_zero := int (length t)\<rparr>)"

definition rudder_msg :: "int \<Rightarrow> bool \<Rightarrow> ConstsMsg" where
  "rudder_msg z w = \<lparr>c_winch_0 = None, c_winch_90 = None, c_rudder = Some z, c_ballast = None, c_out = None, c_write = w\<rparr>"

definition empty_fs :: filesystem where
  "empty_fs = \<lparr>fs_files = (\<lambda>_. None), fs_readable = (\<lambda>_. True), fs_writable = (\<lambda>_. True)\<rparr>"

lemma unary_format: "text_format unary_print unary_parse"
  unfolding text_format_def
proof (intro allI impI)
  fix c assume "snd (unary_print c)"
  then have "0 \<le> rudder_zero c" and "c = default_consts\<lparr>rudder_zero := rudder_zero c\<rparr>" by (simp_all add: unary_print_def)
  then show "unary_parse (fst (unary_print c)) = Some c" by (simp add: unary_parse_def unary_print_def)
qed

lemma rudder_msg_consts:
  "zconsts s = default_consts\<lparr>rudder_zero := y\<rparr> \<Longrightarrow>
   zconsts (fst (sc_consts_message print f (rudder_msg z w) (s, fs))) = default_consts\<lparr>rudder_zero := z\<rparr>"
  by (simp add: sc_consts_message_def rudder_msg_def sc_handle_consts_def Let_def default_consts_def)

theorem constants_survive_restart_witness:
  "zconsts (scamp_start unary_parse ''consts'' (snd (fold (sc_consts_message unary_print ''consts'')
     ([rudder_msg 92 True] @ rudder_msg 95 True # [rudder_msg 99 False]) (SCAMP_new None, empty_fs)))) =
   default_consts\<lparr>rudder_zero := 95\<rparr>"
proof -
  define before where "before = fold (sc_consts_message unary_print ''consts'') [rudder_msg 92 True] (SCAMP_new None, empty_fs)"
  have new: "zconsts (SCAMP_new None) = default_consts\<lparr>rudder_zero := 90\<rparr>" by (simp add: SCAMP_new_def default_consts_def)
  have "zconsts (fst before) = default_consts\<lparr>rudder_zero := 92\<rparr>" unfolding before_def by (simp add: rudder_msg_consts [OF new])
  then have w: "default_consts\<lparr>rudder_zero := 95\<rparr> = zconsts (fst (sc_consts_message unary_print ''consts'' (rudder_msg 95 True) before))"
    using rudder_msg_consts [of "fst before" 92 unary_print "''consts''" 95 True "snd before"] by simp
  have "fs_files (snd before) ''consts'' = Some (fst (unary_print (default_consts\<lparr>rudder_zero := 92\<rparr>)))"
    unfolding before_def using rudder_msg_consts [OF new, of unary_print "''consts''" 92 True empty_fs]
    by (simp add: sc_consts_message_def Let_def WriteProtoToFile_def empty_fs_def overwrite_def rudder_msg_def)
  then have c: "covers (fst (unary_print (default_consts\<lparr>rudder_zero := 95\<rparr>))) (fs_files (snd before) ''consts'')"
    by (simp add: covers_def unary_print_def)
  have "c_write (rudder_msg 95 True)" "list_all (\<lambda>m. \<not> c_write m) [rudder_msg 99 False]"
    "fs_writable empty_fs ''consts''" "fs_readable empty_fs ''consts''" "snd (unary_print (default_consts\<lparr>rudder_zero := 95\<rparr>))"
    by (simp_all add: rudder_msg_def empty_fs_def unary_print_def)
  from constants_survive_restart [OF unary_format this(3, 4, 1, 2) before_def w this(5) c] show ?thesis .
qed

text \<open>
  Without truncation the end of a longer text stays in the file, and a restart does not give the constants that were
  written last: the text format may even read the old ones.
\<close>

theorem shorter_constants_are_lost:
  "\<exists>print parse. text_format print parse \<and>
     zconsts (fst (fold (sc_consts_message print f) [rudder_msg 95 True, rudder_msg 92 True] (SCAMP_new None, empty_fs))) =
       default_consts\<lparr>rudder_zero := 92\<rparr> \<and>
     zconsts (scamp_start parse f (snd (fold (sc_consts_message print f) [rudder_msg 95 True, rudder_msg 92 True] (SCAMP_new None, empty_fs)))) =
       default_consts\<lparr>rudder_zero := 95\<rparr>"
  by (intro exI [of _ unary_print] exI [of _ unary_parse] conjI unary_format)
    (simp_all add: sc_consts_message_def rudder_msg_def sc_handle_consts_def Let_def default_consts_def SCAMP_new_def scamp_start_def
      ReadProtoFromFile_def WriteProtoToFile_def open_read_def empty_fs_def overwrite_def unary_print_def unary_parse_def)

end
