(* ===== verification/Actuation.thy ===== *)
theory Actuation
  imports Controllers Scamp
begin

text \<open>
  The chain from the controllers to the servos: the sail and rudder controller, the ballast controller and the
  actuator interface run as separate nodes, and the commands of the first two reach the third through queues that may drop, repeat
  and delay messages.  The composed machine takes the steps of the three nodes in any order, and a delivery step hands any of the
  commands sent so far to the actuator interface.
\<close>

section \<open>The composed machine\<close>

record Actuated =
  sailor_node :: SimpleControl
  ballast_ctl :: BallastControl
  scamp_node :: SCAMP

datatype ActEvent = ToSimple SimpleEvent | ToBallast BallastEvent | ToScamp scamp_event | DeliverSail nat | DeliverRudder nat
  | DeliverBallast nat

definition scamp_do :: "scamp_event \<Rightarrow> Actuated \<Rightarrow> Actuated res" where
  "scamp_do e b = bindr (scamp_step e (scamp_node b)) (\<lambda>s. Inr (b\<lparr>scamp_node := s\<rparr>))"

text \<open>The rudder angle of the \<open>i\<close>-th message that the controller sent, if it was a command for the rudder.\<close>

definition rudder_command :: "SimpleOut list \<Rightarrow> nat \<Rightarrow> real option" where
  "rudder_command sent i = (if i < length sent then case sent ! i of OutRudder p v \<Rightarrow> Some p | _ \<Rightarrow> None else None)"

text \<open>
  The voltage of the \<open>i\<close>-th message, if it was a command for the sail.  A voltage that is not a number is converted to an \<^verbatim>\<open>int\<close>, which is
  undefined, when the winch is in its automatic mode; otherwise the handler does not look at it.
\<close>

definition sail_command :: "SimpleOut list \<Rightarrow> nat \<Rightarrow> real option option" where
  "sail_command sent i = (if i < length sent then case sent ! i of OutSail v g \<Rightarrow> Some v | _ \<Rightarrow> None else None)"

definition deliver_sail :: "real option \<Rightarrow> Actuated \<Rightarrow> Actuated res" where
  "deliver_sail v b =
     (case v of Some x \<Rightarrow> scamp_do (Sc_sail_cmd x) b
      | None \<Rightarrow> if sc_winch_mode (scamp_node b) = AUTO then Inl BadCast else Inr b)"

primrec act_step :: "ActEvent \<Rightarrow> Actuated \<Rightarrow> Actuated res" where
  "act_step (ToSimple e) b = bindr (simple_step e (sailor_node b)) (\<lambda>s. Inr (b\<lparr>sailor_node := s\<rparr>))"
| "act_step (ToBallast e) b = bindr (ballast_step e (ballast_ctl b)) (\<lambda>s. Inr (b\<lparr>ballast_ctl := s\<rparr>))"
| "act_step (ToScamp e) b = scamp_do e b"
| "act_step (DeliverSail i) b =
     (case sail_command (simple_sent (sailor_node b)) i of None \<Rightarrow> Inr b | Some v \<Rightarrow> deliver_sail v b)"
| "act_step (DeliverRudder i) b =
     (case rudder_command (simple_sent (sailor_node b)) i of None \<Rightarrow> Inr b | Some p \<Rightarrow> scamp_do (Sc_rudder_cmd (Some p)) b)"
| "act_step (DeliverBallast i) b =
     (if i < length (voltages (ballast_ctl b)) then scamp_do (Sc_ballast_cmd None (Some (voltages (ballast_ctl b) ! i))) b else Inr b)"

definition Actuated_new :: "bool \<Rightarrow> Actuated" where
  "Actuated_new r = \<lparr>sailor_node = SimpleControl_new r, ballast_ctl = BallastControl_new, scamp_node = SCAMP_new None\<rparr>"

section \<open>The range of the servos\<close>

definition servo_values :: "PWMWrite \<Rightarrow> bool" where
  "servo_values p \<longleftrightarrow> 0 \<le> pwm_winch p \<and> pwm_winch p \<le> 180 \<and> 0 \<le> pwm_rudder p \<and> pwm_rudder p \<le> 180 \<and>
     0 \<le> pwm_ballast p \<and> pwm_ballast p \<le> 180"

definition servo_inv :: "SCAMP \<Rightarrow> bool" where
  "servo_inv s \<longleftrightarrow> scamp_inv s \<and> 54 \<le> rudder_zero (zconsts s) \<and> rudder_zero (zconsts s) \<le> 126 \<and> 0 \<le> raw_rudder s \<and> raw_rudder s \<le> 180 \<and>
     0 \<le> raw_ballast s \<and> raw_ballast s \<le> 180 \<and> list_all servo_values (sc_pwm s)"

text \<open>
  Messages that reach the interface from outside: constants that put the middle of the rudder between 54 and 126 degrees, commands and
  radio positions within the limits of the servos.
\<close>

fun servo_event_ok :: "scamp_event \<Rightarrow> bool" where
  "servo_event_ok (Sc_consts m) =
     (scamp_event_ok (Sc_consts m) \<and> (case c_rudder m of None \<Rightarrow> True | Some z \<Rightarrow> 54 \<le> z \<and> z \<le> 126))"
| "servo_event_ok (Sc_rudder_cmd p) = (\<bar>get_or 0 p\<bar> \<le> 9 / 10)"
| "servo_event_ok (Sc_manual_rudder_cmd p) = (\<bar>get_or 0 p\<bar> \<le> 9 / 10)"
| "servo_event_ok (Sc_ballast_cmd v u) = (\<bar>get_or 0 v\<bar> \<le> 90)"
| "servo_event_ok (Sc_manual_ballast_cmd v u) = (\<bar>get_or 0 v\<bar> \<le> 90)"
| "servo_event_ok e = scamp_event_ok e"

lemma servo_event_scamp: "servo_event_ok e \<Longrightarrow> scamp_event_ok e"
  by (cases e) (auto simp: small_opt_def small_def split: option.splits)

lemma rudder_angle_range:
  assumes "\<bar>p\<bar> \<le> 9 / 10" "54 \<le> z" "z \<le> 126"
  shows "0 \<le> p / pi * 180 + z" "p / pi * 180 + z \<le> 180"
proof -
  have "\<bar>p\<bar> / pi \<le> (9 / 10) / 3" using assms(1) pi_ge_three by (intro frac_le) simp_all
  then have q: "\<bar>p / pi\<bar> \<le> 3 / 10" unfolding abs_divide by simp
  have "0 \<le> q * 180 + z \<and> q * 180 + z \<le> 180" if "\<bar>q\<bar> \<le> 3 / 10" for q :: real using that assms(2, 3) by linarith
  from this [OF q] show "0 \<le> p / pi * 180 + z" "p / pi * 180 + z \<le> 180" by blast+
qed

text \<open>What each kind of command does to the raw values.\<close>

lemma servo_rudder:
  assumes "servo_inv s" "\<bar>get_or 0 p\<bar> \<le> 9 / 10" "sc_handle_rudder mode p s = Inr s'" "scamp_inv s'"
  shows "servo_inv s'"
proof -
  define x where "x = get_or 0 p / pi * 180 + of_int (rudder_zero (zconsts s))"
  have r: "0 \<le> x" "x \<le> 180"
    using rudder_angle_range [OF assms(2), of "of_int (rudder_zero (zconsts s))"] assms(1) by (simp_all add: x_def servo_inv_def)
  then have "to_int32 x = Inr (trunc x)" by (intro to_int32_small) simp
  moreover have "0 \<le> trunc x \<and> trunc x \<le> 180" using r by (intro trunc_range) simp_all
  moreover have "SetRawFromRudderCmd p s = bindr (to_int32 x) (\<lambda>n. Inr (s\<lparr>raw_rudder := n\<rparr>))"
    by (simp add: SetRawFromRudderCmd_def x_def)
  ultimately show ?thesis
    using assms(1, 3, 4) by (auto simp: sc_handle_rudder_def servo_inv_def split: if_splits)
qed

lemma ballast_volts_raw:
  assumes "\<bar>v\<bar> \<le> 12"
  shows "0 \<le> trunc (v * 90 / 12 + 90) \<and> trunc (v * 90 / 12 + 90) \<le> 180"
  using raw_from_volts(1, 2) [of v] assms by (simp add: abs_le_iff)

lemma servo_ballast_volts:
  "\<exists>n. SetRawFromBallastCmd None (Some x) s = Inr (s\<lparr>raw_ballast := n\<rparr>) \<and> 0 \<le> n \<and> n \<le> 180"
proof -
  define w where "w = (if ballast_pos s \<ge> 1.1 then min (Clip x (-12) 12) 0
                       else if ballast_pos s \<le> -1.1 then max (Clip x (-12) 12) 0 else Clip x (-12) 12)"
  have "\<bar>Clip x (-12) 12\<bar> \<le> 12" using Clip_abs [of 12 x] by simp
  then have "\<bar>w\<bar> \<le> 12" unfolding w_def by auto
  note raw = ballast_volts_raw [OF this]
  have "SetRawFromBallastCmd None (Some x) s = Inr (s\<lparr>raw_ballast := trunc (w * 90 / 12 + 90)\<rparr>)"
    unfolding w_def SetRawFromBallastCmd_def by (simp only: option.case Let_def)
  with raw show ?thesis by blast
qed

lemma servo_ballast_vel:
  assumes "\<bar>y\<bar> \<le> 90"
  shows "\<exists>n. SetRawFromBallastCmd (Some y) u s = Inr (s\<lparr>raw_ballast := n\<rparr>) \<and> 0 \<le> n \<and> n \<le> 180"
proof -
  have "to_int32 (y + 90) = Inr (trunc (y + 90))" using assms by (intro to_int32_small) (simp add: abs_le_iff abs_less_iff)
  moreover have "0 \<le> trunc (y + 90) \<and> trunc (y + 90) \<le> 180" using assms by (intro trunc_range) (simp_all add: abs_le_iff)
  ultimately show ?thesis by (auto simp: SetRawFromBallastCmd_def)
qed

lemma servo_ballast:
  assumes "servo_inv s" "\<bar>get_or 0 v\<bar> \<le> 90" "sc_handle_ballast_cmd mode v u s = Inr s'" "scamp_inv s'"
  shows "servo_inv s'"
proof -
  have "SetRawFromBallastCmd v u s = Inr s \<or> (\<exists>n. SetRawFromBallastCmd v u s = Inr (s\<lparr>raw_ballast := n\<rparr>) \<and> 0 \<le> n \<and> n \<le> 180)"
  proof (cases v)
    case None
    then show ?thesis using servo_ballast_volts by (cases u) (simp_all add: SetRawFromBallastCmd_def [of None None])
  qed (use assms(2) servo_ballast_vel in simp)
  then show ?thesis using assms(1, 3, 4) by (auto simp: sc_handle_ballast_cmd_def servo_inv_def split: if_splits)
qed

lemma servo_sbus:
  assumes "servo_inv s" "scamp_event_ok (Sc_sbus ch)" "sc_handle_sbus ch s = Inr s'" "scamp_inv s'"
  shows "servo_inv s'"
proof -
  have len: "3 < length ch" using assms(2) by simp
  then have "23 \<le> ch ! 3 \<and> ch ! 3 \<le> 2023" using assms(2) by (simp add: list_all_length)
  then have raw: "0 \<le> SBUSToRaw (ch ! 3)" "SBUSToRaw (ch ! 3) \<le> 180" using SBUSToRaw_range by blast+
  have zero: "54 \<le> rudder_zero (zconsts s)" "rudder_zero (zconsts s) \<le> 126" using assms(1) by (simp_all add: servo_inv_def)
  have "0 \<le> trunc ((of_int (SBUSToRaw (ch ! 3)) - 90) * (1 / 2) + 90) \<and> trunc ((of_int (SBUSToRaw (ch ! 3)) - 90) * (1 / 2) + 90) \<le> 180"
    using raw by (intro trunc_range) (simp_all add: field_simps)
  moreover have "0 \<le> trunc (- (of_int (SBUSToRaw (ch ! 3)) - 90) * (6 / 10) + of_int (rudder_zero (zconsts s))) \<and>
      trunc (- (of_int (SBUSToRaw (ch ! 3)) - 90) * (6 / 10) + of_int (rudder_zero (zconsts s))) \<le> 180"
    using raw zero by (intro trunc_range) (simp_all add: field_simps)
  ultimately show ?thesis
    using assms(1, 3, 4) len
    by (cases "sc_rudder_mode s"; cases "sc_winch_mode s") (auto simp: sc_handle_sbus_def nth_checked_def servo_inv_def)
qed

lemma servo_iterate: "servo_inv s \<Longrightarrow> servo_inv (sc_iterate s)"
  using sc_inv_iterate [of s] by (auto simp: servo_inv_def sc_iterate_def Let_def SetRawFromSailCmd_def servo_values_def scamp_inv_def)

lemma servo_step:
  assumes "servo_inv s" "servo_event_ok e"
  shows "\<exists>s'. scamp_step e s = Inr s' \<and> servo_inv s'"
proof -
  have "scamp_inv s" using assms(1) by (simp add: servo_inv_def)
  from actuators.step_inv [OF this servo_event_scamp [OF assms(2)]]
  obtain s' where s': "scamp_step e s = Inr s'" "scamp_inv s'" by blast
  have "servo_inv s'"
  proof (cases e)
    case (Sc_mode m)
    then show ?thesis using assms s' by (auto simp: sc_handle_mode_def Let_def servo_inv_def)
  next
    case (Sc_pot v)
    then show ?thesis using assms s' by (auto simp: sc_handle_pot_def WinchPotToAngle_def Let_def servo_inv_def split: if_splits)
  next
    case (Sc_ballast v)
    then show ?thesis using assms s' by (cases v) (auto simp: sc_handle_ballast_def Let_def servo_inv_def)
  next
    case (Sc_sbus ch)
    then show ?thesis using assms s' servo_sbus by auto
  next
    case (Sc_sail_cmd v)
    then show ?thesis
      using assms s' small_fits(1) [of v] by (auto simp: sc_handle_sail_def to_int32_small servo_inv_def split: if_splits)
  next
    case (Sc_manual_sail_cmd v)
    then show ?thesis
      using assms s' small_fits(1) [of v] by (auto simp: sc_handle_sail_def to_int32_small servo_inv_def split: if_splits)
  next
    case (Sc_rudder_cmd p)
    with assms s' show ?thesis using servo_rudder [of s p AUTO s'] by simp
  next
    case (Sc_manual_rudder_cmd p)
    with assms s' show ?thesis using servo_rudder [of s p MANUAL_WIFI s'] by simp
  next
    case (Sc_ballast_cmd v u)
    with assms s' show ?thesis using servo_ballast [of s v AUTO u s'] by simp
  next
    case (Sc_manual_ballast_cmd v u)
    with assms s' show ?thesis using servo_ballast [of s v MANUAL_WIFI u s'] by simp
  next
    case (Sc_connection c)
    with assms s' show ?thesis by (auto simp: servo_inv_def)
  next
    case Sc_iterate
    with assms s' show ?thesis using servo_iterate [of s] by simp
  next
    case (Sc_consts m)
    with assms s' show ?thesis by (cases "c_rudder m"; cases "c_winch_0 m"; cases "c_winch_90 m") (auto simp: sc_handle_consts_def Let_def servo_inv_def)
  qed
  with s'(1) show ?thesis by blast
qed

interpretation servos: node_machine scamp_step servo_inv servo_event_ok
  by unfold_locales (rule servo_step)

section \<open>The chain\<close>

fun act_ok :: "ActEvent \<Rightarrow> bool" where
  "act_ok (ToSimple e) = simple_event_ok (9 / 10) e"
| "act_ok (ToScamp e) = servo_event_ok e"
| "act_ok _ = True"

definition act_inv :: "Actuated \<Rightarrow> bool" where
  "act_inv b \<longleftrightarrow> simple_inv (9 / 10) (sailor_node b) \<and> ballast_inv (ballast_ctl b) \<and> servo_inv (scamp_node b)"

lemma scamp_do_inv: "act_inv b \<Longrightarrow> servo_event_ok e \<Longrightarrow> \<exists>b'. scamp_do e b = Inr b' \<and> act_inv b'"
  using servo_step [of "scamp_node b" e] by (auto simp: act_inv_def scamp_do_def)

lemma rudder_command_bound: "simple_inv M s \<Longrightarrow> rudder_command (simple_sent s) i = Some p \<Longrightarrow> \<bar>p\<bar> \<le> M"
  unfolding rudder_command_def simple_inv_def by (fastforce split: if_splits SimpleOut.splits dest!: nth_mem)

lemma sail_command_bound: "simple_inv M s \<Longrightarrow> sail_command (simple_sent s) i = Some (Some v) \<Longrightarrow> small v"
  unfolding sail_command_def simple_inv_def small_def by (fastforce split: if_splits SimpleOut.splits dest!: nth_mem)

text \<open>The one step that faults: a sail command that is not a number reaches a winch in its automatic mode.\<close>

fun number_delivered :: "ActEvent \<Rightarrow> Actuated \<Rightarrow> bool" where
  "number_delivered (DeliverSail i) b =
     (sail_command (simple_sent (sailor_node b)) i = Some None \<longrightarrow> sc_winch_mode (scamp_node b) \<noteq> AUTO)"
| "number_delivered _ b = True"

lemma act_step_inv:
  assumes "act_inv b" "act_ok e" "number_delivered e b"
  shows "\<exists>b'. act_step e b = Inr b' \<and> act_inv b'"
proof (cases e)
  case (ToSimple x)
  then show ?thesis using assms simple_step_inv [of "9 / 10" "sailor_node b" x] by (auto simp: act_inv_def)
next
  case (ToBallast x)
  then show ?thesis using assms ballast_step_inv [of "ballast_ctl b" x] by (auto simp: act_inv_def)
next
  case (ToScamp x)
  then show ?thesis using assms scamp_do_inv by simp
next
  case (DeliverSail i)
  show ?thesis
  proof (cases "sail_command (simple_sent (sailor_node b)) i")
    case (Some v)
    then show ?thesis
    proof (cases v)
      case (Some x)
      with \<open>sail_command _ _ = Some v\<close> have "small x" using assms(1) sail_command_bound unfolding act_inv_def by blast
      then show ?thesis using \<open>sail_command _ _ = Some v\<close> Some DeliverSail assms(1) scamp_do_inv [of b "Sc_sail_cmd x"] by (simp add: deliver_sail_def)
    qed (use Some DeliverSail assms in \<open>simp add: deliver_sail_def\<close>)
  qed (use DeliverSail assms(1) in simp)
next
  case (DeliverRudder i)
  then show ?thesis
    using assms(1) scamp_do_inv rudder_command_bound [of "9 / 10" "sailor_node b" i]
    by (auto simp: act_inv_def [of b] split: option.split)
next
  case (DeliverBallast i)
  then show ?thesis using assms(1) scamp_do_inv by auto
qed

lemma act_step_fault: "act_ok e \<Longrightarrow> \<not> number_delivered e b \<Longrightarrow> act_step e b = Inl BadCast"
  by (cases e) (simp_all add: deliver_sail_def)

interpretation actuation: faulting_machine act_step act_inv act_ok number_delivered BadCast
  by unfold_locales (rule act_step_inv act_step_fault; assumption)+

text \<open>
  C15: From the controllers to the servos.  The sail and rudder controller, the ballast controller and the
  actuator interface get messages in any order, and their commands for sail, rudder and ballast reach the interface or not, however late or
  often.  If no sail command that is not a number is delivered while the winch is in its automatic mode, no node faults and every value written
  to a servo lies between 0 and 180; the first such command faults.  The messages are in range: what the controller gets is
  as for the bound on its rudder commands, with a limit of 0.9 radians; commands over the network are at most 0.9 radians for the rudder and 90 for the
  velocity of the ballast; voltages are below a million; the radio sends four or more channels between 23 and 2023; and new constants have different
  readings for the two ends of the winch and a middle of the rudder between 54 and 126.
\<close>

theorem servo_values_in_range:
  assumes "list_all act_ok es"
  shows "if stays act_step number_delivered es (Actuated_new r)
    then \<exists>b. run_events act_step es (Actuated_new r) = Inr b \<and> list_all servo_values (sc_pwm (scamp_node b))
    else run_events act_step es (Actuated_new r) = Inl BadCast"
proof -
  have "act_inv (Actuated_new r)"
    by (simp add: act_inv_def Actuated_new_def simple_inv_def angles_inv_def boat_angles_ok_def constants_ok_def ballast_inv_def
        servo_inv_def scamp_inv_def consts_ok_def node_init)
  from actuation.run_good [OF this assms] actuation.run_bad [OF this assms] show ?thesis
    by (auto simp: act_inv_def servo_inv_def)
qed

text \<open>With the wind from ahead a controller at rest lets the sail out: its first command is a number.\<close>

lemma sail_out_command:
  "\<exists>s v. run_events simple_step [SimpleWind 1 0, SimpleIterate] (SimpleControl_new r) = Inr s \<and> sail_command (simple_sent s) 1 = Some (Some v)"
proof -
  define s1 where "s1 = (SimpleControl_new r)\<lparr>wind_x := 1, wind_y := 0\<rparr>"
  define s2 where "s2 = s1\<lparr>sc_counter := sc_counter s1 + 1\<rparr>"
  have "min (max (\<bar>pi\<bar> - 8 / 10) 0) (3 / 2) = 3 / 2" using pi_ge_three by simp
  then have "sail_goal s2 = 3 / 2"
    by (simp add: s2_def s1_def SimpleControl_new_def sail_goal_def simple_alphaw_def heading_err_def Let_def Clip_def
        simple_constants_def atan2_def norm_angle_id)
  moreover have "norm_angle (3 / 2) = 3 / 2" using pi_ge_three by (intro norm_angle_id) simp
  moreover have "sb_sail (sc_boat s2) = 0" by (simp add: s2_def s1_def SimpleControl_new_def)
  ultimately have e: "norm_angle (sail_goal s2 - sb_sail (sc_boat s2)) = 3 / 2" by (simp only: diff_0_right)
  obtain v where v: "sail_voltage (sail_goal s2) s2 = Some v" unfolding sail_voltage_def Let_def e by simp
  have inv: "simple_inv (1 / 2) s2"
    by (simp add: simple_inv_def angles_inv_def boat_angles_ok_def s2_def s1_def SimpleControl_new_def simple_constants_def constants_ok_def)
  then obtain s3 where s3: "set_wing s2 = Inr s3" "s3 = s2 \<or> (\<exists>p. s3 = s2\<lparr>servo_pos := p\<rparr>)" using set_wing_total by blast
  have sent: "simple_sent (integrate_error s3) = [OutConsts simple_constants]"
    using s3(2) by (auto simp: integrate_error_def s2_def s1_def SimpleControl_new_def)
  define s4 where "s4 = simple_send (OutSail (Some v) (sail_goal s2)) (integrate_error s3)"
  have s4: "\<exists>ms. simple_sent s4 = OutConsts simple_constants # OutSail (Some v) (sail_goal s2) # ms"
    by (simp add: s4_def simple_send_def sent)
  have more: "\<exists>ms. simple_sent (if b then simple_send m u else u) = OutConsts simple_constants # OutSail (Some v) (sail_goal s2) # ms"
    if "\<exists>ms. simple_sent u = OutConsts simple_constants # OutSail (Some v) (sail_goal s2) # ms" for b m u
    using that by (auto simp: simple_send_def)
  have "\<exists>s. simple_iterate s1 = Inr s \<and> (\<exists>ms. simple_sent s = OutConsts simple_constants # OutSail (Some v) (sail_goal s2) # ms)"
    unfolding simple_iterate_def Let_def s2_def [symmetric] v s3(1) bindr_simps s4_def [symmetric]
    by (rule exI, rule conjI, rule refl) (intro more s4)
  then have "\<exists>s. simple_iterate s1 = Inr s \<and> sail_command (simple_sent s) 1 = Some (Some v)"
    by (auto simp: sail_command_def)
  moreover have "list_all norm_angle_fits (simple_angles s1)"
    using inv by (intro simple_angles_fit) (simp add: simple_inv_def s2_def angles_inv_def)
  ultimately show ?thesis by (auto simp: s1_def)
qed

theorem servo_values_in_range_witness:
  "\<exists>b. run_events act_step
      [ToSimple (SimpleWind 1 0), ToSimple SimpleIterate, ToScamp (Sc_mode (clear_mode\<lparr>winch_mode := Some AUTO\<rparr>)),
       DeliverSail 1, ToScamp Sc_iterate] (Actuated_new True) = Inr b \<and>
    list_all servo_values (sc_pwm (scamp_node b))"
proof -
  let ?es = "[ToSimple (SimpleWind 1 0), ToSimple SimpleIterate, ToScamp (Sc_mode (clear_mode\<lparr>winch_mode := Some AUTO\<rparr>)),
       DeliverSail 1, ToScamp Sc_iterate]"
  obtain s v where s: "run_events simple_step [SimpleWind 1 0, SimpleIterate] (SimpleControl_new True) = Inr s"
    "sail_command (simple_sent s) 1 = Some (Some v)" using sail_out_command by blast
  have "simple_step SimpleIterate ((SimpleControl_new True)\<lparr>wind_x := 1, wind_y := 0\<rparr>) = Inr s"
    using s(1) by (simp add: bindr_eq_Inr del: simple_step.simps(7))
  then have "stays act_step number_delivered ?es (Actuated_new True)"
    using s(2) by (auto simp: Actuated_new_def scamp_do_def split: sum.split simp del: simple_step.simps(7) One_nat_def)
  moreover have "list_all act_ok ?es" by simp
  ultimately show ?thesis using servo_values_in_range [of ?es True] by presburger
qed

end
