(* ===== verification/Wing_Link.thy ===== *)
theory Wing_Link
  imports Controllers Sensors
begin

text \<open>
  The sail and rudder controller (\<^verbatim>\<open>control/simple.cc\<close>) composed with the node of the rigid wing
  (\<^verbatim>\<open>rigid_wing/rigid_wing.cc\<close>): the queue \<^verbatim>\<open>rigid_wing_cmd\<close> carries the commands of the one to the other, which
  writes them as texts to the wing.
\<close>

section \<open>The command\<close>

text \<open>
  The controller keeps one command message.  Its constructor sets the state to \<^verbatim>\<open>MANUAL\<close>, number 7, and the two heel angles,
  later only the servo position changes; a position that was never set is read as zero.
\<close>

definition simple_rigid_cmd :: "int option \<Rightarrow> wing_cmd" where
  "simple_rigid_cmd pos = \<lparr>wc_state = 7, wc_heel = 0, wc_max_heel = 1, wc_servo_pos = get_or 0 pos\<rparr>"

text \<open>The handler of the rigid wing on the commands of the controller, in the order they were sent: what is written to the connection.\<close>

fun wing_deliver :: "string \<Rightarrow> int \<Rightarrow> SimpleOut list \<Rightarrow> string list res" where
  "wing_deliver garbage conn_fd [] = Inr []"
| "wing_deliver garbage conn_fd (OutRigid pos # ms) =
     bindr (ConstructAndSend garbage (simple_rigid_cmd pos) conn_fd) (\<lambda>w.
     bindr (wing_deliver garbage conn_fd ms) (\<lambda>ws. Inr (case w of None \<Rightarrow> ws | Some t \<Rightarrow> t # ws)))"
| "wing_deliver garbage conn_fd (_ # ms) = wing_deliver garbage conn_fd ms"

section \<open>Positions of the servo\<close>

definition wing_positions :: "int \<Rightarrow> int \<Rightarrow> ControllerConstants \<Rightarrow> bool" where
  "wing_positions lo hi c \<longleftrightarrow>
     of_int lo \<le> get_or 0 (rigid_port_servo_pos c) \<and> get_or 0 (rigid_port_servo_pos c) \<le> of_int hi \<and>
     of_int lo \<le> get_or 0 (rigid_starboard_servo_pos c) \<and> get_or 0 (rigid_starboard_servo_pos c) \<le> of_int hi"

definition wing_inv :: "int \<Rightarrow> int \<Rightarrow> SimpleControl \<Rightarrow> bool" where
  "wing_inv lo hi s \<longleftrightarrow> angles_inv s \<and> wing_positions lo hi (sc_constants s) \<and>
     (\<forall>p. OutRigid p \<in> set (simple_sent s) \<longrightarrow> (\<exists>v. p = Some v \<and> lo \<le> v \<and> v \<le> hi))"

primrec wing_event_ok :: "int \<Rightarrow> int \<Rightarrow> SimpleEvent \<Rightarrow> bool" where
  "wing_event_ok lo hi (SimpleBoatState b) = boat_angles_ok b"
| "wing_event_ok lo hi (SimpleConsts c) = (wing_positions lo hi c \<and> \<bar>get_or 0 (sail_heel_k c)\<bar> \<le> 10 ^ 3)"
| "wing_event_ok lo hi (SimpleWind x y) = True"
| "wing_event_ok lo hi (SimpleHeading h) = heading_angles_ok h"
| "wing_event_ok lo hi (SimpleMode m) = True"
| "wing_event_ok lo hi (SimpleSbus c) = (2 \<le> length c \<and> 0 \<le> c ! 1 \<and> c ! 1 < 2048)"
| "wing_event_ok lo hi SimpleIterate = True"

lemma trunc_between:
  assumes "of_int lo \<le> x" "x \<le> of_int hi"
  shows "lo \<le> trunc x" "trunc x \<le> hi"
  using assms by (auto simp: trunc_def le_floor_iff ceiling_le_iff floor_le_iff le_ceiling_iff intro: less_le_trans)

lemma to_int32_between:
  assumes "of_int lo \<le> x" "x \<le> of_int hi" "- (2 ^ 31) \<le> lo" "hi < 2 ^ 31"
  shows "\<exists>v. to_int32 x = Inr v \<and> lo \<le> v \<and> v \<le> hi"
  using trunc_between [OF assms(1, 2)] assms(3, 4) by (auto simp: to_int32_def to_int_def)

lemma set_wing_between:
  assumes "wing_positions lo hi (sc_constants s)" "- (2 ^ 31) \<le> lo" "hi < 2 ^ 31"
  shows "\<exists>pos. set_wing s = Inr (s\<lparr>servo_pos := pos\<rparr>) \<and> (auto_rigid_wing s \<longrightarrow> (\<exists>v. pos = Some v \<and> lo \<le> v \<and> v \<le> hi))"
proof (cases "auto_rigid_wing s")
  case True
  define x where "x = get_or 0 (if wind_source_dir s > 0 then rigid_port_servo_pos (sc_constants s)
                                else rigid_starboard_servo_pos (sc_constants s))"
  have "of_int lo \<le> x" "x \<le> of_int hi" using assms(1) by (auto simp: x_def wing_positions_def)
  from to_int32_between [OF this assms(2, 3)] obtain v where "to_int32 x = Inr v" "lo \<le> v" "v \<le> hi" by blast
  then show ?thesis using True by (auto simp: set_wing_def simp flip: x_def)
qed (auto simp: set_wing_def intro!: exI [of _ "servo_pos s"])

lemma wing_send_inv:
  "wing_inv lo hi s \<Longrightarrow> (\<And>p. m = OutRigid p \<Longrightarrow> \<exists>v. p = Some v \<and> lo \<le> v \<and> v \<le> hi) \<Longrightarrow> wing_inv lo hi (simple_send m s)"
  by (auto simp: wing_inv_def simple_send_def angles_inv_def)

lemma wing_kept:
  "auto_rigid_wing (simple_send m s) = auto_rigid_wing s" "servo_pos (simple_send m s) = servo_pos s"
  "auto_rigid_wing (integrate_error s) = auto_rigid_wing s" "servo_pos (integrate_error s) = servo_pos s"
  by (simp_all add: simple_send_def integrate_error_def)

lemma wing_iterate_inv:
  assumes "wing_inv lo hi s" "- (2 ^ 31) \<le> lo" "hi < 2 ^ 31"
  shows "\<exists>s'. simple_iterate s = Inr s' \<and> wing_inv lo hi s'"
proof -
  define s1 where "s1 = s\<lparr>sc_counter := sc_counter s + 1\<rparr>"
  have "wing_positions lo hi (sc_constants s1)" using assms(1) by (simp add: wing_inv_def s1_def)
  from set_wing_between [OF this assms(2, 3)] obtain s2 where s2: "set_wing s1 = Inr s2" "wing_inv lo hi (integrate_error s2)"
    "\<And>p. auto_rigid_wing s2 \<Longrightarrow> p = servo_pos s2 \<Longrightarrow> \<exists>v. p = Some v \<and> lo \<le> v \<and> v \<le> hi"
    using assms(1) by (fastforce simp: wing_inv_def angles_inv_def s1_def integrate_error_def)
  show ?thesis
    unfolding simple_iterate_def Let_def s2(1) [unfolded s1_def] bindr_simps
    by (rule exI, rule conjI, rule refl) (auto intro!: wing_send_inv s2 simp: wing_kept)
qed

lemma wing_step_inv:
  assumes "- (2 ^ 31) \<le> lo" "hi < 2 ^ 31" "wing_inv lo hi s" "wing_event_ok lo hi e"
  shows "\<exists>s'. simple_step e s = Inr s' \<and> wing_inv lo hi s'"
proof (cases e)
  case (SimpleSbus c)
  then have "\<bar>real_of_int (c ! 1) * 100 / 2050\<bar> < 2 ^ 31" using assms(4) by (simp add: abs_less_iff)
  then show ?thesis
    using SimpleSbus assms by (simp add: simple_handle_sbus_def nth_checked_def to_int32_small wing_inv_def angles_inv_def)
next
  case (SimpleMode m)
  then show ?thesis using assms by (cases "rigid_mode m") (simp_all add: simple_handle_mode_def wing_inv_def angles_inv_def)
next
  case (SimpleHeading h)
  then show ?thesis
    using assms by (cases "heading h"; cases "extra_sail h") (auto simp: simple_handle_heading_def heading_angles_ok_def wing_inv_def angles_inv_def)
next
  case SimpleIterate
  then show ?thesis using assms wing_iterate_inv simple_angles_fit by (simp add: wing_inv_def)
qed (use assms in \<open>auto simp: simple_handle_consts_def wing_inv_def angles_inv_def\<close>)

interpretation wing_sailor: node_machine simple_step "wing_inv 0 100" "wing_event_ok 0 100"
  by unfold_locales (rule wing_step_inv, simp_all)

section \<open>The texts\<close>

lemma replicate_two: "replicate 2 c = [c, c]"
  by (simp add: numeral_2_eq_2)

lemma max_heel_degrees: "\<exists>d. to_int32 (ToDeg 1) = Inr d \<and> 0 \<le> d \<and> d < 100"
proof -
  have "180 / pi \<le> real_of_int 90" "real_of_int 0 \<le> 180 / pi"
    using pi_ge_two pi_gt_zero by (simp_all add: divide_le_eq)
  from to_int32_between [OF this(2, 1)] show ?thesis by (auto simp: ToDeg_def)
qed

text \<open>A command with a position of the servo's range is a text of fourteen characters that ends with the position.\<close>

lemma wing_cmd_text:
  assumes "0 \<le> v" "v < 1000" "conn_fd \<noteq> -1"
  shows "\<exists>t. ConstructAndSend garbage (simple_rigid_cmd (Some v)) conn_fd = Inr (Some t) \<and> length t = 14 \<and>
    take 6 t = ''[7 000'' \<and> drop 10 t = printf_d 3 v @ '']''"
proof -
  obtain d where d: "to_int32 (ToDeg 1) = Inr d" "0 \<le> d" "d < 100" using max_heel_degrees by blast
  have zero: "to_int32 (ToDeg 0) = Inr 0" by (simp add: ToDeg_def to_int32_def to_int_def trunc_def)
  have len: "length (printf_d 2 d) = 2" "length (printf_d 3 v) = 3"
    using d assms by (auto intro!: length_printf_d)
  have num: "printf_d 1 7 = ''7''" "printf_d 3 0 = ''000''"
    using replicate_two [of "CHR ''0''"] by (simp_all add: printf_d_def nat_digits.simps zero_pad_def char_of_def bit_0)
  define t where "t = wing_text 7 0 d v"
  have t: "t = ''[7 000 '' @ printf_d 2 d @ '' '' @ printf_d 3 v @ '']''" by (simp add: t_def wing_text_def num [unfolded One_nat_def])
  have "ConstructAndSend garbage (simple_rigid_cmd (Some v)) conn_fd = Inr (Some t)"
    using assms(3) len d(1) zero
    by (simp add: ConstructAndSend_def wing_ConstructMessage_def simple_rigid_cmd_def snprintf_def t flip: t_def)
  then show ?thesis using len by (auto simp: t)
qed

lemma wing_deliver_texts:
  assumes "\<forall>p. OutRigid p \<in> set ms \<longrightarrow> (\<exists>v. p = Some v \<and> 0 \<le> v \<and> v \<le> 100)" "conn_fd \<noteq> -1"
  shows "\<exists>ts. wing_deliver garbage conn_fd ms = Inr ts \<and> length ts = length (filter (\<lambda>m. \<exists>p. m = OutRigid p) ms) \<and>
    (\<forall>t \<in> set ts. \<exists>v. 0 \<le> v \<and> v \<le> 100 \<and> length t = 14 \<and> take 6 t = ''[7 000'' \<and> drop 10 t = printf_d 3 v @ '']'')"
  using assms(1)
proof (induction ms)
  case (Cons m ms)
  from Cons obtain ts where ts: "wing_deliver garbage conn_fd ms = Inr ts" "length ts = length (filter (\<lambda>m. \<exists>p. m = OutRigid p) ms)"
    "\<forall>t \<in> set ts. \<exists>v. 0 \<le> v \<and> v \<le> 100 \<and> length t = 14 \<and> take 6 t = ''[7 000'' \<and> drop 10 t = printf_d 3 v @ '']''" by auto
  show ?case
  proof (cases m)
    case (OutRigid p)
    then obtain v where v: "p = Some v" "0 \<le> v" "v \<le> 100" using Cons.prems by auto
    with wing_cmd_text [of v conn_fd garbage] assms(2) obtain t where t:
      "ConstructAndSend garbage (simple_rigid_cmd p) conn_fd = Inr (Some t)" "length t = 14" "take 6 t = ''[7 000''"
      "drop 10 t = printf_d 3 v @ '']''" by auto
    show ?thesis using ts t v OutRigid by auto
  qed (use ts in auto)
qed simp

section \<open>Properties\<close>

text \<open>
  For constants whose two servo positions lie in the range of the servo, radio channels in range, angles of at most a million radians and a gain
  of the heel of at most a thousand, the controller runs and the node of the wing writes one text for each of its commands:
  fourteen characters with the manual state, no heel and a position between 0 and 100.
\<close>

theorem wing_gets_servo_positions:
  assumes "list_all (wing_event_ok 0 100) es" "conn_fd \<noteq> -1"
  shows "\<exists>s ts. run_events simple_step es (SimpleControl_new r) = Inr s \<and>
    wing_deliver garbage conn_fd (simple_sent s) = Inr ts \<and>
    length ts = length (filter (\<lambda>m. \<exists>p. m = OutRigid p) (simple_sent s)) \<and>
    (\<forall>t \<in> set ts. \<exists>v. 0 \<le> v \<and> v \<le> 100 \<and> length t = 14 \<and> take 6 t = ''[7 000'' \<and> drop 10 t = printf_d 3 v @ '']'')"
proof -
  have "wing_inv 0 100 (SimpleControl_new r)" by (simp add: wing_inv_def angles_inv_def boat_angles_ok_def wing_positions_def node_init)
  from wing_sailor.run_inv [OF this assms(1)] obtain s where s: "run_events simple_step es (SimpleControl_new r) = Inr s" "wing_inv 0 100 s"
    by blast
  from s(2) have "\<forall>p. OutRigid p \<in> set (simple_sent s) \<longrightarrow> (\<exists>v. p = Some v \<and> 0 \<le> v \<and> v \<le> 100)" by (simp add: wing_inv_def)
  from wing_deliver_texts [OF this assms(2)] s(1) show ?thesis by blast
qed

text \<open>
  The radio never reaches the wing.  The handler of \<^verbatim>\<open>sbus_value\<close> stores a servo position, but a command is only sent while
  the wing is in its automatic mode, and there the iteration has replaced the position: runs with
  and without the radio's messages send the same.
\<close>

definition not_sbus :: "SimpleEvent \<Rightarrow> bool" where
  "not_sbus e \<longleftrightarrow> (\<forall>c. e \<noteq> SimpleSbus c)"

definition same_but_servo :: "SimpleControl \<Rightarrow> SimpleControl \<Rightarrow> bool" where
  "same_but_servo s s' \<longleftrightarrow> (\<exists>x. s' = s\<lparr>servo_pos := x\<rparr>)"

lemma servo_unread:
  "sail_goal (s\<lparr>servo_pos := x\<rparr>) = sail_goal s" "sail_voltage g (s\<lparr>servo_pos := x\<rparr>) = sail_voltage g s"
  "wind_source_dir (s\<lparr>servo_pos := x\<rparr>) = wind_source_dir s" "simple_alphaw (s\<lparr>servo_pos := x\<rparr>) = simple_alphaw s"
  "goal_rudder (s\<lparr>servo_pos := x\<rparr>) = goal_rudder s" "integrate_error (s\<lparr>servo_pos := x\<rparr>) = (integrate_error s)\<lparr>servo_pos := x\<rparr>"
  "simple_send m (s\<lparr>servo_pos := x\<rparr>) = (simple_send m s)\<lparr>servo_pos := x\<rparr>"
  by (simp_all add: sail_goal_def sail_voltage_def wind_source_dir_def simple_alphaw_def goal_rudder_def integrate_error_def
      simple_send_def heading_err_def rudder_limit_def Let_def)

lemma set_wing_same:
  assumes "set_wing s = Inr t"
  shows "\<exists>y. set_wing (s\<lparr>servo_pos := x\<rparr>) = Inr (t\<lparr>servo_pos := y\<rparr>) \<and> (auto_rigid_wing t \<longrightarrow> y = servo_pos t)"
proof (cases "auto_rigid_wing s")
  case True
  with assms show ?thesis by (auto simp: set_wing_def servo_unread bindr_eq_Inr)
qed (use assms in \<open>auto simp: set_wing_def\<close>)

text \<open>The messages that an iteration sends after the command of the wing.\<close>

definition simple_rest :: "real \<Rightarrow> SimpleControl \<Rightarrow> SimpleControl" where
  "simple_rest rudder u =
     (let v = (if do_rudder u then simple_send (OutRudder rudder (1 * (rudder - sb_rudder (sc_boat u)))) u else u);
          w = (if \<bar>simple_alphaw v\<bar> > 14 / 10
               then simple_send (OutHeel (get_or 0 (nominal_heel (sc_constants v)) * of_int (Sign (wind_source_dir v)))) v else v)
      in if sc_counter w mod 100 = 0 then simple_send (OutConsts (sc_constants w)) w else w)"

lemma simple_iterate_stages:
  "simple_iterate s =
     (let s1 = s\<lparr>sc_counter := sc_counter s + 1\<rparr> in bindr (set_wing s1) (\<lambda>s2.
        let goal = sail_goal s1; u = simple_send (OutSail (sail_voltage goal s1) goal) (integrate_error s2)
        in Inr (simple_rest (goal_rudder (integrate_error s2))
             (if auto_rigid_wing u \<and> sc_counter u mod 10 = 0 then simple_send (OutRigid (servo_pos u)) u else u))))"
  by (simp only: simple_iterate_def simple_rest_def Let_def)

lemma simple_rest_servo: "simple_rest r (u\<lparr>servo_pos := y\<rparr>) = (simple_rest r u)\<lparr>servo_pos := y\<rparr>"
proof -
  define v where "v = (if do_rudder u then simple_send (OutRudder r (1 * (r - sb_rudder (sc_boat u)))) u else u)"
  define w where "w = (if \<bar>simple_alphaw v\<bar> > 14 / 10
    then simple_send (OutHeel (get_or 0 (nominal_heel (sc_constants v)) * of_int (Sign (wind_source_dir v)))) v else v)"
  have v: "(if do_rudder (u\<lparr>servo_pos := y\<rparr>) then simple_send (OutRudder r (1 * (r - sb_rudder (sc_boat (u\<lparr>servo_pos := y\<rparr>))))) (u\<lparr>servo_pos := y\<rparr>)
    else u\<lparr>servo_pos := y\<rparr>) = v\<lparr>servo_pos := y\<rparr>" by (simp add: v_def servo_unread)
  have w: "(if \<bar>simple_alphaw (v\<lparr>servo_pos := y\<rparr>)\<bar> > 14 / 10
    then simple_send (OutHeel (get_or 0 (nominal_heel (sc_constants (v\<lparr>servo_pos := y\<rparr>))) * of_int (Sign (wind_source_dir (v\<lparr>servo_pos := y\<rparr>)))))
      (v\<lparr>servo_pos := y\<rparr>) else v\<lparr>servo_pos := y\<rparr>) = w\<lparr>servo_pos := y\<rparr>" by (simp add: w_def servo_unread)
  show ?thesis unfolding simple_rest_def Let_def v w v_def [symmetric] w_def [symmetric] by (simp add: servo_unread)
qed

lemma simple_iterate_same:
  assumes "simple_iterate s = Inr t"
  shows "\<exists>y. simple_iterate (s\<lparr>servo_pos := x\<rparr>) = Inr (t\<lparr>servo_pos := y\<rparr>)"
proof -
  define s1 where "s1 = s\<lparr>sc_counter := sc_counter s + 1\<rparr>"
  obtain s2 where s2: "set_wing s1 = Inr s2"
    using assms by (cases "set_wing s1") (auto simp: simple_iterate_def Let_def s1_def)
  from set_wing_same [OF s2, of x] obtain y where y: "set_wing (s1\<lparr>servo_pos := x\<rparr>) = Inr (s2\<lparr>servo_pos := y\<rparr>)"
    "auto_rigid_wing s2 \<longrightarrow> y = servo_pos s2" by blast
  have s1x: "s\<lparr>servo_pos := x, sc_counter := sc_counter (s\<lparr>servo_pos := x\<rparr>) + 1\<rparr> = s1\<lparr>servo_pos := x\<rparr>"
    by (simp add: s1_def)
  show ?thesis
  proof (cases "auto_rigid_wing s2")
    case True
    then have "s2\<lparr>servo_pos := y\<rparr> = s2" using y(2) by simp
    with assms s2 y(1) have "simple_iterate (s\<lparr>servo_pos := x\<rparr>) = Inr t"
      unfolding simple_iterate_stages s1x s1_def [symmetric] by (simp add: servo_unread)
    then show ?thesis by (intro exI [of _ "servo_pos t"]) simp
  next
    case False
    with assms s2 y(1) show ?thesis
      unfolding simple_iterate_stages s1x s1_def [symmetric]
      by (intro exI [of _ y]) (auto simp: servo_unread wing_kept simple_rest_servo Let_def)
  qed
qed

lemma simple_step_same:
  assumes "same_but_servo s s'" "simple_step e s = Inr t"
  shows "if not_sbus e then \<exists>t'. simple_step e s' = Inr t' \<and> same_but_servo t t' else same_but_servo t s'"
proof -
  obtain x where x: "s' = s\<lparr>servo_pos := x\<rparr>" using assms(1) by (auto simp: same_but_servo_def)
  show ?thesis
  proof (cases e)
    case (SimpleSbus c)
    then show ?thesis using assms(2)
      by (auto simp: not_sbus_def same_but_servo_def x simple_handle_sbus_def bindr_eq_Inr)
  next
    case SimpleIterate
    have "simple_angles (s\<lparr>servo_pos := x\<rparr>) = simple_angles s" by (simp add: simple_angles_def servo_unread)
    with SimpleIterate show ?thesis
      using assms(2) simple_iterate_same [of s t x] by (auto simp: not_sbus_def same_but_servo_def x split: if_splits)
  next
    case (SimpleMode m)
    then show ?thesis using assms(2)
      by (cases "rigid_mode m") (auto simp: not_sbus_def same_but_servo_def x simple_handle_mode_def intro!: exI [of _ x])
  qed (use assms(2) in \<open>auto simp: not_sbus_def same_but_servo_def x simple_handle_consts_def simple_handle_heading_def
      intro!: exI [of _ x]\<close>)
qed

lemma simple_run_same:
  assumes "same_but_servo s s'" "run_events simple_step es s = Inr t"
  shows "\<exists>t'. run_events simple_step (filter not_sbus es) s' = Inr t' \<and> same_but_servo t t'"
  using assms
proof (induction es arbitrary: s s')
  case (Cons e es)
  from Cons.prems(2) obtain u where u: "simple_step e s = Inr u" "run_events simple_step es u = Inr t"
    by (cases "simple_step e s") auto
  show ?case
  proof (cases "not_sbus e")
    case True
    with simple_step_same [OF Cons.prems(1) u(1)] obtain u' where "simple_step e s' = Inr u'" "same_but_servo u u'" by auto
    with Cons.IH [OF _ u(2)] True show ?thesis by simp
  next
    case False
    with simple_step_same [OF Cons.prems(1) u(1)] Cons.IH [OF _ u(2)] show ?thesis by simp
  qed
qed simp

theorem radio_never_moves_the_wing:
  assumes "run_events simple_step es (SimpleControl_new r) = Inr s"
  shows "\<exists>s'. run_events simple_step (filter not_sbus es) (SimpleControl_new r) = Inr s' \<and> simple_sent s' = simple_sent s"
proof -
  have "same_but_servo (SimpleControl_new r) (SimpleControl_new r)"
    unfolding same_but_servo_def by (rule exI [of _ "servo_pos (SimpleControl_new r)"]) simp
  from simple_run_same [OF this assms] show ?thesis by (auto simp: same_but_servo_def)
qed

end
