(* ===== verification/Spec2Isabelle.thy ===== *)
theory Spec2Isabelle
  imports Message_Queue Ipc_Queue Clock Can_Codec Logging Sensors Waypoint_Manager Monitor Scamp Ui_Server Line_Plan_Node Line_Tacking Controllers Adaptive Simulator Saoud Log_Columns Tools Proto_File Actuation Wing_Link
begin

text \<open>
  A verification library of the control software of an autonomous sailing boat.

  \<^bold>\<open>The program.\<close>  The boat runs a set of processes, each with one or more nodes (\<^verbatim>\<open>util/node.h\<close>).  A node has
  handlers for the messages of named queues and an \<^verbatim>\<open>Iterate\<close> function that a periodic loop calls; nodes
  interact only through the queues.  Sensors on a CAN bus, a radio receiver and a rigid wing are
  read into messages; the state estimator turns them into the boat's state and the wind; the waypoint manager
  and one of the two planners (line planner, line tacker) choose a heading; a controller turns it into
  angles and voltages, which the actuator interface (SCAMP) writes to the servos as PWM values on the CAN bus.  A logger
  records all queues, a web server shows them, and a simulator replaces sensors and actuators, with a fake clock.

  \<^bold>\<open>Shape of the model.\<close>  A class is a \<^theory_text>\<open>record\<close> of its members, a handler or an iteration is a function on that record, and a
  node is the function that takes an event (one message, or one iteration) to the next state; messages that are sent are
  appended to a list of the record.  Each handler is taken to be atomic.  The code guarantees that only in part: handlers run on threads of their own, and those of the
  waypoint manager, the line tacker and SCAMP share no mutex, their members being atomic one by one or not protected at all, so that for these nodes atomicity is an
  assumption of the model.  The clock, the queues and the chain of actuation, where the interleaving matters, are sequences of steps of several
  threads.  A result type carries the faults of C++: a failed \<^verbatim>\<open>CHECK\<close>, an index out of bounds, a null pointer, an
  uninitialised pointer, a bad shift and a conversion of a floating value that does not fit its type.  Machine integers are words or
  integers with the wrap-around written out.  A \<^verbatim>\<open>double\<close> or \<^verbatim>\<open>float\<close> is a real number, without rounding, and values that
  are not a number are a separate value where the code can meet one (turning points of the planner, sail
  voltages, commands of the simulator, the divisions of the adaptive controller).  The turns that \<^verbatim>\<open>norm_angle\<close> takes off an angle are converted to an \<^verbatim>\<open>int\<close>: the waypoint manager, the line tacker
  and the sail and rudder controller check that they fit and fault otherwise, which the bounds on angles in their theorems exclude; elsewhere their number is unbounded.
  Members that the constructors leave uninitialised are parameters.  Code outside the repository is a parameter with its documented laws as hypotheses: Boost's
  semaphores, segments and rounding, protobuf's serialisation, text format and reflection, Eigen's quaternions and
  inverse of a six-by-six matrix, sockets and files as what they return.

  \<^bold>\<open>Theories.\<close>
    \<^item> \<^verbatim>\<open>Boat_Prelude\<close>: faults, checked accesses and conversions, bits and bytes, and the locale \<^verbatim>\<open>node_machine\<close>: a step
      function with an invariant that acceptable events keep; what it proves once, that a run of
      acceptable events does not fault and keeps the invariant, is used through its interpretations for every node below.  \<^verbatim>\<open>guarded_machine\<close> adds a condition on events
      that depends on the state in which they arrive, \<^verbatim>\<open>faulting_machine\<close> that exactly the events which violate it fault.
    \<^item> \<^verbatim>\<open>Message_Queue\<close> (\<^verbatim>\<open>ipc/message_queue.hpp\<close>): control block, memory layout, initialisation, send and the receive modes.
      The ring refines an abstract log of numbered messages; the locale \<^verbatim>\<open>bounded_log\<close> derives from it that a receiver that
      keeps up gets every message once and in order, which carries over to receivers with a deadline, the mode the program uses, that look at the queue before another lap
      and whose waiting is not woken late (a receiver woken late gets the newest message instead).  \<^verbatim>\<open>Ipc_Queue\<close> (\<^verbatim>\<open>ipc/queue.cc\<close>, \<^verbatim>\<open>ipc/queue.hpp\<close>, \<^verbatim>\<open>ipc/test_queue.cc\<close>): named
      queues, the counting of writers beside readers that open and close, readers that wait for a writer among other processes, typed queues, the queue of the tests.
    \<^item> \<^verbatim>\<open>Clock\<close> (\<^verbatim>\<open>util/clock.cc\<close>, \<^verbatim>\<open>util/clock.h\<close>, \<^verbatim>\<open>util/node.cc\<close>): the fake clock as a machine of threads and manager over the interface
      \<^verbatim>\<open>min_queue\<close> of the priority queue: sleepers wake on time, time moves when all sleep, the periodic loop ends its catching up; the
      conversions of the real clock, and the fixture of the tests (\<^verbatim>\<open>util/testing.cc\<close>) with two tests in one process.
    \<^item> \<^verbatim>\<open>Can_Table\<close>, \<^verbatim>\<open>Can\<close>, \<^verbatim>\<open>Can_Codec\<close> (\<^verbatim>\<open>can/canboat-pgn.h\<close>, \<^verbatim>\<open>can/pgn.cc\<close>, \<^verbatim>\<open>can/can.cc\<close>, \<^verbatim>\<open>util/proto_util.cc\<close>): the table of messages, identifiers,
      bit fields, decoding, reassembly of fast packets, encoding; slices, round trip and bounds.
    \<^item> \<^verbatim>\<open>Logging\<close> (\<^verbatim>\<open>util/logger.cc\<close>, \<^verbatim>\<open>util/log-replay.cc\<close>, \<^verbatim>\<open>util/log_deprecation.cc\<close>): a log replays to the messages that were
      logged, and a truncated one to a prefix.  \<^verbatim>\<open>Proto_File\<close> (\<^verbatim>\<open>util/proto_util.cc\<close>): messages in text files, and the constants of
      SCAMP across a restart.
    \<^item> \<^verbatim>\<open>Sensors\<close> (\<^verbatim>\<open>sensor/read-sbus.cc\<close>, \<^verbatim>\<open>rigid_wing/rigid_wing.cc\<close>): the radio's frames and the wing's texts.  \<^verbatim>\<open>State_Estimator\<close>
      (\<^verbatim>\<open>sensor/state_estimator.cc\<close>): the published state as a function of the history of messages.
    \<^item> \<^verbatim>\<open>Nav_Util\<close>, \<^verbatim>\<open>Polygon\<close>, \<^verbatim>\<open>Frames\<close> (\<^verbatim>\<open>control/util.cc\<close>, \<^verbatim>\<open>math/polygon.cc\<close>): angles, rotations, distances, vectors in messages, and the algebra of three-by-three
      matrices.  \<^verbatim>\<open>Control_Msgs\<close>: the messages of \<^verbatim>\<open>control/actuator_cmd.proto\<close>.
    \<^item> \<^verbatim>\<open>Waypoint_Manager\<close> (\<^verbatim>\<open>control/waypoint_manager.cc\<close>), \<^verbatim>\<open>Line_Plan\<close> and \<^verbatim>\<open>Line_Plan_Node\<close> (\<^verbatim>\<open>control/line_plan.cc\<close>), \<^verbatim>\<open>Line_Tacking\<close>
      (\<^verbatim>\<open>control/line_tacking.cc\<close>): the challenges, the path search with its costs and gradients, progress along the waypoints, the
      choice of a heading off the wind.
    \<^item> \<^verbatim>\<open>Controllers\<close> (\<^verbatim>\<open>control/simple.cc\<close>, \<^verbatim>\<open>control/ballast.cc\<close>), \<^verbatim>\<open>Adaptive\<close> (\<^verbatim>\<open>control/adaptive.cc\<close>), \<^verbatim>\<open>Scamp\<close> (\<^verbatim>\<open>control/scamp.cc\<close>): bounds of every command, the constants that SCAMP
      takes from and puts on its queue,
      the end stops.  \<^verbatim>\<open>Actuation\<close> composes controllers and SCAMP over lossy queues, with the sail commands that are not a number and on which SCAMP faults, \<^verbatim>\<open>Wing_Link\<close> the controller and the node of the rigid wing: every
      text the wing gets has a position of its servo's range, and the radio has no influence on it.
    \<^item> \<^verbatim>\<open>Monitor\<close> (\<^verbatim>\<open>management/monitor.cc\<close>) and \<^verbatim>\<open>Ui_Server\<close> (\<^verbatim>\<open>ui/server.cc\<close>): status reports; requests of the pages, the threads that keep
      the latest message of each queue, and what they leave behind at shutdown.
    \<^item> \<^verbatim>\<open>Sim_Physics\<close> and \<^verbatim>\<open>Saoud\<close> (\<^verbatim>\<open>sim/sim_physics.cc\<close>, \<^verbatim>\<open>sim/sim_physics.h\<close>): the two models of the boat, with invariants and energy
      statements that hold of heeled boats and mirrored orientations too.  \<^verbatim>\<open>Simulator\<close> (\<^verbatim>\<open>sim/sim_inter.cc\<close>, \<^verbatim>\<open>sim/fake_airmar.cc\<close>, \<^verbatim>\<open>sim/fake_internal_sensors.cc\<close>): the node and the fake sensors,
      composed with the state estimator.  \<^verbatim>\<open>Csv_Logger\<close>, \<^verbatim>\<open>Log_Columns\<close> (\<^verbatim>\<open>sim/csv_logging.cc\<close> and the columns of the programs) and \<^verbatim>\<open>Tools\<close>
      (\<^verbatim>\<open>util/ping.cc\<close>, \<^verbatim>\<open>util/pong.cc\<close>, \<^verbatim>\<open>can/can-ping.cc\<close>, \<^verbatim>\<open>util/log-replay-main.cc\<close>, \<^verbatim>\<open>util/logsim_main.cc\<close>).

  \<^bold>\<open>What the theorems show.\<close>  For the nodes: that they do not fault on any sequence of acceptable messages, and what holds of everything
  they send (waypoint manager, planner, tacker, controllers, SCAMP, simulator), with the exceptions stated as
  hypotheses on the messages.  For protocols and files: round trips (CAN, logs, typed queues, SBUS, constants).
  For algorithms: correctness against a specification (path search returns the cheapest optimised hypothesis, gradients are
  derivatives of the costs, the sail search is optimal, bit extraction is a slice).  For compositions: the estimator recovers the simulated state from
  the fake sensors, the servos get values in range whatever the queues lose, and the programs' logs are complete.  Several
  lemmas exhibit behaviour that the code does not intend; they are proved as they are.

  \<^bold>\<open>Bounds and fuel.\<close>  No function takes fuel: loops are structural or come with a measure, the gradient descent runs its
  fixed number of steps, and the catching up of the periodic loop, which ends only when time passes slower than the loop advances,
  is a partial function whose result is proved to exist.  Waits that may not end (a reader waiting for a
  writer, a receiver on a condition variable) consume a given list of wake-ups and report that they still wait when it is used
  up.  The assumptions on ranges in the theorems on SCAMP (numbers up to a million) and on angles (up to \<open>10\<^sup>9\<close>) only exclude conversions that overflow an \<^verbatim>\<open>int\<close>.

  \<^bold>\<open>Not modelled.\<close>  \<^verbatim>\<open>sim/python/transformations.c\<close> is a third-party extension for plotting.  Main functions construct nodes and start threads.
  The set-up of sockets, of the serial port, of signals and of thread priorities consists of system calls whose effect is outside the program.
  The disabled search in \<^verbatim>\<open>line_plan.cc:347\<close> and the body of \<^verbatim>\<open>Polygon::ProcessPts\<close> after its first statement are never executed.
  The handlers of \<^verbatim>\<open>log-replay-main.cc\<close> that only print, texts of the PGN table that no code reads, the tests themselves, and the random numbers of the sensors'
  noise, which is switched off, are left out.
\<close>

end
